(* ===== verification/Prelude.thy ===== *)
theory Prelude
  imports
    "HOL-Library.AList"
    "HOL-Library.Char_ord"
    "HOL-Library.List_Lexorder"
    "HOL-Library.Multiset"
    "HOL-Library.Sublist"
    "HOL-Library.Word"
begin

text \<open>
  The shared prelude: what the operator's code uses of the Go language and its standard
  library, and the generic lemmas every component rests on.

  \<^item> A Go string is a sequence of bytes, here \<^typ>\<open>string\<close>, so that \<open>len\<close> is
    \<^const>\<open>length\<close> and string comparison is the bytewise lexicographic order of
    \<open>List_Lexorder\<close> and \<open>Char_ord\<close>. The Unicode-aware routines (\<open>TrimSpace\<close>,
    \<open>ToLower\<close>, \<open>ToUpper\<close>, \<open>EqualFold\<close>, \<open>Quote\<close>) are modelled on ASCII
    bytes; on other bytes they act as the identity.
  \<^item> A Go \<open>map[string]T\<close> is an association list with distinct keys whose order stands for
    one iteration order. The \<open>nil\<close> map and the empty map are both \<^term>\<open>[]\<close>: the
    code reads them alike and allocates before it writes. Where the code ranges over a map
    it built itself, the iteration order is a parameter \<open>ord\<close> of the definition.
  \<^item> A pointer that may be \<open>nil\<close> is an \<^typ>\<open>'a option\<close>; an error return is a sum
    whose left side is the error.
\<close>

named_theorems go_defs "definitions that evaluation and case analysis unfold"
named_theorems token_simps "facts on splitting, trimming and joining strings"

section \<open>Maps\<close>

type_synonym 'v gomap = "(string \<times> 'v) list"

text \<open>Reading a \<open>map[string]string\<close>: a missing key reads as the empty string.\<close>

definition mget :: "string gomap \<Rightarrow> string \<Rightarrow> string" where
  "mget m k = (case map_of m k of None \<Rightarrow> [] | Some v \<Rightarrow> v)"

definition mhas :: "'v gomap \<Rightarrow> string \<Rightarrow> bool" where
  "mhas m k \<longleftrightarrow> map_of m k \<noteq> None"

abbreviation mset_key :: "string \<Rightarrow> 'v \<Rightarrow> 'v gomap \<Rightarrow> 'v gomap" where
  "mset_key \<equiv> AList.update"

abbreviation mdel_key :: "string \<Rightarrow> 'v gomap \<Rightarrow> 'v gomap" where
  "mdel_key \<equiv> AList.delete"

text \<open>The loop \<open>for k, v := range src { dst[k] = v }\<close>.\<close>

definition mcopy :: "'v gomap \<Rightarrow> 'v gomap \<Rightarrow> 'v gomap" where
  "mcopy dst src = fold (\<lambda>(k, v) d. mset_key k v d) src dst"

abbreviation wf_map :: "'v gomap \<Rightarrow> bool" where
  "wf_map m \<equiv> distinct (map fst m)"

text \<open>An iteration order: any rearrangement of the elements of a map.\<close>

definition is_order :: "('a list \<Rightarrow> 'a list) \<Rightarrow> bool" where
  "is_order ord \<longleftrightarrow> (\<forall>xs. mset (ord xs) = mset xs)"

section \<open>Strings\<close>

definition is_space :: "char \<Rightarrow> bool" where
  "is_space c \<longleftrightarrow> c \<in> {CHR 0x09, CHR 0x0A, CHR 0x0B, CHR 0x0C, CHR 0x0D, CHR '' ''}"

definition TrimSpace :: "string \<Rightarrow> string" where
  "TrimSpace s = rev (dropWhile is_space (rev (dropWhile is_space s)))"

definition TrimRight :: "char \<Rightarrow> string \<Rightarrow> string" where
  "TrimRight c s = rev (dropWhile (\<lambda>x. x = c) (rev s))"

definition TrimBoth :: "char \<Rightarrow> string \<Rightarrow> string" where
  "TrimBoth c s = TrimRight c (dropWhile (\<lambda>x. x = c) s)"

abbreviation HasPrefix :: "string \<Rightarrow> string \<Rightarrow> bool" where
  "HasPrefix s p \<equiv> prefix p s"

abbreviation HasSuffix :: "string \<Rightarrow> string \<Rightarrow> bool" where
  "HasSuffix s p \<equiv> suffix p s"

definition TrimPrefix :: "string \<Rightarrow> string \<Rightarrow> string" where
  "TrimPrefix s p = (if prefix p s then drop (length p) s else s)"

definition TrimSuffix :: "string \<Rightarrow> string \<Rightarrow> string" where
  "TrimSuffix s p = (if suffix p s then take (length s - length p) s else s)"

text \<open>The text before and after the first occurrence of a separator.\<close>

fun Cut :: "string \<Rightarrow> string \<Rightarrow> (string \<times> string) option" where
  "Cut sep [] = (if sep = [] then Some ([], []) else None)"
| "Cut sep (c # cs) =
     (if prefix sep (c # cs) then Some ([], drop (length sep) (c # cs))
      else map_option (\<lambda>(a, b). (c # a, b)) (Cut sep cs))"

lemma Cut_Some: "Cut sep s = Some (a, b) \<Longrightarrow> s = a @ sep @ b"
  by (induction sep s arbitrary: a b rule: Cut.induct)
     (auto split: if_splits simp: prefix_def)

lemma Cut_shorter: "Cut sep s = Some (a, b) \<Longrightarrow> sep \<noteq> [] \<Longrightarrow> length b < length s"
  by (drule Cut_Some) simp

text \<open>
  \<open>strings.Split\<close>, \<open>strings.SplitN(s, sep, 2)\<close>, \<open>strings.Join\<close>,
  \<open>strings.ReplaceAll\<close> and \<open>strings.Contains\<close>. The code never splits on or replaces
  the empty string; the first equations only make the functions total.
\<close>

function Split :: "string \<Rightarrow> string \<Rightarrow> string list" where
  "Split sep s =
     (if sep = [] then map (\<lambda>c. [c]) s
      else case Cut sep s of None \<Rightarrow> [s] | Some (a, b) \<Rightarrow> a # Split sep b)"
  by pat_completeness auto
termination
  by (relation "measure (\<lambda>(sep, s). length s)") (auto dest: Cut_shorter)

declare Split.simps [simp del]

definition SplitN2 :: "string \<Rightarrow> string \<Rightarrow> string list" where
  "SplitN2 sep s = (case Cut sep s of None \<Rightarrow> [s] | Some (a, b) \<Rightarrow> [a, b])"

fun Join :: "string \<Rightarrow> string list \<Rightarrow> string" where
  "Join sep [] = []"
| "Join sep [x] = x"
| "Join sep (x # y # zs) = x @ sep @ Join sep (y # zs)"

function ReplaceAll :: "string \<Rightarrow> string \<Rightarrow> string \<Rightarrow> string" where
  "ReplaceAll s old new =
     (if old = [] then s
      else case Cut old s of None \<Rightarrow> s | Some (a, b) \<Rightarrow> a @ new @ ReplaceAll b old new)"
  by pat_completeness auto
termination
  by (relation "measure (\<lambda>(s, old, new). length s)") (auto dest: Cut_shorter)

declare ReplaceAll.simps [simp del]

definition Contains :: "string \<Rightarrow> string \<Rightarrow> bool" where
  "Contains s sub \<longleftrightarrow> Cut sub s \<noteq> None"

definition ContainsAny :: "string \<Rightarrow> string \<Rightarrow> bool" where
  "ContainsAny s chars \<longleftrightarrow> list_ex (\<lambda>c. c \<in> set chars) s"

definition lower_char :: "char \<Rightarrow> char" where
  "lower_char c = (if CHR ''A'' \<le> c \<and> c \<le> CHR ''Z'' then char_of (of_char c + 32 :: nat) else c)"

definition upper_char :: "char \<Rightarrow> char" where
  "upper_char c = (if CHR ''a'' \<le> c \<and> c \<le> CHR ''z'' then char_of (of_char c - 32 :: nat) else c)"

definition ToLower :: "string \<Rightarrow> string" where
  "ToLower s = map lower_char s"

definition ToUpper :: "string \<Rightarrow> string" where
  "ToUpper s = map upper_char s"

definition EqualFold :: "string \<Rightarrow> string \<Rightarrow> bool" where
  "EqualFold a b \<longleftrightarrow> ToLower a = ToLower b"

section \<open>Numbers and quoting\<close>

definition is_digit :: "char \<Rightarrow> bool" where
  "is_digit c \<longleftrightarrow> CHR ''0'' \<le> c \<and> c \<le> CHR ''9''"

definition is_lower :: "char \<Rightarrow> bool" where
  "is_lower c \<longleftrightarrow> CHR ''a'' \<le> c \<and> c \<le> CHR ''z''"

definition is_upper :: "char \<Rightarrow> bool" where
  "is_upper c \<longleftrightarrow> CHR ''A'' \<le> c \<and> c \<le> CHR ''Z''"

definition is_alnum :: "char \<Rightarrow> bool" where
  "is_alnum c \<longleftrightarrow> is_lower c \<or> is_upper c \<or> is_digit c"

definition digit_char :: "nat \<Rightarrow> char" where
  "digit_char d = char_of (48 + d)"

definition digit_val :: "char \<Rightarrow> nat" where
  "digit_val c = of_char c - 48"

fun show_nat :: "nat \<Rightarrow> string" where
  "show_nat n = (if n < 10 then [digit_char n] else show_nat (n div 10) @ [digit_char (n mod 10)])"

declare show_nat.simps [simp del]

text \<open>The verb \<open>%d\<close>.\<close>

definition show_int :: "int \<Rightarrow> string" where
  "show_int i = (if i < 0 then ''-'' @ show_nat (nat (- i)) else show_nat (nat i))"

definition digits_val :: "string \<Rightarrow> nat" where
  "digits_val s = foldl (\<lambda>n c. 10 * n + digit_val c) 0 s"

text \<open>
  \<open>strconv.ParseInt(s, 10, bits)\<close>: an optional sign, then at least one digit and nothing
  else, and the value in the signed range of the width; \<^const>\<open>None\<close> is the error return.
\<close>

definition ParseInt :: "nat \<Rightarrow> string \<Rightarrow> int option" where
  "ParseInt bits s =
     (let neg = (s \<noteq> [] \<and> hd s = CHR ''-'');
          ds = (if s \<noteq> [] \<and> (hd s = CHR ''-'' \<or> hd s = CHR ''+'') then tl s else s)
      in if ds = [] \<or> \<not> list_all is_digit ds then None
         else let v = (if neg then - int (digits_val ds) else int (digits_val ds))
              in if - (2 ^ (bits - 1)) \<le> v \<and> v < 2 ^ (bits - 1) then Some v else None)"

text \<open>Conversion to \<open>int32\<close> and arithmetic at that width: two's complement wrap-around.\<close>

definition int32 :: "int \<Rightarrow> int" where
  "int32 x = (x + 2 ^ 31) mod 2 ^ 32 - 2 ^ 31"

definition hex_digit :: "nat \<Rightarrow> char" where
  "hex_digit d = (if d < 10 then char_of (48 + d) else char_of (87 + d))"

definition quote_char :: "char \<Rightarrow> string" where
  "quote_char c =
     (if c = CHR 0x22 then [CHR 0x5C, CHR 0x22]
      else if c = CHR 0x5C then [CHR 0x5C, CHR 0x5C]
      else if c = CHR 0x07 then [CHR 0x5C, CHR ''a'']
      else if c = CHR 0x08 then [CHR 0x5C, CHR ''b'']
      else if c = CHR 0x0C then [CHR 0x5C, CHR ''f'']
      else if c = CHR 0x0A then [CHR 0x5C, CHR ''n'']
      else if c = CHR 0x0D then [CHR 0x5C, CHR ''r'']
      else if c = CHR 0x09 then [CHR 0x5C, CHR ''t'']
      else if c = CHR 0x0B then [CHR 0x5C, CHR ''v'']
      else if (of_char c :: nat) < 32 \<or> (of_char c :: nat) = 127
      then [CHR 0x5C, CHR ''x'', hex_digit (of_char c div 16), hex_digit (of_char c mod 16)]
      else [c])"

text \<open>The verb \<open>%q\<close>.\<close>

definition Quote :: "string \<Rightarrow> string" where
  "Quote s = [CHR 0x22] @ concat (map quote_char s) @ [CHR 0x22]"

section \<open>Lemmas on maps\<close>

lemma map_of_mset_key [simp]: "map_of (mset_key k v m) = (map_of m)(k \<mapsto> v)"
  by (rule AList.update_conv')

lemma map_of_mdel_key [simp]: "map_of (mdel_key k m) = (map_of m)(k := None)"
  by (rule AList.delete_conv')

lemma wf_map_mset_key [simp]: "wf_map m \<Longrightarrow> wf_map (mset_key k v m)"
  by (rule AList.distinct_update)

lemma wf_map_mdel_key [simp]: "wf_map m \<Longrightarrow> wf_map (mdel_key k m)"
  by (rule AList.distinct_delete)

lemma mget_mset_key [simp]: "mget (mset_key k v m) k' = (if k' = k then v else mget m k')"
  by (simp add: mget_def)

lemma mget_mdel_key [simp]: "mget (mdel_key k m) k' = (if k' = k then [] else mget m k')"
  by (simp add: mget_def)

lemma mhas_mset_key [simp]: "mhas (mset_key k v m) k' \<longleftrightarrow> k' = k \<or> mhas m k'"
  by (simp add: mhas_def)

lemma mhas_mdel_key [simp]: "mhas (mdel_key k m) k' \<longleftrightarrow> k' \<noteq> k \<and> mhas m k'"
  by (simp add: mhas_def)

lemma mget_Nil [simp]: "mget [] k = []"
  by (simp add: mget_def)

lemma mhas_Nil [simp]: "\<not> mhas [] k"
  by (simp add: mhas_def)

lemma mhas_iff: "mhas m k \<longleftrightarrow> k \<in> fst ` set m"
  by (simp add: mhas_def map_of_eq_None_iff)

lemma mget_nonempty_mhas: "mget m k \<noteq> [] \<Longrightarrow> mhas m k"
  by (auto simp: mget_def mhas_def split: option.splits)

lemma fold_mset_key_conv:
  "map_of (fold (\<lambda>(k, v) d. mset_key k v d) src dst) = map_of dst ++ map_of (rev src)"
  by (induction src arbitrary: dst) (auto simp: map_add_assoc [symmetric])

lemma map_of_rev_distinct: "distinct (map fst xs) \<Longrightarrow> map_of (rev xs) = map_of xs"
  by (rule map_of_eqI) (auto simp: map_of_eq_Some_iff rev_map [symmetric])

lemma map_of_mcopy [simp]: "wf_map src \<Longrightarrow> map_of (mcopy dst src) = map_of dst ++ map_of src"
  by (simp add: mcopy_def fold_mset_key_conv map_of_rev_distinct)

lemma wf_map_mcopy [simp]: "wf_map dst \<Longrightarrow> wf_map (mcopy dst src)"
  unfolding mcopy_def by (induction src arbitrary: dst) auto

lemma mcopy_Nil [simp]: "mcopy m [] = m"
  by (simp add: mcopy_def)

lemma mcopy_keys: "fst ` set (mcopy dst src) = fst ` set dst \<union> fst ` set src"
  unfolding mcopy_def
proof (induction src arbitrary: dst)
  case (Cons kv src)
  then show ?case by (cases kv) (simp add: AList.dom_update)
qed simp

lemma fold_if_filter: "fold (\<lambda>x m. if P x then f x m else m) xs m = fold f (filter P xs) m"
  by (induction xs arbitrary: m) auto

lemma mcopy_map: "fold (\<lambda>x m. mset_key (k x) (v x) m) xs m = mcopy m (map (\<lambda>x. (k x, v x)) xs)"
  by (induction xs arbitrary: m) (auto simp: mcopy_def)

lemma mcopy_in: "wf_map dst \<Longrightarrow> kv \<in> set (mcopy dst src) \<Longrightarrow> kv \<in> set dst \<or> kv \<in> set src"
proof -
  assume "wf_map dst" and "kv \<in> set (mcopy dst src)"
  then have "map_of (mcopy dst src) (fst kv) = Some (snd kv)" by simp
  then have "map_of (rev src) (fst kv) = Some (snd kv) \<or> map_of dst (fst kv) = Some (snd kv)"
    by (auto simp: mcopy_def fold_mset_key_conv)
  then show ?thesis by (auto dest: map_of_SomeD)
qed

lemma wf_map_filter [simp]: "wf_map m \<Longrightarrow> wf_map (filter P m)"
  by (induction m) auto

lemma find_append: "find P (xs @ ys) = (case find P xs of None \<Rightarrow> find P ys | Some x \<Rightarrow> Some x)"
  by (induction xs) auto

section \<open>Lemmas on iteration orders\<close>

lemma is_orderD: "is_order ord \<Longrightarrow> mset (ord xs) = mset xs"
  by (simp add: is_order_def)

lemma is_order_set [simp]: "is_order ord \<Longrightarrow> set (ord xs) = set xs"
  by (metis is_orderD set_mset_mset)

lemma is_order_length [simp]: "is_order ord \<Longrightarrow> length (ord xs) = length xs"
  by (metis is_orderD size_mset)

lemma is_order_distinct_map: "is_order ord \<Longrightarrow> distinct (map f (ord xs)) = distinct (map f xs)"
  by (metis is_orderD mset_map mset_eq_imp_distinct_iff)

lemma is_order_Nil [simp]: "is_order ord \<Longrightarrow> ord [] = []"
  by (metis is_order_length length_0_conv)

lemma is_order_id [simp]: "is_order (\<lambda>xs. xs)"
  by (simp add: is_order_def)

lemma is_order_rev [simp]: "is_order rev"
  by (simp add: is_order_def)

section \<open>Lemmas on strings\<close>

lemma set_TrimSpace: "set (TrimSpace s) \<subseteq> set s"
  by (auto simp: TrimSpace_def dest!: set_dropWhileD)

lemma TrimSpace_Nil [simp]: "TrimSpace [] = []"
  by (simp add: TrimSpace_def)

definition trimmed :: "string \<Rightarrow> bool" where
  "trimmed s \<longleftrightarrow> s = [] \<or> \<not> is_space (hd s) \<and> \<not> is_space (last s)"

lemma trimmed_Nil [simp]: "trimmed []"
  by (simp add: trimmed_def)

lemma TrimSpace_trimmed [simp]: "trimmed s \<Longrightarrow> TrimSpace s = s"
proof (cases "s = []")
  case False
  assume "trimmed s"
  with False have "dropWhile is_space s = s" and "dropWhile is_space (rev s) = rev s"
    by (simp_all add: trimmed_def dropWhile_eq_self_iff hd_rev)
  then show ?thesis by (simp add: TrimSpace_def)
qed simp

lemma last_dropWhile: "dropWhile P xs \<noteq> [] \<Longrightarrow> last (dropWhile P xs) = last xs"
  by (induction xs) auto

lemma trimmed_TrimSpace [simp]: "trimmed (TrimSpace s)"
proof (cases "TrimSpace s = []")
  case False
  let ?d = "dropWhile is_space s" and ?e = "dropWhile is_space (rev (dropWhile is_space s))"
  from False have e: "?e \<noteq> []" by (simp add: TrimSpace_def)
  then have "?d \<noteq> []" by (metis dropWhile.simps(1) rev.simps(1))
  then have "\<not> is_space (hd ?d)" by (rule hd_dropWhile)
  moreover have "last ?e = last (rev ?d)" using e by (rule last_dropWhile)
  moreover have "\<not> is_space (hd ?e)" using e by (rule hd_dropWhile)
  ultimately show ?thesis
    using e \<open>?d \<noteq> []\<close> by (simp add: trimmed_def TrimSpace_def hd_rev last_rev)
qed simp

lemma TrimSpace_idem [simp]: "TrimSpace (TrimSpace s) = TrimSpace s"
  by simp

lemma TrimSpace_eq_Nil: "TrimSpace s = [] \<longleftrightarrow> (\<forall>c \<in> set s. is_space c)"
proof -
  have "TrimSpace s = [] \<longleftrightarrow> (\<forall>c \<in> set (dropWhile is_space s). is_space c)"
    by (simp add: TrimSpace_def dropWhile_eq_Nil_conv)
  also have "\<dots> \<longleftrightarrow> (\<forall>c \<in> set s. is_space c)"
    by (induction s) auto
  finally show ?thesis .
qed

lemma TrimSpace_Cons_space [simp]: "is_space c \<Longrightarrow> TrimSpace (c # s) = TrimSpace s"
  by (simp add: TrimSpace_def)

lemma Cut_Nil_sep [simp]: "Cut [] s = Some ([], s)"
  by (cases s) auto

lemma Cut_None_single: "Cut [c] s = None \<longleftrightarrow> c \<notin> set s"
  by (induction "[c]" s rule: Cut.induct) auto

lemma Cut_single_Some: "Cut [c] s = Some (a, b) \<Longrightarrow> c \<notin> set a"
  by (induction "[c]" s arbitrary: a rule: Cut.induct) (auto split: if_splits)

lemma Cut_single_append [simp]: "c \<notin> set a \<Longrightarrow> Cut [c] (a @ c # b) = Some (a, b)"
  by (induction a) auto

lemma Contains_single [simp]: "Contains s [c] \<longleftrightarrow> c \<in> set s"
  by (simp add: Contains_def Cut_None_single)

lemma Split_nonempty [simp]: "s \<noteq> [] \<or> sep \<noteq> [] \<Longrightarrow> Split sep s \<noteq> []"
  by (subst Split.simps) (auto split: option.splits)

lemma Split_single_None: "c \<notin> set s \<Longrightarrow> Split [c] s = [s]"
  by (subst Split.simps) (simp add: Cut_None_single [THEN iffD2])

lemma Split_single_append: "c \<notin> set a \<Longrightarrow> Split [c] (a @ c # b) = a # Split [c] b"
  by (subst Split.simps) simp

lemma Join_Cons: "xs \<noteq> [] \<Longrightarrow> Join sep (x # xs) = x @ sep @ Join sep xs"
  by (cases xs) auto

lemma Join_Split: "sep \<noteq> [] \<Longrightarrow> Join sep (Split sep s) = s"
proof (induction sep s rule: Split.induct)
  case (1 sep s)
  show ?case
  proof (cases "Cut sep s")
    case None
    with "1.prems" show ?thesis by (simp add: Split.simps [of sep s])
  next
    case (Some ab)
    obtain a b where ab: "ab = (a, b)" by (cases ab)
    with "1.IH" "1.prems" Some have "Join sep (Split sep b) = b" by blast
    moreover from Some ab "1.prems" have "Split sep s = a # Split sep b"
      by (simp add: Split.simps [of sep s])
    moreover from Some ab have "s = a @ sep @ b" by (simp add: Cut_Some)
    ultimately show ?thesis using "1.prems" by (simp add: Join_Cons)
  qed
qed

lemma Split_single_pieces: "x \<in> set (Split [c] s) \<Longrightarrow> c \<notin> set x"
proof (induction "[c]" s rule: Split.induct)
  case (1 s)
  then show ?case
    by (subst (asm) (2) Split.simps)
       (auto split: option.splits simp: Cut_None_single dest: Cut_single_Some)
qed

lemma Split_pieces_set: "sep \<noteq> [] \<Longrightarrow> x \<in> set (Split sep s) \<Longrightarrow> set x \<subseteq> set s"
proof (induction sep s rule: Split.induct)
  case (1 sep s)
  then show ?case
    by (subst (asm) (2) Split.simps) (fastforce split: option.splits dest: Cut_Some)
qed

lemma Split_Join_single:
  "xs \<noteq> [] \<Longrightarrow> (\<And>x. x \<in> set xs \<Longrightarrow> c \<notin> set x) \<Longrightarrow> Split [c] (Join [c] xs) = xs"
proof (induction xs)
  case (Cons x xs)
  then show ?case
    by (cases "xs = []") (simp_all add: Split_single_None Split_single_append Join_Cons)
qed simp

lemma set_Join: "set (Join sep xs) \<subseteq> set sep \<union> (\<Union>x \<in> set xs. set x)"
  by (induction sep xs rule: Join.induct) auto

lemma Join_sublist: "x \<in> set xs \<Longrightarrow> sublist x (Join sep xs)"
proof (induction sep xs rule: Join.induct)
  case (3 sep a b zs)
  have "sublist (Join sep (b # zs)) (Join sep (a # b # zs))"
    using sublist_appendI [of "Join sep (b # zs)" "a @ sep" "[]"] by simp
  moreover have "sublist a (Join sep (a # b # zs))"
    using sublist_appendI [of a "[]" "sep @ Join sep (b # zs)"] by simp
  ultimately show ?case using 3 by (metis set_ConsD sublist_order.order.trans)
qed auto

lemma ContainsAny_iff: "ContainsAny s cs \<longleftrightarrow> set s \<inter> set cs \<noteq> {}"
  by (auto simp: ContainsAny_def list_ex_iff)

lemma set_ReplaceAll: "set (ReplaceAll s old new) \<subseteq> set s \<union> set new"
proof (induction s old new rule: ReplaceAll.induct)
  case (1 s old new)
  show ?case
  proof (cases "old = [] \<or> Cut old s = None")
    case True
    then show ?thesis by (subst ReplaceAll.simps) auto
  next
    case False
    then obtain a b where ab: "Cut old s = Some (a, b)" by auto
    with "1.IH" False have "set (ReplaceAll b old new) \<subseteq> set b \<union> set new" by auto
    with False ab Cut_Some [OF ab] show ?thesis
      by (subst ReplaceAll.simps) auto
  qed
qed

lemma ReplaceAll_no_match: "\<not> Contains s old \<Longrightarrow> ReplaceAll s old new = s"
  by (subst ReplaceAll.simps) (simp add: Contains_def split: option.splits)

lemma ReplaceAll_single: "ReplaceAll s [c] [d] = map (\<lambda>x. if x = c then d else x) s"
proof (induction "length s" arbitrary: s rule: less_induct)
  case less
  show ?case
  proof (cases "Cut [c] s")
    case None
    then have "c \<notin> set s" by (simp add: Cut_None_single)
    with None show ?thesis by (subst ReplaceAll.simps) (auto intro: map_idI [symmetric])
  next
    case (Some ab)
    obtain a b where ab: "ab = (a, b)" by (cases ab)
    from Some ab have s: "s = a @ c # b" and a: "c \<notin> set a"
      using Cut_Some [of "[c]" s a b] Cut_single_Some [of c s a b] by auto
    have "map (\<lambda>x. if x = c then d else x) a = a" using a by (auto intro: map_idI)
    moreover have "ReplaceAll b [c] [d] = map (\<lambda>x. if x = c then d else x) b"
      by (rule less) (simp add: s)
    ultimately show ?thesis using Some ab s by (subst ReplaceAll.simps) simp
  qed
qed

lemma ReplaceAll_keeps: "c \<in> set s \<Longrightarrow> c \<notin> set old \<Longrightarrow> c \<in> set (ReplaceAll s old new)"
proof (induction s old new rule: ReplaceAll.induct)
  case (1 s old new)
  show ?case
  proof (cases "old = [] \<or> Cut old s = None")
    case True
    with "1.prems" show ?thesis by (subst ReplaceAll.simps) auto
  next
    case False
    then obtain a b where ab: "Cut old s = Some (a, b)" by auto
    with "1.prems" have "c \<in> set a \<or> c \<in> set b" by (auto dest: Cut_Some)
    with "1.IH" [OF _ ab refl] "1.prems" False ab show ?thesis
      by (subst ReplaceAll.simps) auto
  qed
qed

lemma TrimSuffix_keeps: "c \<in> set s \<Longrightarrow> c \<notin> set t \<Longrightarrow> c \<in> set (TrimSuffix s t)"
  by (auto simp: TrimSuffix_def suffix_def)

lemma Cut_sublist: "Cut sep s = None \<longleftrightarrow> \<not> sublist sep s"
  by (induction sep s rule: Cut.induct) (auto simp: sublist_Cons_right)

lemma Contains_sublist: "Contains s sub \<longleftrightarrow> sublist sub s"
  by (simp add: Contains_def Cut_sublist)

lemma length_TrimRight: "length (TrimRight c s) \<le> length s"
  using length_dropWhile_le [of "\<lambda>x. x = c" "rev s"] by (simp add: TrimRight_def)

lemma TrimRight_last: "TrimRight c s \<noteq> [] \<Longrightarrow> last (TrimRight c s) \<noteq> c"
  using hd_dropWhile [of "\<lambda>x. x = c" "rev s"] by (simp add: TrimRight_def last_rev)

lemma TrimSuffix_append [simp]: "TrimSuffix (s @ t) t = s"
  by (simp add: TrimSuffix_def suffix_def)

lemma TrimSuffix_no_suffix: "\<not> suffix t s \<Longrightarrow> TrimSuffix s t = s"
  by (simp add: TrimSuffix_def)

section \<open>Lemmas on numbers\<close>

lemma digit_char_is_digit: "d < 10 \<Longrightarrow> is_digit (digit_char d)"
  by (auto simp: is_digit_def digit_char_def less_eq_char_def)

lemma digit_val_char: "d < 10 \<Longrightarrow> digit_val (digit_char d) = d"
  by (auto simp: digit_val_def digit_char_def)

lemma digits_val_snoc: "digits_val (s @ [c]) = 10 * digits_val s + digit_val c"
  by (simp add: digits_val_def)

lemma show_nat_digits: "list_all is_digit (show_nat n) \<and> show_nat n \<noteq> []"
proof (induction n rule: show_nat.induct)
  case (1 n)
  then show ?case
    by (subst (1 2) show_nat.simps) (auto simp: digit_char_is_digit)
qed

lemma digits_val_show_nat [simp]: "digits_val (show_nat n) = n"
proof (induction n rule: show_nat.induct)
  case (1 n)
  show ?case
  proof (cases "n < 10")
    case True
    then show ?thesis
      by (subst show_nat.simps) (simp add: digits_val_def digit_val_char)
  next
    case False
    with 1 have "digits_val (show_nat (n div 10)) = n div 10" by simp
    with False show ?thesis
      by (subst show_nat.simps) (simp add: digits_val_snoc digit_val_char)
  qed
qed

lemma is_digit_not_sign: "is_digit c \<Longrightarrow> c \<noteq> CHR ''-'' \<and> c \<noteq> CHR ''+''"
  by (auto simp: is_digit_def less_eq_char_def)

lemma show_nat_hd: "hd (show_nat n) \<noteq> CHR ''-'' \<and> hd (show_nat n) \<noteq> CHR ''+''"
  using show_nat_digits [of n] by (cases "show_nat n") (auto dest: is_digit_not_sign)

lemma ParseInt_show_int:
  assumes "- (2 ^ (bits - 1)) \<le> i" and "i < 2 ^ (bits - 1)"
  shows "ParseInt bits (show_int i) = Some i"
  using assms show_nat_digits [of "nat i"] show_nat_digits [of "nat (- i)"] show_nat_hd [of "nat i"]
  by (auto simp: ParseInt_def show_int_def Let_def)

lemma set_show_int: "c \<in> set (show_int i) \<Longrightarrow> is_digit c \<or> c = CHR ''-''"
  using show_nat_digits [of "nat i"] show_nat_digits [of "nat (- i)"]
  by (auto simp: show_int_def list_all_iff split: if_splits)

lemma show_nat_inject [simp]: "show_nat m = show_nat n \<longleftrightarrow> m = n"
  by (metis digits_val_show_nat)

lemma show_nat_neq_minus [simp]: "show_nat n \<noteq> CHR ''-'' # s" "CHR ''-'' # s \<noteq> show_nat n"
  using show_nat_hd [of n] by (metis list.sel(1))+

lemma show_int_inject: "show_int i = show_int j \<longleftrightarrow> i = j"
  by (auto simp: show_int_def)

lemma ParseInt_range: "ParseInt bits s = Some v \<Longrightarrow> - (2 ^ (bits - 1)) \<le> v \<and> v < 2 ^ (bits - 1)"
  by (auto simp: ParseInt_def Let_def split: if_splits)

lemma int32_id: "- (2 ^ 31) \<le> x \<Longrightarrow> x < 2 ^ 31 \<Longrightarrow> int32 x = x"
  by (simp add: int32_def)

section \<open>Order-preserving deduplication\<close>

text \<open>Keep the first occurrence of each element, dropping those already seen.\<close>

fun uniq :: "'a list \<Rightarrow> 'a list \<Rightarrow> 'a list" where
  "uniq seen [] = []"
| "uniq seen (x # xs) = (if x \<in> set seen then uniq seen xs else x # uniq (x # seen) xs)"

lemma set_uniq [simp]: "set (uniq seen xs) = set xs - set seen"
  by (induction xs arbitrary: seen) auto

lemma distinct_uniq [simp]: "distinct (uniq seen xs)"
  by (induction xs arbitrary: seen) auto

lemma uniq_cong: "set s = set s' \<Longrightarrow> uniq s xs = uniq s' xs"
proof (induction xs arbitrary: s s')
  case (Cons x xs)
  have "uniq (x # s) xs = uniq (x # s') xs" by (rule Cons.IH) (simp add: Cons.prems)
  moreover have "uniq s xs = uniq s' xs" by (rule Cons.IH) (rule Cons.prems)
  ultimately show ?case using Cons.prems by simp
qed simp

lemma uniq_id: "distinct xs \<Longrightarrow> set xs \<inter> set seen = {} \<Longrightarrow> uniq seen xs = xs"
  by (induction xs arbitrary: seen) auto

lemma uniq_append: "uniq seen (xs @ ys) = uniq seen xs @ uniq (xs @ seen) ys"
proof (induction xs arbitrary: seen)
  case (Cons x xs)
  have "uniq (xs @ x # seen) ys = uniq (x # xs @ seen) ys" by (rule uniq_cong) auto
  moreover have "x \<in> set seen \<Longrightarrow> uniq (xs @ seen) ys = uniq (x # xs @ seen) ys"
    by (rule uniq_cong) auto
  ultimately show ?case using Cons.IH [of seen] Cons.IH [of "x # seen"] by simp
qed simp

lemma subseq_uniq: "subseq (uniq seen xs) xs"
  by (induction xs arbitrary: seen) auto

text \<open>
  The contract of a loop that collects distinct tokens: \<open>tok\<close> yields the token of an
  element or nothing, and a token is appended unless a \<open>seen\<close> set has it. Half a dozen
  loops of the code have this shape.
\<close>

locale seen_loop =
  fixes loop :: "'b list \<Rightarrow> 'a list \<Rightarrow> 'b list"
    and tok :: "'a \<Rightarrow> 'b option"
  assumes loop_Nil: "loop seen [] = []"
    and loop_Cons: "loop seen (x # xs) =
      (case tok x of None \<Rightarrow> loop seen xs
       | Some t \<Rightarrow> if t \<in> set seen then loop seen xs else t # loop (t # seen) xs)"
begin

lemma loop_uniq: "loop seen xs = uniq seen (List.map_filter tok xs)"
  by (induction xs arbitrary: seen)
     (auto simp: loop_Nil loop_Cons List.map_filter_simps split: option.splits)

lemma loop_distinct: "distinct (loop seen xs)"
  by (simp add: loop_uniq)

lemma loop_set: "set (loop [] xs) = {t. \<exists>x \<in> set xs. tok x = Some t}"
  by (force simp: loop_uniq List.map_filter_def)

lemma loop_fixed: "distinct ts \<Longrightarrow> List.map_filter tok xs = ts \<Longrightarrow> loop [] xs = ts"
  by (simp add: loop_uniq uniq_id)

end

end
