(* ===== verification/Regex.thy ===== *)
theory Regex
  imports Prelude
begin

text \<open>
  What the code uses of Go's \<open>regexp\<close> package: anchored expressions built from character
  classes, concatenation, alternation, repetition and counted repetition. A match is decided
  by derivatives; \<^term>\<open>lang\<close> is the language it is proved to decide. The whole-string
  anchors \<open>^\<close> and \<open>$\<close> are implicit, as every expression the code matches has both.
\<close>

datatype rexp =
    RZero
  | ROne
  | RClass "char \<Rightarrow> bool"
  | RSeq rexp rexp
  | RAlt rexp rexp
  | RStar rexp

definition ROpt :: "rexp \<Rightarrow> rexp" where
  "ROpt r = RAlt ROne r"

definition RPlus :: "rexp \<Rightarrow> rexp" where
  "RPlus r = RSeq r (RStar r)"

text \<open>The counted repetition \<open>r{0,n}\<close>.\<close>

fun RUpTo :: "nat \<Rightarrow> rexp \<Rightarrow> rexp" where
  "RUpTo 0 r = ROne"
| "RUpTo (Suc n) r = RAlt ROne (RSeq r (RUpTo n r))"

section \<open>The matcher\<close>

fun nullable :: "rexp \<Rightarrow> bool" where
  "nullable RZero = False"
| "nullable ROne = True"
| "nullable (RClass P) = False"
| "nullable (RSeq r s) = (nullable r \<and> nullable s)"
| "nullable (RAlt r s) = (nullable r \<or> nullable s)"
| "nullable (RStar r) = True"

fun mk_seq :: "rexp \<Rightarrow> rexp \<Rightarrow> rexp" where
  "mk_seq RZero s = RZero"
| "mk_seq ROne s = s"
| "mk_seq r s = RSeq r s"

fun mk_alt :: "rexp \<Rightarrow> rexp \<Rightarrow> rexp" where
  "mk_alt RZero s = s"
| "mk_alt r RZero = r"
| "mk_alt r s = RAlt r s"

fun deriv :: "char \<Rightarrow> rexp \<Rightarrow> rexp" where
  "deriv c RZero = RZero"
| "deriv c ROne = RZero"
| "deriv c (RClass P) = (if P c then ROne else RZero)"
| "deriv c (RSeq r s) =
     (if nullable r then mk_alt (mk_seq (deriv c r) s) (deriv c s) else mk_seq (deriv c r) s)"
| "deriv c (RAlt r s) = mk_alt (deriv c r) (deriv c s)"
| "deriv c (RStar r) = mk_seq (deriv c r) (RStar r)"

fun MatchString :: "rexp \<Rightarrow> string \<Rightarrow> bool" where
  "MatchString r [] = nullable r"
| "MatchString r (c # cs) = MatchString (deriv c r) cs"

section \<open>The language\<close>

inductive_set star :: "string set \<Rightarrow> string set" for L where
  star_Nil: "[] \<in> star L"
| star_step: "u \<in> L \<Longrightarrow> v \<in> star L \<Longrightarrow> u @ v \<in> star L"

fun lang :: "rexp \<Rightarrow> string set" where
  "lang RZero = {}"
| "lang ROne = {[]}"
| "lang (RClass P) = {[c] | c. P c}"
| "lang (RSeq r s) = {u @ v | u v. u \<in> lang r \<and> v \<in> lang s}"
| "lang (RAlt r s) = lang r \<union> lang s"
| "lang (RStar r) = star (lang r)"

lemma lang_mk_seq [simp]: "lang (mk_seq r s) = lang (RSeq r s)"
  by (cases r) auto

lemma lang_mk_alt [simp]: "lang (mk_alt r s) = lang (RAlt r s)"
  by (cases "(r, s)" rule: mk_alt.cases) auto

lemma nullable_lang: "nullable r \<longleftrightarrow> [] \<in> lang r"
  by (induction r) (auto intro: star_Nil)

lemma star_Cons: "c # w \<in> star L \<longleftrightarrow> (\<exists>u v. w = u @ v \<and> c # u \<in> L \<and> v \<in> star L)"
proof
  show "c # w \<in> star L \<Longrightarrow> \<exists>u v. w = u @ v \<and> c # u \<in> L \<and> v \<in> star L"
  proof (induction "c # w" rule: star.induct)
    case (star_step u v)
    then show ?case by (cases u) auto
  qed
next
  assume "\<exists>u v. w = u @ v \<and> c # u \<in> L \<and> v \<in> star L"
  then obtain u v where "w = u @ v" "c # u \<in> L" "v \<in> star L" by blast
  then show "c # w \<in> star L" using star.star_step [of "c # u" L v] by simp
qed

lemma lang_deriv: "w \<in> lang (deriv c r) \<longleftrightarrow> c # w \<in> lang r"
proof (induction r arbitrary: w)
  case (RSeq r s)
  have "c # w \<in> lang (RSeq r s) \<longleftrightarrow>
    (\<exists>u v. w = u @ v \<and> c # u \<in> lang r \<and> v \<in> lang s) \<or> [] \<in> lang r \<and> c # w \<in> lang s"
    by (auto simp: Cons_eq_append_conv)
  then show ?case using RSeq by (auto simp: nullable_lang)
next
  case (RStar r)
  then show ?case by (auto simp: star_Cons)
qed auto

theorem MatchString_lang: "MatchString r s \<longleftrightarrow> s \<in> lang r"
  by (induction s arbitrary: r) (simp_all add: nullable_lang lang_deriv)

section \<open>Languages of the derived forms\<close>

lemma star_class: "star {[c] | c. P c} = {s. list_all P s}"
proof (intro set_eqI iffI)
  fix s assume "s \<in> star {[c] | c. P c}"
  then show "s \<in> {s. list_all P s}" by (induction rule: star.induct) auto
next
  fix s assume "s \<in> {s. list_all P s}"
  then have "list_all P s" by simp
  then show "s \<in> star {[c] | c. P c}"
  proof (induction s)
    case (Cons c s)
    then show ?case using star.star_step [of "[c]" "{[c] | c. P c}" s] by simp
  qed (simp add: star_Nil)
qed

lemma lang_class_seq:
  "w \<in> lang (RSeq (RClass P) r) \<longleftrightarrow> (\<exists>c v. w = c # v \<and> P c \<and> v \<in> lang r)"
proof -
  have "w \<in> lang (RSeq (RClass P) r) \<longleftrightarrow> (\<exists>u v. w = u @ v \<and> (\<exists>c. u = [c] \<and> P c) \<and> v \<in> lang r)"
    by simp
  also have "\<dots> \<longleftrightarrow> (\<exists>c v. w = [c] @ v \<and> P c \<and> v \<in> lang r)" by blast
  finally show ?thesis by simp
qed

lemma MatchString_plus_class:
  "MatchString (RPlus (RClass P)) s \<longleftrightarrow> s \<noteq> [] \<and> list_all P s"
proof -
  have "MatchString (RPlus (RClass P)) s \<longleftrightarrow> (\<exists>c t. s = c # t \<and> P c \<and> t \<in> star {[c] | c. P c})"
    unfolding MatchString_lang RPlus_def lang_class_seq by simp
  then show ?thesis unfolding star_class by (cases s) auto
qed

lemma lang_RUpTo_class: "s \<in> lang (RUpTo n (RClass P)) \<longleftrightarrow> list_all P s \<and> length s \<le> n"
proof (induction n arbitrary: s)
  case (Suc n)
  have "s \<in> lang (RUpTo (Suc n) (RClass P)) \<longleftrightarrow>
    s = [] \<or> s \<in> lang (RSeq (RClass P) (RUpTo n (RClass P)))" by simp
  also have "\<dots> \<longleftrightarrow> list_all P s \<and> length s \<le> Suc n"
    unfolding lang_class_seq Suc by (cases s) auto
  finally show ?case .
qed auto

end
