(* ===== verification/Kube.thy ===== *)
theory Kube
  imports Prelude
begin

text \<open>
  The Kubernetes and Gateway API resources the operator reads and writes, restricted to the
  fields its code mentions. A \<open>struct\<close> is a \<^theory_text>\<open>record\<close>, an optional pointer
  field an option, and a field of an embedded struct keeps its own record. Field names carry a
  prefix because Isabelle's record selectors share one name space.
\<close>

section \<open>Metadata\<close>

record owner_ref =
  or_apiVersion :: string
  or_kind :: string
  or_name :: string
  or_uid :: string
  or_controller :: bool
  or_blockOwnerDeletion :: bool

record object_meta =
  m_name :: string
  m_namespace :: string
  m_annotations :: "string gomap"
  m_labels :: "string gomap"
  m_finalizers :: "string list"
  m_owners :: "owner_ref list"
  m_uid :: string
  m_resourceVersion :: string
  m_creation :: int
  m_deletion :: "int option"

definition empty_meta :: object_meta where
  "empty_meta = \<lparr>m_name = [], m_namespace = [], m_annotations = [], m_labels = [],
     m_finalizers = [], m_owners = [], m_uid = [], m_resourceVersion = [],
     m_creation = 0, m_deletion = None\<rparr>"

section \<open>Ingress\<close>

record service_port =
  sp_name :: string
  sp_number :: int

record ingress_service =
  is_name :: string
  is_port :: service_port

datatype path_type = PathTypeExact | PathTypePrefix | PathTypeImplementationSpecific

record ingress_path =
  ip_path :: string
  ip_pathType :: "path_type option"
  ip_service :: "ingress_service option"

record ingress_rule =
  ir_host :: string
  ir_http :: "ingress_path list option"

record ingress_tls =
  tls_hosts :: "string list"
  tls_secretName :: string

record ingress =
  i_apiVersion :: string
  i_kind :: string
  i_meta :: object_meta
  i_ingressClassName :: "string option"
  i_rules :: "ingress_rule list"
  i_tls :: "ingress_tls list"
  i_loadBalancer :: "string list"

abbreviation i_name :: "ingress \<Rightarrow> string" where
  "i_name i \<equiv> m_name (i_meta i)"

abbreviation i_namespace :: "ingress \<Rightarrow> string" where
  "i_namespace i \<equiv> m_namespace (i_meta i)"

abbreviation i_annotations :: "ingress \<Rightarrow> string gomap" where
  "i_annotations i \<equiv> m_annotations (i_meta i)"

section \<open>HTTPRoute\<close>

datatype path_match_type = PathMatchExact | PathMatchPathPrefix

datatype header_match_type = HeaderMatchExact | HeaderMatchRegularExpression

record http_header_match =
  hm_type :: header_match_type
  hm_name :: string
  hm_value :: string

record http_route_match =
  rm_path :: "(path_match_type \<times> string) option"
  rm_headers :: "http_header_match list"

definition empty_match :: http_route_match where
  "empty_match = \<lparr>rm_path = None, rm_headers = []\<rparr>"

record http_header =
  h_name :: string
  h_value :: string

record http_header_filter =
  hf_add :: "http_header list"
  hf_set :: "http_header list"
  hf_remove :: "string list"

record local_ref =
  lr_group :: string
  lr_kind :: string
  lr_name :: string

text \<open>
  A route filter is a struct tagged by its type. The two header modifiers and the extension
  reference are the types the code builds; \<open>OtherFilter\<close> stands for the rest. An
  \<open>ExtensionRef\<close> filter whose pointer is \<open>nil\<close> carries \<^const>\<open>None\<close>.
\<close>

datatype http_route_filter =
    RequestHeaderModifier http_header_filter
  | ResponseHeaderModifier http_header_filter
  | ExtensionRefFilter "local_ref option"
  | OtherFilter string

record http_backend_ref =
  br_name :: string
  br_port :: "int option"
  br_weight :: "int option"

record http_route_rule =
  rr_matches :: "http_route_match list"
  rr_filters :: "http_route_filter list"
  rr_backendRefs :: "http_backend_ref list"

record parent_ref =
  pr_name :: string
  pr_namespace :: "string option"
  pr_sectionName :: "string option"

record http_route =
  hr_meta :: object_meta
  hr_hostnames :: "string list"
  hr_parentRefs :: "parent_ref list"
  hr_rules :: "http_route_rule list"

abbreviation hr_name :: "http_route \<Rightarrow> string" where
  "hr_name r \<equiv> m_name (hr_meta r)"

abbreviation hr_namespace :: "http_route \<Rightarrow> string" where
  "hr_namespace r \<equiv> m_namespace (hr_meta r)"

abbreviation hr_annotations :: "http_route \<Rightarrow> string gomap" where
  "hr_annotations r \<equiv> m_annotations (hr_meta r)"

section \<open>Gateway\<close>

record selector_requirement =
  sr_key :: string
  sr_operator :: string
  sr_values :: "string list"

text \<open>\<open>MatchLabels\<close> keeps the difference between the \<open>nil\<close> map and an empty one.\<close>

record label_selector =
  ls_matchLabels :: "string gomap option"
  ls_matchExpressions :: "selector_requirement list"

record route_namespaces =
  rn_from :: "string option"
  rn_selector :: "label_selector option"

record secret_ref =
  sec_name :: string
  sec_namespace :: "string option"

record listener_tls =
  lt_mode :: "string option"
  lt_certificateRefs :: "secret_ref list"

text \<open>\<open>l_allowedRoutes\<close> is \<open>AllowedRoutes.Namespaces\<close>, two pointers deep.\<close>

record listener =
  l_name :: string
  l_hostname :: "string option"
  l_port :: int
  l_protocol :: string
  l_tls :: "listener_tls option"
  l_allowedRoutes :: "route_namespaces option option"

text \<open>\<open>gw_infrastructure\<close> is the annotation map of \<open>Spec.Infrastructure\<close>.\<close>

record gateway =
  gw_meta :: object_meta
  gw_className :: string
  gw_infrastructure :: "string gomap option"
  gw_listeners :: "listener list"

abbreviation gw_annotations :: "gateway \<Rightarrow> string gomap" where
  "gw_annotations g \<equiv> m_annotations (gw_meta g)"

section \<open>Other resources\<close>

record grant_from =
  gf_group :: string
  gf_kind :: string
  gf_namespace :: string

record grant_to =
  gt_group :: string
  gt_kind :: string

record reference_grant =
  rg_meta :: object_meta
  rg_from :: "grant_from list"
  rg_to :: "grant_to list"

record service =
  svc_meta :: object_meta
  svc_ports :: "service_port list"

record config_map =
  cm_meta :: object_meta
  cm_data :: "string gomap"

record crd_version =
  cv_name :: string
  cv_served :: bool
  cv_storage :: bool

record crd =
  crd_name :: string
  crd_versions :: "crd_version list"

record ingress_class =
  ic_name :: string
  ic_controller :: string

text \<open>
  An unstructured object of the \<open>gateway.nginx.org\<close> group: its kind and version, its
  metadata, and its \<open>spec\<close> as JSON.
\<close>

datatype json = JNull | JString string | JList "json list" | JObject "(string \<times> json) list"

record unstructured =
  u_version :: string
  u_kind :: string
  u_meta :: object_meta
  u_spec :: "json option"

section \<open>An example\<close>

text \<open>The Ingress of the examples: one host, one path, one certificate.\<close>

definition example_ingress :: ingress where
  "example_ingress = \<lparr>i_apiVersion = ''networking.k8s.io/v1'', i_kind = ''Ingress'',
     i_meta = empty_meta\<lparr>m_name := ''prod'', m_namespace := ''shop''\<rparr>,
     i_ingressClassName = Some ''nginx'',
     i_rules = [\<lparr>ir_host = ''app.domain.cc'',
       ir_http = Some [\<lparr>ip_path = ''/'', ip_pathType = Some PathTypePrefix,
         ip_service = Some \<lparr>is_name = ''prod'', is_port = \<lparr>sp_name = [], sp_number = 80\<rparr>\<rparr>\<rparr>]\<rparr>],
     i_tls = [\<lparr>tls_hosts = [''app.domain.cc''], tls_secretName = ''app-tls''\<rparr>], i_loadBalancer = []\<rparr>"

end
