(* ===== verification/Hostnames.thy ===== *)
theory Hostnames
  imports Regex Kube
begin

text \<open>
  The configuration of the translator (\<open>translator.Config\<close>) and what
  \<open>internal/translator/translator.go\<close> does with hostnames: validation, suffix rewriting,
  the check of a certificate against a rewritten name, and the names of generated secrets,
  with the controller's own copy of the last one.
\<close>

section \<open>Configuration\<close>

record ingress_class_annotations_rule =
  car_pattern :: string
  car_annotations :: "string gomap"

record translator_config =
  GatewayNamespace :: string
  GatewayName :: string
  GatewayClassName :: string
  HostnameRewriteFrom :: string
  HostnameRewriteTo :: string
  DefaultGatewayAnnotations :: "string gomap"
  GatewayInfrastructureAnnotations :: "string gomap"
  InfrastructureAnnotationsByClass :: "ingress_class_annotations_rule list"
  GatewayAnnotationFilters :: "string list"
  HTTPRouteAnnotationFilters :: "string list"
  UseIngress2Gateway :: bool
  Ingress2GatewayProvider :: string
  Ingress2GatewayIngressClass :: string

definition empty_config :: translator_config where
  "empty_config = \<lparr>GatewayNamespace = [], GatewayName = [], GatewayClassName = [],
     HostnameRewriteFrom = [], HostnameRewriteTo = [], DefaultGatewayAnnotations = [],
     GatewayInfrastructureAnnotations = [], InfrastructureAnnotationsByClass = [],
     GatewayAnnotationFilters = [], HTTPRouteAnnotationFilters = [],
     UseIngress2Gateway = False, Ingress2GatewayProvider = [], Ingress2GatewayIngressClass = []\<rparr>"

definition MaxK8sNameLength :: nat where
  "MaxK8sNameLength = 253"

section \<open>Validation and rewriting\<close>

definition hostname_label :: rexp where
  "hostname_label =
     RSeq (RClass is_alnum)
       (ROpt (RSeq (RUpTo 61 (RClass (\<lambda>c. is_alnum c \<or> c = CHR ''-''))) (RClass is_alnum)))"

definition hostname_pattern :: rexp where
  "hostname_pattern =
     RSeq (RStar (RSeq hostname_label (RClass (\<lambda>c. c = CHR ''.'')))) hostname_label"

definition isValidHostname :: "string \<Rightarrow> bool" where
  "isValidHostname hostname = MatchString hostname_pattern hostname"

text \<open>The body of the loop once the suffix matches: the candidate for the new hostname.\<close>

definition rewrite_host :: "string \<Rightarrow> string \<Rightarrow> string \<Rightarrow> string" where
  "rewrite_host hostname from to =
     (let pre = TrimSuffix (TrimSuffix hostname from) ''.'';
          newHost = (if pre \<noteq> [] then pre @ ''.'' @ to else to)
      in TrimSuffix (ReplaceAll newHost ''..'' ''.'') ''.'')"

fun transform_loop :: "string \<Rightarrow> (string \<times> string) list \<Rightarrow> string" where
  "transform_loop hostname [] = hostname"
| "transform_loop hostname ((fromPart, toPart) # parts) =
     (let from = TrimSpace fromPart; to = TrimSpace toPart
      in if from = [] \<or> to = [] then transform_loop hostname parts
         else if HasSuffix hostname from
         then (if isValidHostname (rewrite_host hostname from to)
               then rewrite_host hostname from to
               else transform_loop hostname parts)
         else transform_loop hostname parts)"

definition TransformHostname :: "translator_config \<Rightarrow> string \<Rightarrow> string" where
  "TransformHostname cfg hostname =
     (let fromList = HostnameRewriteFrom cfg; toList = HostnameRewriteTo cfg
      in if fromList = [] \<or> toList = [] then hostname
         else let fromParts = Split '','' fromList; toParts = Split '','' toList
              in if length fromParts \<noteq> length toParts then hostname
                 else transform_loop hostname (zip fromParts toParts))"

section \<open>Certificates and secret names\<close>

fun cert_loop :: "string \<Rightarrow> string list \<Rightarrow> bool" where
  "cert_loop transformedHostname [] = False"
| "cert_loop transformedHostname (host # hosts) =
     (if host = transformedHostname then True
      else if HasPrefix host ''*.'' \<and> HasSuffix transformedHostname (drop 2 host) then True
      else cert_loop transformedHostname hosts)"

definition CheckCertificateMatch :: "string \<Rightarrow> string \<Rightarrow> string list \<Rightarrow> bool" where
  "CheckCertificateMatch originalHostname transformedHostname tlsHosts =
     (if originalHostname = transformedHostname then True
      else cert_loop transformedHostname tlsHosts)"

text \<open>\<open>fmt.Sprintf("automatic-%s-%s-tls", a, b)\<close>.\<close>

definition automatic_name :: "string \<Rightarrow> string \<Rightarrow> string" where
  "automatic_name a b = ''automatic-'' @ a @ ''-'' @ b @ ''-tls''"

definition generateSafeSecretName :: "string \<Rightarrow> string \<Rightarrow> string" where
  "generateSafeSecretName namespace hostname =
     (let safeName = ToLower (automatic_name namespace (ReplaceAll hostname ''.'' ''-''))
      in if length safeName > MaxK8sNameLength
         then TrimRight (CHR ''-'') (take MaxK8sNameLength safeName)
         else safeName)"

text \<open>The function of the same name in \<open>internal/controller/httproute_controller.go\<close>.\<close>

definition controller_generateSafeSecretName :: "string \<Rightarrow> string \<Rightarrow> string" where
  "controller_generateSafeSecretName namespace hostname =
     (let ns = ReplaceAll namespace ''.'' ''-'';
          safeName = automatic_name ns (ReplaceAll hostname ''.'' ''-'')
      in if length safeName \<le> MaxK8sNameLength then safeName
         else let excess = length safeName - MaxK8sNameLength
              in if excess \<ge> length hostname then take MaxK8sNameLength safeName
                 else let shortHost = TrimRight (CHR ''-'') (take (length hostname - excess) hostname);
                          safeName' = automatic_name ns (ReplaceAll shortHost ''.'' ''-'')
                      in if length safeName' > MaxK8sNameLength then take MaxK8sNameLength safeName'
                         else safeName')"

section \<open>Lemmas\<close>

definition is_label :: "string \<Rightarrow> bool" where
  "is_label l \<longleftrightarrow> l \<noteq> [] \<and> length l \<le> 63 \<and> list_all (\<lambda>c. is_alnum c \<or> c = CHR ''-'') l \<and>
     is_alnum (hd l) \<and> is_alnum (last l)"

lemma lang_RSeq: "lang (RSeq r s) = {u @ v | u v. u \<in> lang r \<and> v \<in> lang s}"
  by simp

lemma lang_label_tail:
  "s \<in> lang (RSeq (RUpTo n (RClass P)) (RClass Q)) \<longleftrightarrow>
     s \<noteq> [] \<and> list_all P (butlast s) \<and> length s \<le> Suc n \<and> Q (last s)"
proof
  assume "s \<in> lang (RSeq (RUpTo n (RClass P)) (RClass Q))"
  then obtain u c where "s = u @ [c]" "u \<in> lang (RUpTo n (RClass P))" "Q c" by auto
  then show "s \<noteq> [] \<and> list_all P (butlast s) \<and> length s \<le> Suc n \<and> Q (last s)"
    by (simp add: lang_RUpTo_class)
next
  assume s: "s \<noteq> [] \<and> list_all P (butlast s) \<and> length s \<le> Suc n \<and> Q (last s)"
  then have "butlast s \<in> lang (RUpTo n (RClass P))" by (auto simp: lang_RUpTo_class)
  moreover have "[last s] \<in> lang (RClass Q)" using s by simp
  moreover have "s = butlast s @ [last s]" using s by simp
  ultimately show "s \<in> lang (RSeq (RUpTo n (RClass P)) (RClass Q))"
    unfolding lang_RSeq by blast
qed

lemma list_all_last: "s \<noteq> [] \<Longrightarrow> list_all P s \<longleftrightarrow> list_all P (butlast s) \<and> P (last s)"
  by (induction s) auto

lemma lang_label: "s \<in> lang hostname_label \<longleftrightarrow> is_label s"
proof (cases s)
  case Nil
  then show ?thesis by (simp add: hostname_label_def is_label_def)
next
  case (Cons c t)
  have "s \<in> lang hostname_label \<longleftrightarrow> is_alnum c \<and>
    (t = [] \<or> t \<noteq> [] \<and> list_all (\<lambda>c. is_alnum c \<or> c = CHR ''-'') (butlast t) \<and>
      length t \<le> 62 \<and> is_alnum (last t))"
    unfolding hostname_label_def lang_class_seq ROpt_def lang.simps(5) Un_iff lang_label_tail
    using Cons by auto
  then show ?thesis
    using Cons list_all_last [of t "\<lambda>c. is_alnum c \<or> c = CHR ''-''"]
    by (auto simp: is_label_def)
qed

lemma label_no_dot: "is_label l \<Longrightarrow> CHR ''.'' \<notin> set l"
proof -
  have "\<not> is_alnum (CHR ''.'')"
    by (simp add: is_alnum_def is_lower_def is_upper_def is_digit_def less_eq_char_def)
  then show "is_label l \<Longrightarrow> CHR ''.'' \<notin> set l" by (auto simp: is_label_def list_all_iff)
qed

lemma star_dotted:
  "s \<in> star {l @ ''.'' | l. is_label l} \<longleftrightarrow>
     (\<exists>ls. list_all is_label ls \<and> s = concat (map (\<lambda>l. l @ ''.'') ls))"
proof
  show "s \<in> star {l @ ''.'' | l. is_label l} \<Longrightarrow>
    \<exists>ls. list_all is_label ls \<and> s = concat (map (\<lambda>l. l @ ''.'') ls)"
  proof (induction rule: star.induct)
    case star_Nil
    then show ?case by (intro exI [of _ "[]"]) simp
  next
    case (star_step u v)
    then obtain l ls where "is_label l" "u = l @ ''.''" "list_all is_label ls"
      "v = concat (map (\<lambda>l. l @ ''.'') ls)" by auto
    then show ?case by (intro exI [of _ "l # ls"]) simp
  qed
next
  have "concat (map (\<lambda>l. l @ ''.'') ls) \<in> star {l @ ''.'' | l. is_label l}"
    if "list_all is_label ls" for ls
    using that
  proof (induction ls)
    case (Cons l ls)
    then have "l @ ''.'' \<in> {l @ ''.'' | l. is_label l}" by auto
    from star.star_step [OF this] Cons show ?case by simp
  qed (simp add: star_Nil)
  then show "\<exists>ls. list_all is_label ls \<and> s = concat (map (\<lambda>l. l @ ''.'') ls) \<Longrightarrow>
    s \<in> star {l @ ''.'' | l. is_label l}" by blast
qed

lemma Join_snoc_dotted: "Join sep (ls @ [l]) = concat (map (\<lambda>x. x @ sep) ls) @ l"
  by (induction ls) (auto simp: Join_Cons)

lemma lang_dotted_label:
  "lang (RSeq hostname_label (RClass (\<lambda>c. c = CHR ''.''))) = {l @ ''.'' | l. is_label l}"
  by (auto simp: lang_label)

lemma valid_hostname_Join: "isValidHostname h \<longleftrightarrow> (\<exists>ls. ls \<noteq> [] \<and> list_all is_label ls \<and> h = Join ''.'' ls)"
proof -
  have "isValidHostname h \<longleftrightarrow> (\<exists>u v. h = u @ v \<and> u \<in> star {l @ ''.'' | l. is_label l} \<and> is_label v)"
    unfolding isValidHostname_def MatchString_lang hostname_pattern_def lang_RSeq [of "RStar _"]
      lang.simps(6) lang_dotted_label mem_Collect_eq lang_label ..
  also have "\<dots> \<longleftrightarrow> (\<exists>ls l. list_all is_label (ls @ [l]) \<and> h = Join ''.'' (ls @ [l]))"
    unfolding star_dotted Join_snoc_dotted by auto
  also have "\<dots> \<longleftrightarrow> (\<exists>ls. ls \<noteq> [] \<and> list_all is_label ls \<and> h = Join ''.'' ls)"
    by (metis append_butlast_last_id snoc_eq_iff_butlast)
  finally show ?thesis .
qed

lemma valid_hostname_iff: "isValidHostname h \<longleftrightarrow> list_all is_label (Split ''.'' h)"
proof
  assume "isValidHostname h"
  then obtain ls where ls: "ls \<noteq> []" "list_all is_label ls" "h = Join ''.'' ls"
    by (auto simp: valid_hostname_Join)
  have "Split ''.'' h = ls"
    unfolding ls(3) by (rule Split_Join_single) (use ls in \<open>auto simp: list_all_iff label_no_dot\<close>)
  with ls(2) show "list_all is_label (Split ''.'' h)" by simp
next
  assume "list_all is_label (Split ''.'' h)"
  moreover have "Split ''.'' h \<noteq> []" "Join ''.'' (Split ''.'' h) = h" by (simp_all add: Join_Split)
  ultimately show "isValidHostname h" unfolding valid_hostname_Join by metis
qed

lemma transform_loop_cases:
  "transform_loop h parts = h \<or>
   isValidHostname (transform_loop h parts) \<and>
   (\<exists>f t. (f, t) \<in> set parts \<and> HasSuffix h (TrimSpace f) \<and>
      transform_loop h parts = rewrite_host h (TrimSpace f) (TrimSpace t))"
proof (induction parts)
  case (Cons p parts)
  obtain f t where p: "p = (f, t)" by (cases p)
  let ?r = "rewrite_host h (TrimSpace f) (TrimSpace t)"
  have "transform_loop h (p # parts) = transform_loop h parts \<or>
    HasSuffix h (TrimSpace f) \<and> isValidHostname ?r \<and> transform_loop h (p # parts) = ?r"
    by (simp add: p Let_def)
  with Cons.IH show ?case by (metis list.set_intros p)
qed simp

lemma transform_loop_all_invalid:
  assumes "\<And>f t. (f, t) \<in> set parts \<Longrightarrow> HasSuffix h (TrimSpace f) \<Longrightarrow>
    \<not> isValidHostname (rewrite_host h (TrimSpace f) (TrimSpace t))"
  shows "transform_loop h parts = h"
  using assms by (induction h parts rule: transform_loop.induct) (auto simp: Let_def)

lemma valid_hostname_append:
  "isValidHostname (a @ ''.'' @ b) \<longleftrightarrow> isValidHostname a \<and> isValidHostname b"
proof -
  have "Split ''.'' (a @ CHR ''.'' # b) = Split ''.'' a @ Split ''.'' b"
  proof (induction "length a" arbitrary: a rule: less_induct)
    case less
    show ?case
    proof (cases "Cut ''.'' a")
      case None
      then show ?thesis by (simp add: Cut_None_single Split_single_append Split_single_None)
    next
      case (Some uv)
      then obtain u v where uv: "uv = (u, v)" by (cases uv)
      with Some have a: "a = u @ CHR ''.'' # v" and u: "CHR ''.'' \<notin> set u"
        using Cut_Some [of "''.''" a u v] Cut_single_Some [of "CHR ''.''" a u v] by auto
      then have "Split ''.'' (v @ CHR ''.'' # b) = Split ''.'' v @ Split ''.'' b"
        using less [of v] by simp
      with a u show ?thesis by (simp add: Split_single_append)
    qed
  qed
  then show ?thesis by (simp add: valid_hostname_iff)
qed

lemma not_label_Nil [simp]: "\<not> is_label []"
  by (simp add: is_label_def)

lemma valid_hostname_Nil [simp]: "\<not> isValidHostname []"
  by (simp add: valid_hostname_iff Split_single_None)

lemma valid_no_double_dot: "isValidHostname h \<Longrightarrow> \<not> Contains h ''..''"
proof
  assume v: "isValidHostname h" and "Contains h ''..''"
  then obtain a b where "h = a @ ''..'' @ b" by (auto simp: Contains_sublist sublist_def)
  then have h: "h = a @ ''.'' @ (CHR ''.'' # b)" by simp
  from v have "isValidHostname (CHR ''.'' # b)" unfolding h valid_hostname_append by blast
  then show False using valid_hostname_append [of "[]" b] by simp
qed

lemma valid_no_trailing_dot: "isValidHostname h \<Longrightarrow> \<not> HasSuffix h ''.''"
  using valid_hostname_append [of _ "[]"] by (auto simp: suffix_def)

lemma rewrite_host_sub:
  assumes "isValidHostname p" and "isValidHostname to"
  shows "rewrite_host (p @ ''.'' @ from) from to = p @ ''.'' @ to"
proof -
  have v: "isValidHostname (p @ ''.'' @ to)" using assms by (simp only: valid_hostname_append)
  have "p \<noteq> []" using assms(1) by auto
  have "TrimSuffix (TrimSuffix (p @ ''.'' @ from) from) ''.'' = p"
    using TrimSuffix_append [of "p @ ''.''" "from"] by simp
  moreover have "TrimSuffix (ReplaceAll (p @ ''.'' @ to) ''..'' ''.'') ''.'' = p @ ''.'' @ to"
    using v by (simp only: ReplaceAll_no_match valid_no_double_dot TrimSuffix_no_suffix
        valid_no_trailing_dot not_False_eq_True)
  ultimately show ?thesis using \<open>p \<noteq> []\<close> by (simp add: rewrite_host_def Let_def)
qed

lemma valid_hostname_chars: "isValidHostname h \<Longrightarrow> c \<in> set h \<Longrightarrow> is_alnum c \<or> c = CHR ''-'' \<or> c = CHR ''.''"
proof -
  assume "isValidHostname h" and c: "c \<in> set h"
  then have ls: "list_all is_label (Split ''.'' h)" by (simp add: valid_hostname_iff)
  have "set h \<subseteq> set ''.'' \<union> (\<Union>l \<in> set (Split ''.'' h). set l)"
    using set_Join [of "''.''" "Split ''.'' h"] by (simp add: Join_Split)
  with c ls show ?thesis by (fastforce simp: list_all_iff is_label_def)
qed

lemma star_not_valid: "CHR ''*'' \<in> set h \<Longrightarrow> \<not> isValidHostname h"
  using valid_hostname_chars [of h "CHR ''*''"]
  by (auto simp: is_alnum_def is_lower_def is_upper_def is_digit_def less_eq_char_def)

lemma rewrite_host_star:
  assumes "HasSuffix (CHR ''*'' # d) from" and "from \<noteq> CHR ''*'' # d"
  shows "CHR ''*'' \<in> set (rewrite_host (CHR ''*'' # d) from to)"
proof -
  obtain q where q: "CHR ''*'' # d = q @ from" using assms(1) by (auto simp: suffix_def)
  with assms(2) have "q \<noteq> []" by auto
  with q have "CHR ''*'' \<in> set q" by (cases q) auto
  then have "CHR ''*'' \<in> set (TrimSuffix q ''.'')" by (rule TrimSuffix_keeps) simp
  moreover from this have "TrimSuffix q ''.'' \<noteq> []" by auto
  ultimately show ?thesis unfolding rewrite_host_def Let_def q TrimSuffix_append
    by (auto intro!: TrimSuffix_keeps ReplaceAll_keeps)
qed

lemma cert_loop_iff:
  "cert_loop h hosts \<longleftrightarrow> h \<in> set hosts \<or> (\<exists>d. ''*.'' @ d \<in> set hosts \<and> HasSuffix h d)"
proof (induction h hosts rule: cert_loop.induct)
  case (2 h host hosts)
  have "HasPrefix host ''*.'' \<and> HasSuffix h (drop 2 host) \<longleftrightarrow> (\<exists>d. host = ''*.'' @ d \<and> HasSuffix h d)"
    by (auto simp: prefix_def)
  then show ?case using 2 by auto
qed simp

lemma automatic_name_length: "length (automatic_name a b) = length a + length b + 15"
  by (simp add: automatic_name_def)

lemma length_lower [simp]: "length (ToLower s) = length s"
  by (simp add: ToLower_def)

lemma length_ReplaceAll_single [simp]: "length (ReplaceAll s [c] [d]) = length s"
  by (simp add: ReplaceAll_single)

lemma lower_append: "ToLower (a @ b) = ToLower a @ ToLower b"
  by (simp add: ToLower_def)

lemma lower_automatic: "ToLower (automatic_name a b) = automatic_name (ToLower a) (ToLower b)"
proof -
  have "ToLower ''automatic-'' = ''automatic-''" "ToLower ''-'' = ''-''" "ToLower ''-tls'' = ''-tls''"
    by code_simp+
  then show ?thesis by (simp only: automatic_name_def lower_append)
qed

lemma lower_ReplaceAll_dot:
  "ToLower h = h \<Longrightarrow> ToLower (ReplaceAll h ''.'' ''-'') = ReplaceAll h ''.'' ''-''"
proof (induction h)
  case (Cons c h)
  moreover have "lower_char (CHR ''-'') = CHR ''-''" by code_simp
  ultimately show ?case by (simp add: ReplaceAll_single ToLower_def)
qed (simp add: ReplaceAll_single ToLower_def)

lemma valid_no_comma: "isValidHostname h \<Longrightarrow> CHR '','' \<notin> set h"
  using valid_hostname_chars [of h "CHR '',''"]
  by (auto simp: is_alnum_def is_lower_def is_upper_def is_digit_def less_eq_char_def)

lemma valid_trimmed: "isValidHostname h \<Longrightarrow> TrimSpace h = h"
proof -
  assume v: "isValidHostname h"
  have "\<not> is_space c" if "c \<in> set h" for c
    using valid_hostname_chars [OF v that]
    by (auto simp: is_space_def is_alnum_def is_lower_def is_upper_def is_digit_def less_eq_char_def)
  then have "trimmed h" by (cases "h = []") (auto simp: trimmed_def)
  then show ?thesis by simp
qed

lemma TransformHostname_one_rule:
  assumes "HostnameRewriteFrom cfg = src" "HostnameRewriteTo cfg = dst"
    and "isValidHostname src" "isValidHostname dst"
  shows "TransformHostname cfg h = (if HasSuffix h src \<and> isValidHostname (rewrite_host h src dst)
      then rewrite_host h src dst else h)"
proof -
  have "src \<noteq> []" "dst \<noteq> []" using assms(3,4) by auto
  then show ?thesis
    using assms by (simp add: TransformHostname_def Let_def Split_single_None valid_no_comma valid_trimmed)
qed

lemma rewrite_host_self: "isValidHostname dst \<Longrightarrow> rewrite_host src src dst = dst"
proof -
  assume v: "isValidHostname dst"
  have "TrimSuffix (TrimSuffix src src) ''.'' = []"
    using TrimSuffix_append [of "[]" src] by (simp add: TrimSuffix_def)
  moreover have "TrimSuffix (ReplaceAll dst ''..'' ''.'') ''.'' = dst"
    using v by (simp only: ReplaceAll_no_match valid_no_double_dot TrimSuffix_no_suffix
        valid_no_trailing_dot not_False_eq_True)
  ultimately show ?thesis by (simp add: rewrite_host_def Let_def)
qed

section \<open>Properties\<close>

text \<open>
  C31. The regular expression of \<open>isValidHostname\<close> accepts exactly the names whose
  dot-separated labels all have 1 to 63 letters, digits and hyphens, with a letter or digit at
  both ends.
\<close>

theorem isValidHostname_labels:
  "isValidHostname hostname \<longleftrightarrow> list_all is_label (Split ''.'' hostname)"
  by (rule valid_hostname_iff)

text \<open>
  C20. Rewriting never invents an invalid hostname: whatever the two rewrite lists hold, the
  result is the original name, or a valid name that the first applicable rule produces.
\<close>

theorem TransformHostname_safe:
  "TransformHostname cfg h = h \<or>
   isValidHostname (TransformHostname cfg h) \<and>
   (\<exists>f t. (f, t) \<in> set (zip (Split '','' (HostnameRewriteFrom cfg)) (Split '','' (HostnameRewriteTo cfg))) \<and>
      HasSuffix h (TrimSpace f) \<and>
      TransformHostname cfg h = rewrite_host h (TrimSpace f) (TrimSpace t))"
proof (cases "TransformHostname cfg h = h")
  case False
  then have t: "TransformHostname cfg h =
    transform_loop h (zip (Split '','' (HostnameRewriteFrom cfg)) (Split '','' (HostnameRewriteTo cfg)))"
    by (auto simp: TransformHostname_def Let_def split: if_splits)
  show ?thesis unfolding t by (rule transform_loop_cases)
qed simp

text \<open>
  With one rule, every valid subdomain of the source suffix moves under the target suffix,
  the source suffix itself becomes the target, and any name without that suffix is kept.
\<close>

theorem TransformHostname_single_rule:
  assumes cfg: "HostnameRewriteFrom cfg = src" "HostnameRewriteTo cfg = dst"
    and valid: "isValidHostname src" "isValidHostname dst"
  shows "(\<forall>p. isValidHostname p \<longrightarrow> TransformHostname cfg (p @ ''.'' @ src) = p @ ''.'' @ dst) \<and>
    TransformHostname cfg src = dst \<and>
    (\<forall>h. \<not> HasSuffix h src \<longrightarrow> TransformHostname cfg h = h)"
proof -
  have t: "TransformHostname cfg h = (if HasSuffix h src \<and> isValidHostname (rewrite_host h src dst)
      then rewrite_host h src dst else h)" for h
    using TransformHostname_one_rule [OF cfg valid] .
  have "TransformHostname cfg (p @ ''.'' @ src) = p @ ''.'' @ dst" if "isValidHostname p" for p
    using that valid rewrite_host_sub [OF that valid(2), of src] unfolding t
    by (simp add: valid_hostname_append [simplified] suffix_def)
  moreover have "TransformHostname cfg src = dst"
    using valid rewrite_host_self unfolding t by simp
  ultimately show ?thesis by (simp add: t)
qed

theorem TransformHostname_single_rule_witness:
  "TransformHostname (empty_config\<lparr>HostnameRewriteFrom := ''domain.cc'',
      HostnameRewriteTo := ''migration.domain.cc''\<rparr>) ''api.service.domain.cc''
    = ''api.service.migration.domain.cc''"
proof -
  let ?cfg = "empty_config\<lparr>HostnameRewriteFrom := ''domain.cc'', HostnameRewriteTo := ''migration.domain.cc''\<rparr>"
  have v: "isValidHostname ''domain.cc''" "isValidHostname ''migration.domain.cc''"
    "isValidHostname ''api.service''"
    unfolding valid_hostname_iff by code_simp+
  have "HostnameRewriteFrom ?cfg = ''domain.cc''" "HostnameRewriteTo ?cfg = ''migration.domain.cc''"
    by simp_all
  from TransformHostname_single_rule [OF this v(1,2)] v(3)
  have "TransformHostname ?cfg (''api.service'' @ ''.'' @ ''domain.cc'') =
      ''api.service'' @ ''.'' @ ''migration.domain.cc''" by blast
  then show ?thesis by simp
qed

text \<open>
  A wildcard hostname is never rewritten unless a rule names it in full: the candidate
  still contains the star, which the validation refuses.
\<close>

theorem TransformHostname_wildcard_kept:
  assumes "CHR ''*'' # d \<notin> TrimSpace ` set (Split '','' (HostnameRewriteFrom cfg))"
  shows "TransformHostname cfg (CHR ''*'' # d) = CHR ''*'' # d"
proof -
  have "transform_loop (CHR ''*'' # d)
      (zip (Split '','' (HostnameRewriteFrom cfg)) (Split '','' (HostnameRewriteTo cfg))) = CHR ''*'' # d"
  proof (rule transform_loop_all_invalid)
    fix f t assume "(f, t) \<in> set (zip (Split '','' (HostnameRewriteFrom cfg)) (Split '','' (HostnameRewriteTo cfg)))"
      and suf: "HasSuffix (CHR ''*'' # d) (TrimSpace f)"
    then have "TrimSpace f \<noteq> CHR ''*'' # d" using assms by (metis imageI set_zip_leftD)
    with suf show "\<not> isValidHostname (rewrite_host (CHR ''*'' # d) (TrimSpace f) (TrimSpace t))"
      by (intro star_not_valid rewrite_host_star)
  qed
  then show ?thesis by (simp add: TransformHostname_def Let_def)
qed

theorem TransformHostname_wildcard_kept_witness:
  "TransformHostname (empty_config\<lparr>HostnameRewriteFrom := ''domain.cc'',
      HostnameRewriteTo := ''migration.domain.cc''\<rparr>) ''*.domain.cc'' = ''*.domain.cc''"
proof -
  have "''*.domain.cc'' \<notin> TrimSpace ` set (Split '','' ''domain.cc'')" by code_simp
  then show ?thesis
    by (intro TransformHostname_wildcard_kept) (simp add: empty_config_def)
qed

text \<open>
  What the certificate check accepts for a rewritten hostname: the exact name, or a
  wildcard entry whose text after the star and dot is any suffix of the name. The suffix need
  not start at a label, nor leave exactly one label over.
\<close>

theorem CheckCertificateMatch_iff:
  "CheckCertificateMatch original transformed tlsHosts \<longleftrightarrow>
     original = transformed \<or> transformed \<in> set tlsHosts \<or>
     (\<exists>pre d. transformed = pre @ d \<and> ''*.'' @ d \<in> set tlsHosts)"
  by (auto simp: CheckCertificateMatch_def cert_loop_iff suffix_def)

text \<open>
  Generated secret names fit the Kubernetes name limit, in the translator and in the
  controller; and the two functions agree on a lower-case namespace and hostname where the
  namespace has no dot and the full name fits.
\<close>

theorem generateSafeSecretName_bound_and_agree:
  "length (generateSafeSecretName namespace hostname) \<le> 253 \<and>
   length (controller_generateSafeSecretName namespace hostname) \<le> 253 \<and>
   (ToLower namespace = namespace \<and> ToLower hostname = hostname \<and> CHR ''.'' \<notin> set namespace \<and>
    length namespace + length hostname \<le> 238 \<longrightarrow>
    generateSafeSecretName namespace hostname = controller_generateSafeSecretName namespace hostname)"
proof (intro conjI impI)
  show "length (generateSafeSecretName namespace hostname) \<le> 253"
    using length_TrimRight [of "CHR ''-''" "take 253 (ToLower (automatic_name namespace (ReplaceAll hostname ''.'' ''-'')))"]
    by (simp add: generateSafeSecretName_def Let_def MaxK8sNameLength_def)
  show "length (controller_generateSafeSecretName namespace hostname) \<le> 253"
    by (simp add: controller_generateSafeSecretName_def Let_def MaxK8sNameLength_def)
  assume a: "ToLower namespace = namespace \<and> ToLower hostname = hostname \<and>
    CHR ''.'' \<notin> set namespace \<and> length namespace + length hostname \<le> 238"
  have "ReplaceAll namespace ''.'' ''-'' = namespace"
    using a by (intro ReplaceAll_no_match) simp
  moreover have "ToLower (ReplaceAll hostname ''.'' ''-'') = ReplaceAll hostname ''.'' ''-''"
    using a by (intro lower_ReplaceAll_dot) simp
  ultimately show "generateSafeSecretName namespace hostname =
      controller_generateSafeSecretName namespace hostname"
    using a by (simp add: generateSafeSecretName_def controller_generateSafeSecretName_def Let_def
        MaxK8sNameLength_def automatic_name_length lower_automatic)
qed

theorem generateSafeSecretName_bound_and_agree_witness:
  "generateSafeSecretName ''shop'' ''api.domain.cc'' = controller_generateSafeSecretName ''shop'' ''api.domain.cc''"
proof -
  have "ToLower ''shop'' = ''shop''" "ToLower ''api.domain.cc'' = ''api.domain.cc''" by code_simp+
  then show ?thesis
    using generateSafeSecretName_bound_and_agree [of "''shop''" "''api.domain.cc''"] by simp
qed

end
