(* ===== verification/Canary.thy ===== *)
theory Canary
  imports Hostnames
begin

text \<open>
  \<open>internal/translator/canary.go\<close>: the ingress-nginx canary annotations, their parsed
  form, and the HTTPRoute rules of a path that has a canary backend. Weights are \<open>int32\<close>;
  the subtraction keeps its wrap-around, and the lemmas show it never happens.
\<close>

section \<open>Configuration\<close>

definition CanaryAnnotation :: string where
  "CanaryAnnotation = ''nginx.ingress.kubernetes.io/canary''"

definition CanaryWeightAnnotation :: string where
  "CanaryWeightAnnotation = ''nginx.ingress.kubernetes.io/canary-weight''"

definition CanaryWeightTotalAnnotation :: string where
  "CanaryWeightTotalAnnotation = ''nginx.ingress.kubernetes.io/canary-weight-total''"

definition CanaryByHeaderAnnotation :: string where
  "CanaryByHeaderAnnotation = ''nginx.ingress.kubernetes.io/canary-by-header''"

definition CanaryByHeaderValueAnnotation :: string where
  "CanaryByHeaderValueAnnotation = ''nginx.ingress.kubernetes.io/canary-by-header-value''"

definition CanaryByHeaderPatternAnnotation :: string where
  "CanaryByHeaderPatternAnnotation = ''nginx.ingress.kubernetes.io/canary-by-header-pattern''"

definition CanaryByCookieAnnotation :: string where
  "CanaryByCookieAnnotation = ''nginx.ingress.kubernetes.io/canary-by-cookie''"

definition canaryOnValue :: string where
  "canaryOnValue = ''always''"

definition canaryOffValue :: string where
  "canaryOffValue = ''never''"

definition cookieHeader :: string where
  "cookieHeader = ''Cookie''"

record canary_config =
  cc_weight :: int
  cc_weightTotal :: int
  cc_header :: string
  cc_headerValue :: string
  cc_headerPattern :: string
  cc_cookie :: string

definition IsCanary :: "ingress \<Rightarrow> bool" where
  "IsCanary ing \<longleftrightarrow> mget (i_annotations ing) CanaryAnnotation = ''true''"

definition canary_weight_error :: "string \<Rightarrow> string" where
  "canary_weight_error raw =
     ''invalid '' @ CanaryWeightAnnotation @ '' '' @ Quote raw @ '': must be a non-negative integer''"

definition canary_total_error :: "string \<Rightarrow> string" where
  "canary_total_error raw =
     ''invalid '' @ CanaryWeightTotalAnnotation @ '' '' @ Quote raw @ '': must be a positive integer''"

definition canary_exceeds_error :: "int \<Rightarrow> int \<Rightarrow> string" where
  "canary_exceeds_error w t =
     CanaryWeightAnnotation @ '' ('' @ show_int w @ '') exceeds '' @
     CanaryWeightTotalAnnotation @ '' ('' @ show_int t @ '')''"

definition parse_weight :: "string \<Rightarrow> string + int" where
  "parse_weight raw =
     (if raw = [] then Inr 0
      else case ParseInt 32 raw of
             None \<Rightarrow> Inl (canary_weight_error raw)
           | Some w \<Rightarrow> if w < 0 then Inl (canary_weight_error raw) else Inr (int32 w))"

definition parse_total :: "string \<Rightarrow> string + int" where
  "parse_total raw =
     (if raw = [] then Inr 100
      else case ParseInt 32 raw of
             None \<Rightarrow> Inl (canary_total_error raw)
           | Some t \<Rightarrow> if t \<le> 0 then Inl (canary_total_error raw) else Inr (int32 t))"

definition ParseCanaryConfig :: "ingress \<Rightarrow> string + canary_config" where
  "ParseCanaryConfig ing =
     (let annotations = i_annotations ing
      in case parse_weight (mget annotations CanaryWeightAnnotation) of
           Inl e \<Rightarrow> Inl e
         | Inr wgt \<Rightarrow>
             (case parse_total (mget annotations CanaryWeightTotalAnnotation) of
                Inl e \<Rightarrow> Inl e
              | Inr tot \<Rightarrow>
                  if wgt > tot then Inl (canary_exceeds_error wgt tot)
                  else Inr \<lparr>cc_weight = wgt, cc_weightTotal = tot,
                            cc_header = mget annotations CanaryByHeaderAnnotation,
                            cc_headerValue = mget annotations CanaryByHeaderValueAnnotation,
                            cc_headerPattern = mget annotations CanaryByHeaderPatternAnnotation,
                            cc_cookie = mget annotations CanaryByCookieAnnotation\<rparr>))"

section \<open>Entries\<close>

record canary_entry =
  ce_config :: canary_config
  ce_backendRef :: http_backend_ref

definition backendRefFromPath :: "ingress_path \<Rightarrow> http_backend_ref option" where
  "backendRefFromPath path =
     (case ip_service path of
        None \<Rightarrow> None
      | Some svc \<Rightarrow>
          Some \<lparr>br_name = is_name svc,
                br_port = (if sp_number (is_port svc) > 0 then Some (sp_number (is_port svc))
                           else if sp_name (is_port svc) \<noteq> [] then Some 0
                           else None),
                br_weight = None\<rparr>)"

definition canary_path_step ::
  "canary_config \<Rightarrow> ingress_path \<Rightarrow> canary_entry gomap \<Rightarrow> canary_entry gomap" where
  "canary_path_step config path entries =
     (case backendRefFromPath path of
        None \<Rightarrow> entries
      | Some ref \<Rightarrow> mset_key (ip_path path) \<lparr>ce_config = config, ce_backendRef = ref\<rparr> entries)"

definition canary_rule_step ::
  "canary_config \<Rightarrow> ingress_rule \<Rightarrow> canary_entry gomap \<Rightarrow> canary_entry gomap" where
  "canary_rule_step config rule entries =
     (case ir_http rule of
        None \<Rightarrow> entries
      | Some paths \<Rightarrow> fold (canary_path_step config) paths entries)"

definition canary_ingress_step :: "ingress \<Rightarrow> canary_entry gomap \<Rightarrow> canary_entry gomap" where
  "canary_ingress_step canary entries =
     (case ParseCanaryConfig canary of
        Inl e \<Rightarrow> entries
      | Inr config \<Rightarrow> fold (canary_rule_step config) (i_rules canary) entries)"

definition collectCanaryEntries :: "ingress list \<Rightarrow> canary_entry gomap" where
  "collectCanaryEntries canaries = fold canary_ingress_step canaries []"

section \<open>Rules\<close>

definition canaryHeaderMatch :: "canary_config \<Rightarrow> header_match_type \<times> string" where
  "canaryHeaderMatch config =
     (if cc_headerPattern config \<noteq> [] then (HeaderMatchRegularExpression, cc_headerPattern config)
      else if cc_headerValue config \<noteq> [] then (HeaderMatchExact, cc_headerValue config)
      else (HeaderMatchExact, canaryOnValue))"

text \<open>\<open>regexp.QuoteMeta\<close>: a backslash before each metacharacter.\<close>

definition QuoteMeta :: "string \<Rightarrow> string" where
  "QuoteMeta s = concat (map (\<lambda>c. if c \<in> set (CHR 0x5C # ''.+*?()|[]{}^$'') then [CHR 0x5C, c] else [c]) s)"

definition cookieOnPattern :: "string \<Rightarrow> string" where
  "cookieOnPattern name =
     ''(?:^|;'' @ [CHR 0x5C] @ ''s*)'' @ QuoteMeta name @ ''='' @ canaryOnValue @ ''(?:;|$)''"

definition baseMatches :: "http_route_match \<Rightarrow> bool \<Rightarrow> http_route_match list" where
  "baseMatches base hasPath = (if \<not> hasPath then [] else [base])"

definition overrideMatches ::
  "http_route_match \<Rightarrow> string \<Rightarrow> header_match_type \<Rightarrow> string \<Rightarrow> http_route_match list" where
  "overrideMatches base name matchType value =
     [base\<lparr>rm_headers := rm_headers base @ [\<lparr>hm_type = matchType, hm_name = name, hm_value = value\<rparr>]\<rparr>]"

definition backendRule ::
  "http_route_match list \<Rightarrow> http_backend_ref \<Rightarrow> http_route_filter list \<Rightarrow> http_route_rule" where
  "backendRule matches ref filters =
     \<lparr>rr_matches = matches, rr_filters = filters, rr_backendRefs = [ref]\<rparr>"

definition weightedRule ::
  "http_route_match list \<Rightarrow> http_backend_ref \<Rightarrow> canary_entry \<Rightarrow> http_route_filter list \<Rightarrow> http_route_rule" where
  "weightedRule matches primaryRef entry filters =
     (let canaryWeight = cc_weight (ce_config entry);
          primaryWeight = int32 (cc_weightTotal (ce_config entry) - canaryWeight)
      in \<lparr>rr_matches = matches, rr_filters = filters,
          rr_backendRefs = [primaryRef\<lparr>br_weight := Some primaryWeight\<rparr>,
                            (ce_backendRef entry)\<lparr>br_weight := Some canaryWeight\<rparr>]\<rparr>)"

definition canaryOnlyRef :: "http_backend_ref \<Rightarrow> http_backend_ref" where
  "canaryOnlyRef ref = ref\<lparr>br_weight := None\<rparr>"

definition buildCanaryRules ::
  "http_route_match \<Rightarrow> bool \<Rightarrow> http_backend_ref \<Rightarrow> canary_entry \<Rightarrow> http_route_filter list
    \<Rightarrow> http_route_rule list" where
  "buildCanaryRules base hasPath primaryRef entry filters =
     (let config = ce_config entry;
          (matchType, value) = canaryHeaderMatch config
      in (if cc_header config \<noteq> [] \<and> cc_headerValue config = [] \<and> cc_headerPattern config = []
          then [backendRule (overrideMatches base (cc_header config) HeaderMatchExact canaryOffValue)
                  primaryRef filters]
          else []) @
         (if cc_header config \<noteq> []
          then [backendRule (overrideMatches base (cc_header config) matchType value)
                  (canaryOnlyRef (ce_backendRef entry)) filters]
          else []) @
         (if cc_cookie config \<noteq> []
          then [backendRule (overrideMatches base cookieHeader HeaderMatchRegularExpression
                    (cookieOnPattern (cc_cookie config)))
                  (canaryOnlyRef (ce_backendRef entry)) filters]
          else []) @
         [weightedRule (baseMatches base hasPath) primaryRef entry filters])"

section \<open>Specification: which backends serve a request\<close>

text \<open>
  A request is the partial function from header names to values. The Gateway API's documented
  precedence among the rules of one route and one path: the rule with the most header matches
  wins, and among equals the first. The gateway's regular-expression engine is the parameter
  \<open>re\<close>, and whether the request's path meets a path match the parameter \<open>path_ok\<close>.
\<close>

type_synonym request = "string \<rightharpoonup> string"

definition header_holds :: "(string \<Rightarrow> string \<Rightarrow> bool) \<Rightarrow> request \<Rightarrow> http_header_match \<Rightarrow> bool" where
  "header_holds re req hm =
     (case req (hm_name hm) of
        None \<Rightarrow> False
      | Some v \<Rightarrow> (case hm_type hm of HeaderMatchExact \<Rightarrow> v = hm_value hm
                  | HeaderMatchRegularExpression \<Rightarrow> re (hm_value hm) v))"

definition match_holds ::
  "(string \<Rightarrow> string \<Rightarrow> bool) \<Rightarrow> (path_match_type \<times> string \<Rightarrow> bool) \<Rightarrow> request \<Rightarrow> http_route_match \<Rightarrow> bool" where
  "match_holds re path_ok req m \<longleftrightarrow>
     (case rm_path m of None \<Rightarrow> True | Some p \<Rightarrow> path_ok p) \<and> list_all (header_holds re req) (rm_headers m)"

definition rule_holds where
  "rule_holds re path_ok req r \<longleftrightarrow>
     rr_matches r = [] \<or> list_ex (match_holds re path_ok req) (rr_matches r)"

definition rule_rank :: "http_route_rule \<Rightarrow> nat" where
  "rule_rank r = (case rr_matches r of [] \<Rightarrow> 0 | m # _ \<Rightarrow> length (rm_headers m))"

fun best_rule :: "http_route_rule option \<Rightarrow> http_route_rule list \<Rightarrow> http_route_rule option" where
  "best_rule best [] = best"
| "best_rule best (r # rs) =
     best_rule (case best of None \<Rightarrow> Some r | Some b \<Rightarrow> if rule_rank r > rule_rank b then Some r else best) rs"

definition serve where
  "serve re path_ok rules req =
     map_option rr_backendRefs (best_rule None (filter (rule_holds re path_ok req) rules))"

text \<open>
  What ingress-nginx documents for a canary: the header decides first, then the cookie, then
  the weights.
\<close>

definition canary_choice ::
  "(string \<Rightarrow> string \<Rightarrow> bool) \<Rightarrow> canary_config \<Rightarrow> http_backend_ref \<Rightarrow> http_backend_ref \<Rightarrow> request
    \<Rightarrow> http_backend_ref list" where
  "canary_choice re config primary canary req =
     (let hv = (if cc_header config = [] then None else req (cc_header config));
          by_header = (case hv of None \<Rightarrow> None
            | Some v \<Rightarrow>
                if cc_headerPattern config \<noteq> []
                then (if re (cc_headerPattern config) v then Some [canary] else None)
                else if cc_headerValue config \<noteq> []
                then (if v = cc_headerValue config then Some [canary] else None)
                else if v = ''always'' then Some [canary]
                else if v = ''never'' then Some [primary] else None);
          by_cookie = (if cc_cookie config = [] then False
            else case req ''Cookie'' of None \<Rightarrow> False | Some v \<Rightarrow> re (cookieOnPattern (cc_cookie config)) v)
      in case by_header of Some refs \<Rightarrow> refs
         | None \<Rightarrow> if by_cookie then [canary]
                   else [primary\<lparr>br_weight := Some (cc_weightTotal config - cc_weight config)\<rparr>,
                         canary\<lparr>br_weight := Some (cc_weight config)\<rparr>])"

section \<open>Lemmas\<close>

lemma parse_weight_bounds: "parse_weight raw = Inr w \<Longrightarrow> 0 \<le> w \<and> w < 2 ^ 31"
  using ParseInt_range [of 32 raw]
  by (auto simp: parse_weight_def int32_id split: if_splits option.splits)

lemma parse_total_bounds: "parse_total raw = Inr t \<Longrightarrow> 0 < t \<and> t < 2 ^ 31"
  using ParseInt_range [of 32 raw]
  by (auto simp: parse_total_def int32_id split: if_splits option.splits)

definition wf_canary_config :: "canary_config \<Rightarrow> bool" where
  "wf_canary_config c \<longleftrightarrow> 0 \<le> cc_weight c \<and> cc_weight c \<le> cc_weightTotal c \<and>
     0 < cc_weightTotal c \<and> cc_weightTotal c < 2 ^ 31"

lemma ParseCanaryConfig_wf: "ParseCanaryConfig ing = Inr c \<Longrightarrow> wf_canary_config c"
  by (auto simp: ParseCanaryConfig_def Let_def wf_canary_config_def not_less
      dest!: parse_weight_bounds parse_total_bounds split: sum.splits if_splits)

lemma wf_primary_weight:
  "wf_canary_config c \<Longrightarrow> int32 (cc_weightTotal c - cc_weight c) = cc_weightTotal c - cc_weight c"
  by (rule int32_id) (auto simp: wf_canary_config_def)

lemma parse_weight_show: "0 \<le> w \<Longrightarrow> w < 2 ^ 31 \<Longrightarrow> parse_weight (show_int w) = Inr w"
  using ParseInt_show_int [of 32 w] show_nat_digits [of "nat w"]
  by (auto simp: parse_weight_def int32_id show_int_def)

lemma parse_total_show: "0 < t \<Longrightarrow> t < 2 ^ 31 \<Longrightarrow> parse_total (show_int t) = Inr t"
  using ParseInt_show_int [of 32 t] show_nat_digits [of "nat t"]
  by (auto simp: parse_total_def int32_id show_int_def)

lemma canary_keys_distinct [simp]:
  "CanaryWeightAnnotation \<noteq> CanaryWeightTotalAnnotation"
  "CanaryWeightTotalAnnotation \<noteq> CanaryWeightAnnotation"
  by (simp_all add: CanaryWeightAnnotation_def CanaryWeightTotalAnnotation_def)

text \<open>The entries of all canaries as one list of assignments, in the order of the loops.\<close>

definition canary_assignments :: "ingress list \<Rightarrow> (string \<times> canary_entry) list" where
  "canary_assignments canaries =
     [(ip_path path, \<lparr>ce_config = config, ce_backendRef = ref\<rparr>).
        canary \<leftarrow> canaries, config \<leftarrow> (case ParseCanaryConfig canary of Inl e \<Rightarrow> [] | Inr c \<Rightarrow> [c]),
        rule \<leftarrow> i_rules canary, path \<leftarrow> (case ir_http rule of None \<Rightarrow> [] | Some ps \<Rightarrow> ps),
        ref \<leftarrow> (case backendRefFromPath path of None \<Rightarrow> [] | Some r \<Rightarrow> [r])]"

abbreviation assign_all :: "(string \<times> 'v) list \<Rightarrow> 'v gomap \<Rightarrow> 'v gomap" where
  "assign_all xs m \<equiv> fold (\<lambda>(k, v) d. mset_key k v d) xs m"

lemma fold_concat_map: "(\<And>x m. f x m = fold g (h x) m) \<Longrightarrow> fold f xs m = fold g (concat (map h xs)) m"
  by (induction xs arbitrary: m) simp_all

lemma canary_path_assign:
  "canary_path_step config path m =
     assign_all [(ip_path path, \<lparr>ce_config = config, ce_backendRef = ref\<rparr>).
       ref \<leftarrow> (case backendRefFromPath path of None \<Rightarrow> [] | Some r \<Rightarrow> [r])] m"
  by (simp add: canary_path_step_def split: option.splits)

lemma canary_rule_assign:
  "canary_rule_step config rule m =
     assign_all [(ip_path path, \<lparr>ce_config = config, ce_backendRef = ref\<rparr>).
       path \<leftarrow> (case ir_http rule of None \<Rightarrow> [] | Some ps \<Rightarrow> ps),
       ref \<leftarrow> (case backendRefFromPath path of None \<Rightarrow> [] | Some r \<Rightarrow> [r])] m"
  unfolding canary_rule_step_def
  by (auto split: option.splits intro: fold_concat_map simp: canary_path_assign)

lemma canary_ingress_assign:
  "canary_ingress_step canary m =
     assign_all [(ip_path path, \<lparr>ce_config = config, ce_backendRef = ref\<rparr>).
       config \<leftarrow> (case ParseCanaryConfig canary of Inl e \<Rightarrow> [] | Inr c \<Rightarrow> [c]),
       rule \<leftarrow> i_rules canary, path \<leftarrow> (case ir_http rule of None \<Rightarrow> [] | Some ps \<Rightarrow> ps),
       ref \<leftarrow> (case backendRefFromPath path of None \<Rightarrow> [] | Some r \<Rightarrow> [r])] m"
  unfolding canary_ingress_step_def
  by (auto split: sum.splits intro: fold_concat_map simp: canary_rule_assign)

lemma collectCanaryEntries_assign: "collectCanaryEntries canaries = assign_all (canary_assignments canaries) []"
  unfolding collectCanaryEntries_def canary_assignments_def
  by (rule fold_concat_map) (rule canary_ingress_assign)

lemma collect_lookup: "map_of (collectCanaryEntries canaries) = map_of (rev (canary_assignments canaries))"
  by (simp add: collectCanaryEntries_assign fold_mset_key_conv)

lemma canary_assignments_wf:
  "(p, e) \<in> set (canary_assignments canaries) \<Longrightarrow> wf_canary_config (ce_config e)"
  by (auto simp: canary_assignments_def split: sum.splits dest: ParseCanaryConfig_wf [OF sym])

lemma collect_wf: "map_of (collectCanaryEntries canaries) p = Some e \<Longrightarrow> wf_canary_config (ce_config e)"
  by (auto simp: collect_lookup dest!: map_of_SomeD canary_assignments_wf)

lemma override_holds:
  "rm_headers base = [] \<Longrightarrow> (case rm_path base of None \<Rightarrow> True | Some p \<Rightarrow> path_ok p) \<Longrightarrow>
   rule_holds re path_ok req (backendRule (overrideMatches base n t v) ref fs) \<longleftrightarrow>
     header_holds re req \<lparr>hm_type = t, hm_name = n, hm_value = v\<rparr>"
  by (simp add: rule_holds_def backendRule_def overrideMatches_def match_holds_def)

lemma base_holds:
  "rm_headers base = [] \<Longrightarrow> (case rm_path base of None \<Rightarrow> True | Some p \<Rightarrow> path_ok p) \<Longrightarrow>
   rule_holds re path_ok req (weightedRule (baseMatches base hasPath) ref e fs)"
  by (simp add: rule_holds_def weightedRule_def baseMatches_def match_holds_def Let_def)

lemma override_rank:
  "rm_headers base = [] \<Longrightarrow> rule_rank (backendRule (overrideMatches base n t v) ref fs) = 1"
  by (simp add: rule_rank_def backendRule_def overrideMatches_def)

lemma base_rank:
  "rm_headers base = [] \<Longrightarrow> rule_rank (weightedRule (baseMatches base hasPath) ref e fs) = 0"
  by (simp add: rule_rank_def weightedRule_def baseMatches_def Let_def)

lemma weighted_refs:
  "wf_canary_config (ce_config e) \<Longrightarrow>
   rr_backendRefs (weightedRule ms ref e fs) =
     [ref\<lparr>br_weight := Some (cc_weightTotal (ce_config e) - cc_weight (ce_config e))\<rparr>,
      (ce_backendRef e)\<lparr>br_weight := Some (cc_weight (ce_config e))\<rparr>]"
  by (simp add: weightedRule_def Let_def wf_primary_weight)

lemmas serve_simps = override_holds base_holds override_rank base_rank weighted_refs

section \<open>Properties\<close>


text \<open>
  C28. Every canary entry has weights that survive at 32 bits: in its weighted rule both weights
  are non-negative and add up to the configured total, with no wrap-around.
\<close>

theorem canary_weights_add_up:
  assumes "map_of (collectCanaryEntries canaries) path = Some e"
  shows "\<exists>p c. map br_weight (rr_backendRefs (weightedRule ms ref e filters)) = [Some p, Some c] \<and>
    0 \<le> p \<and> 0 \<le> c \<and> p + c = cc_weightTotal (ce_config e) \<and> p + c < 2 ^ 31"
  using collect_wf [OF assms]
  by (auto simp: weighted_refs wf_canary_config_def)

definition example_canary :: ingress where
  "example_canary = \<lparr>i_apiVersion = ''networking.k8s.io/v1'', i_kind = ''Ingress'',
     i_meta = empty_meta\<lparr>m_name := ''prod-canary'', m_namespace := ''shop'',
       m_annotations := [(CanaryAnnotation, ''true''), (CanaryWeightAnnotation, ''20''),
                         (CanaryByHeaderAnnotation, ''X-Canary'')]\<rparr>,
     i_ingressClassName = Some ''nginx'',
     i_rules = [\<lparr>ir_host = ''app.example.com'',
       ir_http = Some [\<lparr>ip_path = ''/'', ip_pathType = Some PathTypePrefix,
         ip_service = Some \<lparr>is_name = ''canary'', is_port = \<lparr>sp_name = [], sp_number = 80\<rparr>\<rparr>\<rparr>]\<rparr>],
     i_tls = [], i_loadBalancer = []\<rparr>"

definition example_canary_config :: canary_config where
  "example_canary_config = \<lparr>cc_weight = 20, cc_weightTotal = 100, cc_header = ''X-Canary'',
     cc_headerValue = [], cc_headerPattern = [], cc_cookie = []\<rparr>"

definition example_entry :: canary_entry where
  "example_entry = \<lparr>ce_config = example_canary_config,
     ce_backendRef = \<lparr>br_name = ''canary'', br_port = Some 80, br_weight = None\<rparr>\<rparr>"

lemma example_entries: "collectCanaryEntries [example_canary] = [(''/'', example_entry)]"
  by code_simp

theorem canary_weights_add_up_witness:
  "\<exists>p c. map br_weight (rr_backendRefs (weightedRule [] (ce_backendRef example_entry) example_entry [])) = [Some p, Some c] \<and>
    0 \<le> p \<and> 0 \<le> c \<and> p + c = 100 \<and> p + c < 2 ^ 31"
  using canary_weights_add_up [of "[example_canary]" "''/''" example_entry]
  by (simp add: example_entries example_entry_def example_canary_config_def)


text \<open>
  When several canaries, or several paths of one, name the same path, the last one in the
  order of the loops provides the entry; canaries with an invalid configuration, rules without
  HTTP paths and paths without a service contribute nothing.
\<close>

theorem collectCanaryEntries_last_wins:
  "map_of (collectCanaryEntries canaries) path = map_of (rev (canary_assignments canaries)) path"
  by (simp add: collect_lookup)

text \<open>
  Printing a weight and a total into the annotations and parsing them back: accepted with
  the same numbers exactly when the total is positive and the weight between zero and the
  total, for all 32-bit integers.
\<close>

theorem ParseCanaryConfig_show:
  assumes "mget (i_annotations ing) CanaryWeightAnnotation = show_int w"
    and "mget (i_annotations ing) CanaryWeightTotalAnnotation = show_int t"
    and "- (2 ^ 31) \<le> w" "w < 2 ^ 31" "- (2 ^ 31) \<le> t" "t < 2 ^ 31"
  shows "(\<exists>c. ParseCanaryConfig ing = Inr c \<and> cc_weight c = w \<and> cc_weightTotal c = t) \<longleftrightarrow>
      0 \<le> w \<and> w \<le> t \<and> 0 < t"
    (is "?parsed \<longleftrightarrow> ?ok")
proof
  assume ?parsed
  then show ?ok using ParseCanaryConfig_wf by (auto simp: wf_canary_config_def)
next
  assume ?ok
  then have "parse_weight (show_int w) = Inr w" "parse_total (show_int t) = Inr t"
    using assms(3-6) by (auto intro: parse_weight_show parse_total_show)
  then show ?parsed using assms(1,2) \<open>?ok\<close> by (simp add: ParseCanaryConfig_def Let_def)
qed

theorem ParseCanaryConfig_show_witness:
  "\<exists>c. ParseCanaryConfig (example_canary\<lparr>i_meta := empty_meta\<lparr>m_annotations :=
      [(CanaryWeightAnnotation, ''20''), (CanaryWeightTotalAnnotation, ''1000'')]\<rparr>\<rparr>) = Inr c \<and>
    cc_weight c = 20 \<and> cc_weightTotal c = 1000"
proof -
  have "show_int 20 = ''20''" "show_int 1000 = ''1000''" by code_simp+
  then show ?thesis
    using ParseCanaryConfig_show [of "example_canary\<lparr>i_meta := empty_meta\<lparr>m_annotations :=
      [(CanaryWeightAnnotation, ''20''), (CanaryWeightTotalAnnotation, ''1000'')]\<rparr>\<rparr>" 20 1000]
    by (simp add: mget_def)
qed

end
