(* ===== verification/Glob.thy ===== *)
theory Glob
  imports Kube
begin

text \<open>
  Go's \<open>filepath.Match\<close> on a system whose separator is the slash, with its error
  \<open>ErrBadPattern\<close>, and the class patterns that decide which Ingresses the operator and the
  webhook touch: \<open>matchIngressClassPatterns\<close> and \<open>getIngressClass\<close> of
  \<open>internal/controller/ingress_controller.go\<close>, of \<open>internal/webhook/ingress_webhook.go\<close>
  and of \<open>internal/translator/translator.go\<close>.
\<close>

section \<open>The matcher of the standard library\<close>

definition getEsc :: "string \<Rightarrow> (char \<times> string) option" where
  "getEsc chunk =
     (if chunk = [] \<or> hd chunk = CHR ''-'' \<or> hd chunk = CHR '']'' then None
      else let chunk' = (if hd chunk = CHR 0x5C then tl chunk else chunk)
           in if chunk' = [] \<or> tl chunk' = [] then None
              else Some (hd chunk', tl chunk'))"

lemma getEsc_shorter: "getEsc chunk = Some (c, rest) \<Longrightarrow> length rest < length chunk"
  by (cases chunk) (auto simp: getEsc_def Let_def split: if_splits)

text \<open>
  The ranges of a character class, up to the closing bracket; \<open>some\<close> says whether a
  range was read.
\<close>

function class_ranges :: "char \<Rightarrow> string \<Rightarrow> bool \<Rightarrow> bool \<Rightarrow> (bool \<times> string) option" where
  "class_ranges r chunk some m =
     (if chunk \<noteq> [] \<and> hd chunk = CHR '']'' \<and> some then Some (m, tl chunk)
      else case getEsc chunk of
             None \<Rightarrow> None
           | Some (lo, c1) \<Rightarrow>
               if hd c1 = CHR ''-''
               then (case getEsc (tl c1) of
                       None \<Rightarrow> None
                     | Some (hi, c2) \<Rightarrow> class_ranges r c2 True (m \<or> lo \<le> r \<and> r \<le> hi))
               else class_ranges r c1 True (m \<or> lo \<le> r \<and> r \<le> lo))"
  by pat_completeness auto
termination
proof (relation "measure (\<lambda>(r, chunk, some, m). length chunk)", goal_cases)
  case (2 r chunk some m p lo c1 q hi c2)
  then have "length c2 < length (tl c1)" "length c1 < length chunk" by (auto dest: getEsc_shorter)
  then show ?case by (simp add: less_imp_le_nat)
qed (auto dest: getEsc_shorter)

declare class_ranges.simps [simp del]

lemma class_ranges_shorter:
  "class_ranges r chunk some m = Some (m', rest) \<Longrightarrow> length rest < length chunk"
proof (induction r chunk some m rule: class_ranges.induct)
  case (1 r chunk some m)
  show ?case
  proof (cases "chunk \<noteq> [] \<and> hd chunk = CHR '']'' \<and> some")
    case True
    with "1.prems" show ?thesis by (subst (asm) class_ranges.simps) auto
  next
    case False
    with "1.prems" obtain lo c1 where lo: "getEsc chunk = Some (lo, c1)"
      by (subst (asm) class_ranges.simps) (auto split: option.splits)
    then have c1: "length c1 < length chunk" by (rule getEsc_shorter)
    show ?thesis
    proof (cases "hd c1 = CHR ''-''")
      case True
      with False lo "1.prems" obtain hi c2 where hi: "getEsc (tl c1) = Some (hi, c2)"
        and m: "class_ranges r c2 True (m \<or> lo \<le> r \<and> r \<le> hi) = Some (m', rest)"
        by (subst (asm) (1) class_ranges.simps) (auto split: option.splits)
      then have "length rest < length c2" using "1.IH"(1) [OF False lo refl True hi refl] by blast
      moreover have "length c2 < length c1" using getEsc_shorter [OF hi] by simp
      ultimately show ?thesis using c1 by simp
    next
      case other: False
      with False lo "1.prems" have "class_ranges r c1 True (m \<or> lo \<le> r \<and> r \<le> lo) = Some (m', rest)"
        by (subst (asm) (1) class_ranges.simps) auto
      then show ?thesis using "1.IH"(2) [OF False lo refl other] c1 by simp
    qed
  qed
qed

text \<open>
  \<open>matchChunk\<close>: \<^const>\<open>None\<close> is the bad pattern, \<^term>\<open>Some None\<close> no match, and
  otherwise the rest of the name. After a failure the chunk is still read to its end, for
  its syntax.
\<close>

function matchChunk :: "string \<Rightarrow> string \<Rightarrow> bool \<Rightarrow> string option option" where
  "matchChunk [] s failed = Some (if failed then None else Some s)"
| "matchChunk (c # cs) s failed0 =
     (let failed = (failed0 \<or> s = [])
      in if c = CHR ''['' then
           (let r = (if failed then CHR 0x00 else hd s);
                s' = (if failed then s else tl s);
                negated = (cs \<noteq> [] \<and> hd cs = CHR ''^'');
                cs' = (if negated then tl cs else cs)
            in case class_ranges r cs' False False of
                 None \<Rightarrow> None
               | Some (m, rest) \<Rightarrow> matchChunk rest s' (failed \<or> m = negated))
         else if c = CHR ''?'' then
           (if failed then matchChunk cs s True else matchChunk cs (tl s) (hd s = CHR ''/''))
         else if c = CHR 0x5C then
           (if cs = [] then None
            else if failed then matchChunk (tl cs) s True
            else matchChunk (tl cs) (tl s) (hd cs \<noteq> hd s))
         else if failed then matchChunk cs s True
         else matchChunk cs (tl s) (c \<noteq> hd s))"
  by pat_completeness auto
termination
proof (relation "measure (\<lambda>(chunk, s, failed). length chunk)", goal_cases)
  case (2 c cs s failed0 failed r s' negated cs' p m rest)
  then have "length rest < length cs'" by (auto dest: class_ranges_shorter)
  moreover have "length cs' \<le> length cs" using 2 by simp
  ultimately show ?case by simp
qed (auto simp: less_Suc_eq_le)

text \<open>The chunk up to the next star outside a class, and what follows.\<close>

fun scan_chunk :: "bool \<Rightarrow> string \<Rightarrow> string \<times> string" where
  "scan_chunk inrange [] = ([], [])"
| "scan_chunk inrange (c # cs) =
     (if c = CHR 0x5C then
        (case cs of [] \<Rightarrow> ([c], [])
         | d # ds \<Rightarrow> let (chunk, rest) = scan_chunk inrange ds in (c # d # chunk, rest))
      else if c = CHR ''*'' \<and> \<not> inrange then ([], c # cs)
      else let inrange' = (if c = CHR ''['' then True else if c = CHR '']'' then False else inrange);
               (chunk, rest) = scan_chunk inrange' cs
           in (c # chunk, rest))"

definition scanChunk :: "string \<Rightarrow> bool \<times> string \<times> string" where
  "scanChunk pattern =
     (let body = dropWhile (\<lambda>c. c = CHR ''*'') pattern;
          star = (pattern \<noteq> [] \<and> hd pattern = CHR ''*'');
          (chunk, rest) = scan_chunk False body
      in (star, chunk, rest))"

lemma scan_chunk_concat: "fst (scan_chunk inrange s) @ snd (scan_chunk inrange s) = s"
proof (induction "length s" arbitrary: inrange s rule: less_induct)
  case less
  show ?case
  proof (cases s)
    case (Cons c cs)
    have IH: "fst (scan_chunk r t) @ snd (scan_chunk r t) = t" if "length t \<le> length cs" for r t
      using less that Cons by simp
    show ?thesis
    proof (cases cs)
      case Nil
      then show ?thesis using Cons by (simp add: Let_def)
    next
      case (Cons d ds)
      then show ?thesis
        using IH [of cs] IH [of ds] \<open>s = c # cs\<close>
        by (simp del: scan_chunk.simps(2) add: scan_chunk.simps(2) [of _ c "d # ds"] Let_def case_prod_beta)
    qed
  qed simp
qed

lemma scan_chunk_rest: "scan_chunk inrange s = (chunk, rest) \<Longrightarrow> s = chunk @ rest"
  using scan_chunk_concat [of inrange s] by simp

lemma scan_chunk_progress:
  "scan_chunk False (c # cs) = (chunk, rest) \<Longrightarrow> c \<noteq> CHR ''*'' \<Longrightarrow> chunk \<noteq> []"
  by (auto split: if_splits list.splits prod.splits simp: Let_def)

lemma scanChunk_shorter:
  assumes "scanChunk pattern = (star, chunk, rest)" and "pattern \<noteq> []"
  shows "length rest < length pattern"
proof -
  let ?body = "dropWhile (\<lambda>c. c = CHR ''*'') pattern"
  from assms(1) have s: "scan_chunk False ?body = (chunk, rest)"
    by (auto simp: scanChunk_def Let_def split: prod.splits)
  have le: "length ?body \<le> length pattern" by (rule length_dropWhile_le)
  have b: "?body = chunk @ rest" using scan_chunk_rest [OF s] .
  show ?thesis
  proof (cases ?body)
    case Nil
    with b assms(2) show ?thesis by simp
  next
    case (Cons c cs)
    have "c \<noteq> CHR ''*''" using hd_dropWhile [of "\<lambda>c. c = CHR ''*''" pattern] Cons by simp
    then have "chunk \<noteq> []" using s Cons by (metis scan_chunk_progress)
    then have "length rest < length ?body" using b by simp
    with le show ?thesis by simp
  qed
qed

function validate_rest :: "string \<Rightarrow> bool option" where
  "validate_rest pattern =
     (if pattern = [] then Some False
      else let (star, chunk, rest) = scanChunk pattern
           in case matchChunk chunk [] False of
                None \<Rightarrow> None
              | Some _ \<Rightarrow> validate_rest rest)"
  by pat_completeness auto
termination
  by (relation "measure length") (auto dest: scanChunk_shorter [OF sym])

declare validate_rest.simps [simp del]

text \<open>The inner loop: skip one more byte of the name, never a slash, and try again.\<close>

fun star_loop :: "string \<Rightarrow> bool \<Rightarrow> string \<Rightarrow> string option option" where
  "star_loop chunk final [] = Some None"
| "star_loop chunk final (c # cs) =
     (if c = CHR ''/'' then Some None
      else case matchChunk chunk cs False of
             None \<Rightarrow> None
           | Some None \<Rightarrow> star_loop chunk final cs
           | Some (Some t) \<Rightarrow> if final \<and> t \<noteq> [] then star_loop chunk final cs else Some (Some t))"

function Match :: "string \<Rightarrow> string \<Rightarrow> bool option" where
  "Match pattern name =
     (if pattern = [] then Some (name = [])
      else let (star, chunk, rest) = scanChunk pattern
           in if star \<and> chunk = [] then Some (CHR ''/'' \<notin> set name)
              else case matchChunk chunk name False of
                     None \<Rightarrow> None
                   | Some m \<Rightarrow>
                       (if m \<noteq> None \<and> (the m = [] \<or> rest \<noteq> []) then Match rest (the m)
                        else if star then
                          (case star_loop chunk (rest = []) name of
                             None \<Rightarrow> None
                           | Some None \<Rightarrow> validate_rest rest
                           | Some (Some t) \<Rightarrow> Match rest t)
                        else validate_rest rest))"
  by pat_completeness auto
termination
  by (relation "measure (\<lambda>(pattern, name). length pattern)")
     (auto dest: scanChunk_shorter [OF sym])

declare Match.simps [simp del]

section \<open>Ingress classes\<close>

definition IngressClassAnnotation :: string where
  "IngressClassAnnotation = ''kubernetes.io/ingress.class''"

text \<open>
  \<open>getIngressClass\<close> of the reconciler and of the webhook; \<open>emptyClass\<close> is the configured
  class of an Ingress that names none.
\<close>

definition getIngressClass :: "string \<Rightarrow> ingress \<Rightarrow> string" where
  "getIngressClass emptyClass ing =
     (case i_ingressClassName ing of
        Some c \<Rightarrow> if c \<noteq> [] then c
                  else if mget (i_annotations ing) IngressClassAnnotation \<noteq> []
                       then mget (i_annotations ing) IngressClassAnnotation else emptyClass
      | None \<Rightarrow> if mget (i_annotations ing) IngressClassAnnotation \<noteq> []
                then mget (i_annotations ing) IngressClassAnnotation else emptyClass)"

definition webhook_getIngressClass :: "string \<Rightarrow> ingress \<Rightarrow> string" where
  "webhook_getIngressClass emptyClass ing =
     (case i_ingressClassName ing of
        Some c \<Rightarrow> if c \<noteq> [] then c
                  else if mget (i_annotations ing) ''kubernetes.io/ingress.class'' \<noteq> []
                       then mget (i_annotations ing) ''kubernetes.io/ingress.class'' else emptyClass
      | None \<Rightarrow> if mget (i_annotations ing) ''kubernetes.io/ingress.class'' \<noteq> []
                then mget (i_annotations ing) ''kubernetes.io/ingress.class'' else emptyClass)"

text \<open>\<open>GetIngressClass\<close> of the translator, whose default is a fixed name.\<close>

definition GetIngressClass :: "ingress \<Rightarrow> string" where
  "GetIngressClass ing =
     (case i_ingressClassName ing of
        Some c \<Rightarrow> if c \<noteq> [] then c
                  else if mget (i_annotations ing) IngressClassAnnotation \<noteq> []
                       then mget (i_annotations ing) IngressClassAnnotation else ''default''
      | None \<Rightarrow> if mget (i_annotations ing) IngressClassAnnotation \<noteq> []
                then mget (i_annotations ing) IngressClassAnnotation else ''default'')"

fun match_patterns_loop :: "string \<Rightarrow> string list \<Rightarrow> bool" where
  "match_patterns_loop ingressClass [] = False"
| "match_patterns_loop ingressClass (pattern # patterns) =
     (if pattern = [] \<or> pattern = ''*'' then match_patterns_loop ingressClass patterns
      else case Match pattern ingressClass of
             None \<Rightarrow> match_patterns_loop ingressClass patterns
           | Some matched \<Rightarrow> if matched then True else match_patterns_loop ingressClass patterns)"

definition matchIngressClassPatterns :: "string list \<Rightarrow> string \<Rightarrow> bool" where
  "matchIngressClassPatterns patterns ingressClass =
     (if patterns = [] then False
      else if list_ex (\<lambda>pattern. pattern = ''*'') patterns then True
      else if ingressClass = [] then False
      else match_patterns_loop ingressClass patterns)"

section \<open>Lemmas\<close>

definition glob_meta :: "char \<Rightarrow> bool" where
  "glob_meta c \<longleftrightarrow> c \<in> {CHR ''*'', CHR ''?'', CHR ''['', CHR 0x5C}"

abbreviation literal :: "string \<Rightarrow> bool" where
  "literal p \<equiv> list_all (\<lambda>c. \<not> glob_meta c) p"

lemma matchChunk_literal_failed: "literal p \<Longrightarrow> matchChunk p s True = Some None"
  by (induction p) (auto simp: Let_def glob_meta_def)

lemma matchChunk_literal:
  "literal p \<Longrightarrow> matchChunk p s False = Some (if prefix p s then Some (drop (length p) s) else None)"
proof (induction p arbitrary: s)
  case (Cons c p)
  then have p: "literal p" and c: "\<not> glob_meta c" by auto
  have f: "matchChunk p t True = Some None" for t using p by (rule matchChunk_literal_failed)
  show ?case
  proof (cases s)
    case (Cons d t)
    then show ?thesis
      using c Cons.IH [OF p, of t] f by (cases "c = d") (auto simp: Let_def glob_meta_def)
  qed (use c f in \<open>simp add: Let_def glob_meta_def\<close>)
qed simp

lemma scan_chunk_literal: "literal p \<Longrightarrow> scan_chunk False p = (p, [])"
proof (induction p)
  case (Cons c p)
  then show ?case by (auto simp: Let_def glob_meta_def)
qed simp

lemma scan_chunk_literal_star: "literal p \<Longrightarrow> scan_chunk False (p @ CHR ''*'' # q) = (p, CHR ''*'' # q)"
proof (induction p)
  case (Cons c p)
  then show ?case by (auto simp: Let_def glob_meta_def)
qed simp

lemma literal_no_star: "literal p \<Longrightarrow> p \<noteq> [] \<Longrightarrow> hd p \<noteq> CHR ''*''"
  by (cases p) (auto simp: glob_meta_def)

lemma dropWhile_literal: "literal p \<Longrightarrow> p \<noteq> [] \<Longrightarrow> dropWhile (\<lambda>c. c = CHR ''*'') (p @ q) = p @ q"
  by (cases p) (auto simp: glob_meta_def)

lemma Match_Nil [simp]: "Match [] name = Some (name = [])"
  by (simp add: Match.simps)

lemma validate_rest_Nil [simp]: "validate_rest [] = Some False"
  by (simp add: validate_rest.simps)

lemma Match_literal: "literal p \<Longrightarrow> Match p name = Some (name = p)"
proof (cases "p = []")
  case False
  assume p: "literal p"
  have "scanChunk p = (False, p, [])"
    using p False dropWhile_literal [OF p False, of "[]"]
    by (simp add: scanChunk_def scan_chunk_literal literal_no_star)
  moreover have "prefix p name \<and> drop (length p) name = [] \<longleftrightarrow> name = p" by (auto simp: prefix_def)
  ultimately show ?thesis
    using p False by (subst Match.simps) (auto simp: matchChunk_literal prefix_def)
qed simp

lemma Match_star: "Match ''*'' name = Some (CHR ''/'' \<notin> set name)"
  by (subst Match.simps) (simp add: scanChunk_def)

lemma Match_prefix_star:
  "literal p \<Longrightarrow> Match (p @ ''*'') name =
     Some (prefix p name \<and> CHR ''/'' \<notin> set (drop (length p) name))"
proof (cases "p = []")
  case False
  assume p: "literal p"
  have v: "validate_rest ''*'' = Some False"
    by (subst validate_rest.simps) (simp add: scanChunk_def)
  have "scanChunk (p @ ''*'') = (False, p, ''*'')"
    using p False by (simp add: scanChunk_def dropWhile_literal scan_chunk_literal_star literal_no_star)
  then show ?thesis
    using p False v by (subst Match.simps) (auto simp: matchChunk_literal Match_star)
qed (simp add: Match_star)

lemma match_patterns_loop_iff:
  "match_patterns_loop c patterns \<longleftrightarrow>
     (\<exists>p \<in> set patterns. p \<noteq> [] \<and> p \<noteq> ''*'' \<and> Match p c = Some True)"
  by (induction patterns) (auto split: option.splits)

lemma webhook_getIngressClass_eq: "webhook_getIngressClass = getIngressClass"
  unfolding fun_eq_iff webhook_getIngressClass_def getIngressClass_def IngressClassAnnotation_def
  by simp

lemma GetIngressClass_eq: "GetIngressClass = getIngressClass ''default''"
  by (intro ext) (simp add: GetIngressClass_def getIngressClass_def)

lemma matchPatterns_iff:
  "matchIngressClassPatterns patterns c \<longleftrightarrow>
     ''*'' \<in> set patterns \<or> c \<noteq> [] \<and> (\<exists>p \<in> set patterns. p \<noteq> [] \<and> Match p c = Some True)"
  by (auto simp: matchIngressClassPatterns_def match_patterns_loop_iff list_ex_iff)

section \<open>Properties\<close>

text \<open>
  The class filter accepts a class exactly when one of its patterns is the bare star, or
  the class is not empty and some non-empty pattern matches it; a malformed pattern never
  matches and never hides the others.
\<close>

theorem matchIngressClassPatterns_iff:
  "matchIngressClassPatterns patterns c \<longleftrightarrow>
     ''*'' \<in> set patterns \<or> c \<noteq> [] \<and> (\<exists>p \<in> set patterns. p \<noteq> [] \<and> Match p c = Some True)"
  by (rule matchPatterns_iff)

text \<open>
  A class filter made of plain names and of names with a trailing star: it accepts the
  classes it names and those with one of the prefixes (a class holds no slash).
\<close>

theorem matchIngressClassPatterns_names:
  assumes "\<forall>p \<in> set names. literal p" and "\<forall>p \<in> set pres. literal p \<and> p \<noteq> []"
    and "CHR ''/'' \<notin> set c" and "c \<noteq> []"
  shows "matchIngressClassPatterns (names @ map (\<lambda>p. p @ ''*'') pres) c \<longleftrightarrow>
    c \<in> set names \<or> (\<exists>p \<in> set pres. prefix p c)"
proof -
  have "''*'' \<notin> set names" using assms(1) by (auto simp: glob_meta_def)
  moreover have "''*'' \<notin> (\<lambda>p. p @ ''*'') ` set pres"
    using assms(2) by auto
  moreover have "Match p c = Some True \<longleftrightarrow> c = p" if "p \<in> set names" for p
    using assms(1) that Match_literal [of p c] by auto
  moreover have "Match (p @ ''*'') c = Some True \<longleftrightarrow> prefix p c" if "p \<in> set pres" for p
    using assms(2,3) that Match_prefix_star [of p c] by (auto dest: in_set_dropD)
  ultimately show ?thesis
    using assms(1,4) unfolding matchPatterns_iff by auto
qed

theorem matchIngressClassPatterns_names_witness:
  "matchIngressClassPatterns [''public'', ''nginx-*''] ''nginx-internal''"
  using matchIngressClassPatterns_names [of "[''public'']" "[''nginx-'']" "''nginx-internal''"]
  by (simp add: glob_meta_def)

end
