(* ===== verification/Api.thy ===== *)
theory Api
  imports Kube
begin

text \<open>
  The Kubernetes API server and the client library are not part of the repository: they are a
  parameter of the model. A server is a function from the history of calls (newest first, the
  current call at the head) to the reply of the current call. Nothing is assumed of it, so a
  statement for every server also covers other writers, lost objects, conflicts and outages.
  What the code does is then visible in two ways: in its result and in the calls it makes,
  which the world records, together with the events and metrics it emits.
\<close>

datatype api_error = NotFound | Conflict | AlreadyExists | NoMatch | OtherError string

datatype obj =
    OIngress ingress
  | ORoute http_route
  | OGateway gateway
  | OGrant reference_grant
  | OService service
  | OConfigMap config_map
  | OCRD crd
  | OIngressClass ingress_class
  | ONamespace string
  | OUnstructured unstructured

datatype kind =
    KIngress | KRoute | KGateway | KGrant | KService | KConfigMap | KCRD | KIngressClass | KNamespace
  | KUnstructured string string  \<comment> \<open>version and kind\<close>

text \<open>
  A list in the empty namespace lists every namespace. \<open>Delete\<close> carries whether the
  orphan propagation policy was asked for.
\<close>

text \<open>The counters of \<open>internal/metrics\<close>, each with the labels operation or reason, namespace and name.\<close>

datatype metric_vec =
    GatewayResourcesTotal
  | HTTPRouteResourcesTotal
  | ReferenceGrantResourcesTotal
  | IngressReconcileSkipsTotal

datatype call =
    Get kind string string
  | ListAll kind string
  | Create obj
  | Update obj
  | UpdateStatus obj
  | Delete kind string string bool
  | Event string string string
  | Metric metric_vec string string string

datatype reply = RErr api_error | RObj obj | RList "obj list" | ROk

type_synonym server = "call list \<Rightarrow> reply"

text \<open>The world: the calls made so far and the process-wide CRD version cache.\<close>

record world =
  w_log :: "call list"
  w_crdVersions :: "string gomap"

type_synonym 'a result = "api_error + 'a"

text \<open>An error the code returns: one the API gave, or a message of its own around it.\<close>

datatype go_error = ApiError api_error | Wrapped string go_error | Message string

type_synonym 'a go_result = "go_error + 'a"

definition do_call :: "server \<Rightarrow> call \<Rightarrow> world \<Rightarrow> reply \<times> world" where
  "do_call srv c w = (let l = c # w_log w in (srv l, w\<lparr>w_log := l\<rparr>))"

text \<open>An entry that is only recorded: an event or a metric, with no reply.\<close>

definition emit :: "call \<Rightarrow> world \<Rightarrow> world" where
  "emit c w = w\<lparr>w_log := c # w_log w\<rparr>"

text \<open>A reply that does not decode into the requested type is an error of the client.\<close>

definition decode :: "(obj \<Rightarrow> 'a option) \<Rightarrow> reply \<Rightarrow> 'a result" where
  "decode f r = (case r of
     RErr e \<Rightarrow> Inl e
   | RObj x \<Rightarrow> (case f x of Some a \<Rightarrow> Inr a | None \<Rightarrow> Inl (OtherError ''decode''))
   | _ \<Rightarrow> Inl (OtherError ''decode''))"

definition decode_list :: "(obj \<Rightarrow> 'a option) \<Rightarrow> reply \<Rightarrow> 'a list result" where
  "decode_list f r = (case r of
     RErr e \<Rightarrow> Inl e
   | RList xs \<Rightarrow> Inr (List.map_filter f xs)
   | _ \<Rightarrow> Inl (OtherError ''decode''))"

text \<open>A write answers with an error or with success; \<open>RObj\<close> carries the stored object.\<close>

definition write_error :: "reply \<Rightarrow> api_error option" where
  "write_error r = (case r of RErr e \<Rightarrow> Some e | _ \<Rightarrow> None)"

fun as_ingress :: "obj \<Rightarrow> ingress option" where
  "as_ingress (OIngress x) = Some x" | "as_ingress _ = None"

fun as_route :: "obj \<Rightarrow> http_route option" where
  "as_route (ORoute x) = Some x" | "as_route _ = None"

fun as_gateway :: "obj \<Rightarrow> gateway option" where
  "as_gateway (OGateway x) = Some x" | "as_gateway _ = None"

fun as_grant :: "obj \<Rightarrow> reference_grant option" where
  "as_grant (OGrant x) = Some x" | "as_grant _ = None"

fun as_service :: "obj \<Rightarrow> service option" where
  "as_service (OService x) = Some x" | "as_service _ = None"

fun as_configmap :: "obj \<Rightarrow> config_map option" where
  "as_configmap (OConfigMap x) = Some x" | "as_configmap _ = None"

fun as_crd :: "obj \<Rightarrow> crd option" where
  "as_crd (OCRD x) = Some x" | "as_crd _ = None"

fun as_unstructured :: "obj \<Rightarrow> unstructured option" where
  "as_unstructured (OUnstructured x) = Some x" | "as_unstructured _ = None"

fun as_ingress_class :: "obj \<Rightarrow> ingress_class option" where
  "as_ingress_class (OIngressClass x) = Some x" | "as_ingress_class _ = None"

fun as_namespace :: "obj \<Rightarrow> string option" where
  "as_namespace (ONamespace n) = Some n" | "as_namespace _ = None"

fun obj_kind :: "obj \<Rightarrow> kind" where
  "obj_kind (OIngress _) = KIngress"
| "obj_kind (ORoute _) = KRoute"
| "obj_kind (OGateway _) = KGateway"
| "obj_kind (OGrant _) = KGrant"
| "obj_kind (OService _) = KService"
| "obj_kind (OConfigMap _) = KConfigMap"
| "obj_kind (OCRD _) = KCRD"
| "obj_kind (OIngressClass _) = KIngressClass"
| "obj_kind (ONamespace _) = KNamespace"
| "obj_kind (OUnstructured u) = KUnstructured (u_version u) (u_kind u)"

fun obj_key :: "obj \<Rightarrow> string \<times> string" where
  "obj_key (OIngress x) = (m_namespace (i_meta x), m_name (i_meta x))"
| "obj_key (ORoute x) = (m_namespace (hr_meta x), m_name (hr_meta x))"
| "obj_key (OGateway x) = (m_namespace (gw_meta x), m_name (gw_meta x))"
| "obj_key (OGrant x) = (m_namespace (rg_meta x), m_name (rg_meta x))"
| "obj_key (OService x) = (m_namespace (svc_meta x), m_name (svc_meta x))"
| "obj_key (OConfigMap x) = (m_namespace (cm_meta x), m_name (cm_meta x))"
| "obj_key (OCRD x) = ([], crd_name x)"
| "obj_key (OIngressClass x) = ([], ic_name x)"
| "obj_key (ONamespace n) = ([], n)"
| "obj_key (OUnstructured x) = (m_namespace (u_meta x), m_name (u_meta x))"

fun obj_annotations :: "obj \<Rightarrow> string gomap" where
  "obj_annotations (OIngress x) = m_annotations (i_meta x)"
| "obj_annotations (ORoute x) = m_annotations (hr_meta x)"
| "obj_annotations (OGateway x) = m_annotations (gw_meta x)"
| "obj_annotations (OGrant x) = m_annotations (rg_meta x)"
| "obj_annotations (OService x) = m_annotations (svc_meta x)"
| "obj_annotations (OConfigMap x) = m_annotations (cm_meta x)"
| "obj_annotations (OUnstructured x) = m_annotations (u_meta x)"
| "obj_annotations _ = []"

text \<open>The calls a run of the code added to the world, oldest first.\<close>

definition calls_since :: "world \<Rightarrow> world \<Rightarrow> call list" where
  "calls_since w w' = rev (take (length (w_log w') - length (w_log w)) (w_log w'))"

fun is_write :: "call \<Rightarrow> bool" where
  "is_write (Create _) = True"
| "is_write (Update _) = True"
| "is_write (UpdateStatus _) = True"
| "is_write (Delete _ _ _ _) = True"
| "is_write _ = False"

section \<open>A concrete server\<close>

text \<open>
  A server that keeps what is written to it: the store is the history replayed over the
  initial objects. It instantiates the parameter where a statement needs reads to return
  earlier writes, and in examples.
\<close>

definition obj_is :: "kind \<Rightarrow> string \<Rightarrow> string \<Rightarrow> obj \<Rightarrow> bool" where
  "obj_is k ns name x \<longleftrightarrow> obj_kind x = k \<and> obj_key x = (ns, name)"

definition same_obj :: "obj \<Rightarrow> obj \<Rightarrow> bool" where
  "same_obj x y \<longleftrightarrow> obj_kind x = obj_kind y \<and> obj_key x = obj_key y"

fun store_step :: "call \<Rightarrow> obj list \<Rightarrow> obj list" where
  "store_step (Create x) s = (if list_ex (same_obj x) s then s else x # s)"
| "store_step (Update x) s = map (\<lambda>y. if same_obj x y then x else y) s"
| "store_step (Delete k ns name _) s = filter (\<lambda>y. \<not> obj_is k ns name y) s"
| "store_step _ s = s"

definition store_of :: "obj list \<Rightarrow> call list \<Rightarrow> obj list" where
  "store_of init log = foldr store_step log init"

definition stored :: "obj list \<Rightarrow> kind \<Rightarrow> string \<Rightarrow> string \<Rightarrow> obj option" where
  "stored s k ns name = find (obj_is k ns name) s"

fun answer :: "call \<Rightarrow> obj list \<Rightarrow> reply" where
  "answer (Get k ns name) s = (case stored s k ns name of None \<Rightarrow> RErr NotFound | Some x \<Rightarrow> RObj x)"
| "answer (ListAll k ns) s =
     RList (filter (\<lambda>x. obj_kind x = k \<and> (ns = [] \<or> fst (obj_key x) = ns)) s)"
| "answer (Create x) s = (if list_ex (same_obj x) s then RErr AlreadyExists else RObj x)"
| "answer (Update x) s = (if list_ex (same_obj x) s then RObj x else RErr NotFound)"
| "answer (UpdateStatus x) s = (if list_ex (same_obj x) s then RObj x else RErr NotFound)"
| "answer (Delete k ns name _) s = (if list_ex (obj_is k ns name) s then ROk else RErr NotFound)"
| "answer _ s = ROk"

definition mem_server :: "obj list \<Rightarrow> server" where
  "mem_server init l = (case l of [] \<Rightarrow> ROk | c # log \<Rightarrow> answer c (store_of init log))"

section \<open>Lemmas\<close>

lemma mem_server_Cons [simp]: "mem_server init (c # log) = answer c (store_of init log)"
  by (simp add: mem_server_def)

lemma store_of_Cons [simp]: "store_of init (c # log) = store_step c (store_of init log)"
  by (simp add: store_of_def)

lemma store_of_Nil [simp]: "store_of init [] = init"
  by (simp add: store_of_def)

lemma obj_is_same: "obj_is k ns n x \<Longrightarrow> same_obj x y \<longleftrightarrow> obj_is k ns n y"
  by (auto simp: obj_is_def same_obj_def)

lemma stored_Create:
  "\<not> list_ex (same_obj x) s \<Longrightarrow>
   stored (store_step (Create x) s) k ns n = (if obj_is k ns n x then Some x else stored s k ns n)"
  by (simp add: stored_def)

lemma stored_is: "stored s k ns n = Some x \<Longrightarrow> x \<in> set s \<and> obj_is k ns n x"
  unfolding stored_def by (induction s) (auto split: if_splits)

lemma stored_None_iff: "stored s k ns n = None \<longleftrightarrow> \<not> list_ex (obj_is k ns n) s"
  by (auto simp: stored_def find_None_iff list_ex_iff)

lemma same_obj_is: "same_obj x = obj_is (obj_kind x) (fst (obj_key x)) (snd (obj_key x))"
  by (auto simp: fun_eq_iff same_obj_def obj_is_def)

lemma list_ex_same_obj:
  "list_ex (same_obj x) s \<longleftrightarrow> stored s (obj_kind x) (fst (obj_key x)) (snd (obj_key x)) \<noteq> None"
  unfolding same_obj_is by (simp add: stored_None_iff)

lemma stored_Delete [simp]:
  "stored (store_step (Delete k ns n b) s) k' ns' n' =
     (if k' = k \<and> ns' = ns \<and> n' = n then None else stored s k' ns' n')"
proof -
  have "find (obj_is k' ns' n') (filter (\<lambda>y. \<not> obj_is k ns n y) s) =
    (if k' = k \<and> ns' = ns \<and> n' = n then None else find (obj_is k' ns' n') s)"
    unfolding obj_is_def by (induction s) auto
  then show ?thesis by (simp add: stored_def)
qed

lemma stored_other [simp]:
  "stored (store_step (Get k ns n) s) = stored s"
  "stored (store_step (ListAll k ns) s) = stored s"
  "stored (store_step (UpdateStatus x) s) = stored s"
  "stored (store_step (Event a b c) s) = stored s"
  "stored (store_step (Metric v a b c) s) = stored s"
  by (simp_all add: fun_eq_iff)

lemma obj_is_constructors [simp]:
  "obj_is k ns n (ORoute r) \<longleftrightarrow> k = KRoute \<and> m_namespace (hr_meta r) = ns \<and> m_name (hr_meta r) = n"
  "obj_is k ns n (OConfigMap m) \<longleftrightarrow> k = KConfigMap \<and> m_namespace (cm_meta m) = ns \<and> m_name (cm_meta m) = n"
  "obj_is k ns n (OGrant g) \<longleftrightarrow> k = KGrant \<and> m_namespace (rg_meta g) = ns \<and> m_name (rg_meta g) = n"
  "obj_is k ns n (OGateway gw) \<longleftrightarrow> k = KGateway \<and> m_namespace (gw_meta gw) = ns \<and> m_name (gw_meta gw) = n"
  "obj_is k ns n (OIngress i) \<longleftrightarrow> k = KIngress \<and> m_namespace (i_meta i) = ns \<and> m_name (i_meta i) = n"
  "obj_is k ns n (OService v) \<longleftrightarrow> k = KService \<and> m_namespace (svc_meta v) = ns \<and> m_name (svc_meta v) = n"
  "obj_is k ns n (OUnstructured u) \<longleftrightarrow> k = KUnstructured (u_version u) (u_kind u) \<and>
     m_namespace (u_meta u) = ns \<and> m_name (u_meta u) = n"
  by (auto simp: obj_is_def)

lemma obj_is_cases:
  "obj_is KRoute ns n x \<Longrightarrow> \<exists>r. x = ORoute r"
  "obj_is KConfigMap ns n x \<Longrightarrow> \<exists>m. x = OConfigMap m"
  "obj_is KGrant ns n x \<Longrightarrow> \<exists>g. x = OGrant g"
  "obj_is KGateway ns n x \<Longrightarrow> \<exists>g. x = OGateway g"
  "obj_is KIngress ns n x \<Longrightarrow> \<exists>i. x = OIngress i"
  "obj_is KService ns n x \<Longrightarrow> \<exists>v. x = OService v"
  "obj_is (KUnstructured v k) ns n x \<Longrightarrow> \<exists>u. x = OUnstructured u"
  by (cases x; simp add: obj_is_def)+

lemma stored_Update:
  "list_ex (same_obj x) s \<Longrightarrow>
   stored (store_step (Update x) s) k ns n = (if obj_is k ns n x then Some x else stored s k ns n)"
proof -
  have "obj_is k ns n x \<Longrightarrow> list_ex (obj_is k ns n) s \<Longrightarrow>
      find (obj_is k ns n) (map (\<lambda>y. if same_obj x y then x else y) s) = Some x"
    by (induction s) (auto simp: obj_is_same)
  moreover have "\<not> obj_is k ns n x \<Longrightarrow>
      find (obj_is k ns n) (map (\<lambda>y. if same_obj x y then x else y) s) = find (obj_is k ns n) s"
    by (induction s) (auto simp: obj_is_def same_obj_def)
  moreover assume "list_ex (same_obj x) s"
  moreover from this have "list_ex (obj_is k ns n) s" if "obj_is k ns n x"
    using that by (auto simp: list_ex_iff obj_is_same)
  ultimately show ?thesis by (simp add: stored_def)
qed

lemma fst_do_call [simp]: "fst (do_call srv c w) = srv (c # w_log w)"
  by (simp add: do_call_def Let_def)

lemma log_do_call [simp]: "w_log (snd (do_call srv c w)) = c # w_log w"
  by (simp add: do_call_def Let_def)

lemma log_emit [simp]: "w_log (emit c w) = c # w_log w"
  by (simp add: emit_def)

lemma do_call_eq: "do_call srv c w = (r, w') \<longleftrightarrow> r = srv (c # w_log w) \<and> w' = w\<lparr>w_log := c # w_log w\<rparr>"
  by (auto simp: do_call_def Let_def)

lemma calls_since_append: "w_log w' = rev cs @ w_log w \<Longrightarrow> calls_since w w' = cs"
  by (simp add: calls_since_def)

text \<open>A store holds each object once.\<close>

definition wf_store :: "obj list \<Rightarrow> bool" where
  "wf_store s \<longleftrightarrow> distinct (map (\<lambda>x. (obj_kind x, obj_key x)) s)"

lemma wf_store_step: "wf_store s \<Longrightarrow> wf_store (store_step c s)"
proof (cases c)
  case (Create x)
  assume "wf_store s"
  then show ?thesis using Create by (auto simp: wf_store_def list_ex_iff same_obj_def)
next
  case (Update x)
  assume "wf_store s"
  moreover have "map (\<lambda>x. (obj_kind x, obj_key x)) (map (\<lambda>y. if same_obj x y then x else y) s) =
      map (\<lambda>x. (obj_kind x, obj_key x)) s"
    by (auto simp: same_obj_def)
  ultimately show ?thesis using Update by (simp add: wf_store_def del: map_map)
next
  case (Delete k ns n b)
  assume "wf_store s"
  then show ?thesis using Delete by (auto simp: wf_store_def distinct_map intro: inj_on_subset)
qed auto

lemma wf_store_of: "wf_store init \<Longrightarrow> wf_store (store_of init log)"
  by (induction log) (simp_all add: wf_store_step)

lemma stored_in_set: "wf_store s \<Longrightarrow> x \<in> set s \<Longrightarrow> obj_is k ns n x \<Longrightarrow> stored s k ns n = Some x"
  unfolding stored_def wf_store_def by (induction s) (auto simp: obj_is_def)

declare store_step.simps(1-3) [simp del]

end
