(* ===== verification/Utils_Basic.thy ===== *)
theory Utils_Basic
  imports Api
begin

text \<open>
  The small helpers of \<open>internal/utils\<close>: \<open>strings.go\<close>, \<open>slice.go\<close> and
  \<open>resource.go\<close> (who manages a resource, and the guard before every write), with the
  comma-separated source list that ties a derived resource to its Ingresses.
\<close>

section \<open>Lists of strings\<close>

text \<open>The body of the loop in \<open>ParseCommaSeparatedList\<close>, with its \<open>seen\<close> set.\<close>

fun comma_loop :: "string list \<Rightarrow> string list \<Rightarrow> string list" where
  "comma_loop seen [] = []"
| "comma_loop seen (part # parts) =
     (let t = TrimSpace part
      in if t = [] \<or> t \<in> set seen then comma_loop seen parts
         else t # comma_loop (t # seen) parts)"

definition ParseCommaSeparatedList :: "string \<Rightarrow> string list" where
  "ParseCommaSeparatedList raw =
     (if TrimSpace raw = [] then [] else comma_loop [] (Split '','' raw))"

fun ContainsString :: "string list \<Rightarrow> string \<Rightarrow> bool" where
  "ContainsString [] s = False"
| "ContainsString (item # items) s = (if item = s then True else ContainsString items s)"

fun RemoveString :: "string list \<Rightarrow> string \<Rightarrow> string list" where
  "RemoveString [] s = []"
| "RemoveString (item # items) s =
     (if item \<noteq> s then item # RemoveString items s else RemoveString items s)"

section \<open>Ownership of resources\<close>

definition ManagedByAnnotation :: string where
  "ManagedByAnnotation = ''ingress-doperator.fiction.si/managed-by''"

definition ManagedByValue :: string where
  "ManagedByValue = ''ingress-doperator''"

definition SourceAnnotation :: string where
  "SourceAnnotation = ''ingress-doperator.fiction.si/source''"

text \<open>The argument is the annotation map of the object.\<close>

definition IsManagedByUs :: "string gomap \<Rightarrow> bool" where
  "IsManagedByUs annotations \<longleftrightarrow> mget annotations ManagedByAnnotation = ManagedByValue"

definition source_key :: "string \<Rightarrow> string \<Rightarrow> string" where
  "source_key ns name = ns @ ''/'' @ name"

definition IsManagedByUsForIngress :: "string gomap \<Rightarrow> string \<Rightarrow> string \<Rightarrow> bool" where
  "IsManagedByUsForIngress annotations ingressNamespace ingressName \<longleftrightarrow>
     (if mget annotations ManagedByAnnotation \<noteq> ManagedByValue then False
      else mget annotations SourceAnnotation = source_key ingressNamespace ingressName)"

fun splitSources_loop :: "string list \<Rightarrow> string list" where
  "splitSources_loop [] = []"
| "splitSources_loop (s # rest) =
     (let trimmed = TrimSpace s
      in if trimmed \<noteq> [] then trimmed # splitSources_loop rest else splitSources_loop rest)"

definition splitSources :: "string \<Rightarrow> string list" where
  "splitSources sources = splitSources_loop (Split '','' sources)"

definition IsManagedByUsWithIngress :: "string gomap \<Rightarrow> string \<Rightarrow> string \<Rightarrow> bool" where
  "IsManagedByUsWithIngress annotations ingressNamespace ingressName \<longleftrightarrow>
     (if mget annotations ManagedByAnnotation \<noteq> ManagedByValue then False
      else let sourceAnnotation = mget annotations SourceAnnotation
           in if sourceAnnotation = [] then False
              else list_ex (\<lambda>source. source = source_key ingressNamespace ingressName)
                     (splitSources sourceAnnotation))"

text \<open>
  The guard before a write: the object does not exist, or it is ours. The second component is
  the object the call read into its argument.
\<close>

definition CanUpdateResource ::
  "server \<Rightarrow> (obj \<Rightarrow> 'a option) \<Rightarrow> ('a \<Rightarrow> string gomap) \<Rightarrow> kind \<Rightarrow> string \<Rightarrow> string
    \<Rightarrow> world \<Rightarrow> (bool \<times> 'a option) result \<times> world" where
  "CanUpdateResource srv as ann k ns name w =
     (let (r, w1) = do_call srv (Get k ns name) w
      in case decode as r of
           Inl e \<Rightarrow> (if e = NotFound then Inr (True, None) else Inl e, w1)
         | Inr x \<Rightarrow> (if \<not> IsManagedByUs (ann x) then Inr (False, Some x)
                    else Inr (True, Some x), w1))"

section \<open>The source list as a contract\<close>

text \<open>
  Two functions of the code read a source annotation (\<open>splitSources\<close> here and
  \<open>getSourcesFromAnnotation\<close> in the HTTPRoute controller). Their contract: the trimmed,
  non-empty parts between commas, in order.
\<close>

definition wf_source :: "string \<Rightarrow> bool" where
  "wf_source s \<longleftrightarrow> s \<noteq> [] \<and> trimmed s \<and> CHR '','' \<notin> set s"

locale source_codec =
  fixes split :: "string \<Rightarrow> string list"
  assumes split_tokens: "split s = filter (\<lambda>x. x \<noteq> []) (map TrimSpace (Split '','' s))"
begin

lemma split_Nil: "split [] = []"
  by (simp add: split_tokens Split_single_None)

lemma split_Join:
  assumes "\<And>x. x \<in> set xs \<Longrightarrow> wf_source x"
  shows "split (Join '','' xs) = xs"
proof (cases "xs = []")
  case True
  then show ?thesis by (simp add: split_Nil)
next
  case False
  then have "Split '','' (Join '','' xs) = xs"
    by (rule Split_Join_single) (use assms in \<open>simp add: wf_source_def\<close>)
  moreover have "map TrimSpace xs = xs"
    by (rule map_idI) (use assms in \<open>simp add: wf_source_def\<close>)
  ultimately show ?thesis
    using assms by (simp add: split_tokens wf_source_def)
qed

lemma split_wf: "x \<in> set (split s) \<Longrightarrow> wf_source x"
  using Split_single_pieces set_TrimSpace
  by (auto simp: split_tokens wf_source_def) (metis subsetD)

lemma split_stable: "split (Join '','' (split s)) = split s"
  by (rule split_Join) (rule split_wf)

end

section \<open>Lemmas\<close>

lemma splitSources_loop_tokens:
  "splitSources_loop parts = filter (\<lambda>x. x \<noteq> []) (map TrimSpace parts)"
  by (induction parts) (auto simp: Let_def)

interpretation ss: source_codec splitSources
  by unfold_locales (simp add: splitSources_def splitSources_loop_tokens)

definition comma_tok :: "string \<Rightarrow> string option" where
  "comma_tok part = (let t = TrimSpace part in if t = [] then None else Some t)"

interpretation cl: seen_loop comma_loop comma_tok
  by unfold_locales (auto simp: comma_tok_def Let_def)

lemma comma_loop_uniq:
  "comma_loop [] parts = uniq [] (filter (\<lambda>x. x \<noteq> []) (map TrimSpace parts))"
proof -
  have "List.map_filter comma_tok parts = filter (\<lambda>x. x \<noteq> []) (map TrimSpace parts)"
    by (induction parts) (auto simp: comma_tok_def Let_def List.map_filter_simps)
  then show ?thesis by (simp add: cl.loop_uniq)
qed

lemma Split_blank:
  assumes "TrimSpace s = []"
  shows "filter (\<lambda>x. x \<noteq> []) (map TrimSpace (Split '','' s)) = []"
proof -
  have "\<not> is_space (CHR '','')" by (simp add: is_space_def)
  with assms have "CHR '','' \<notin> set s" by (auto simp: TrimSpace_eq_Nil)
  with assms show ?thesis by (simp add: Split_single_None)
qed

lemma ParseCommaSeparatedList_uniq:
  "ParseCommaSeparatedList raw = uniq [] (splitSources raw)"
  using Split_blank [of raw]
  by (auto simp: ParseCommaSeparatedList_def comma_loop_uniq splitSources_def
      splitSources_loop_tokens)

lemma ContainsString_iff [simp]: "ContainsString xs s \<longleftrightarrow> s \<in> set xs"
  by (induction xs) auto

lemma RemoveString_filter [simp]: "RemoveString xs s = filter (\<lambda>x. x \<noteq> s) xs"
  by (induction xs) auto

lemma source_key_inject:
  "CHR ''/'' \<notin> set ns \<Longrightarrow> CHR ''/'' \<notin> set ns' \<Longrightarrow>
   source_key ns name = source_key ns' name' \<longleftrightarrow> ns = ns' \<and> name = name'"
  unfolding source_key_def
  by (metis Cut_single_append append_Cons append_Nil option.inject prod.inject)

lemma managed_key_neq [simp]:
  "ManagedByAnnotation \<noteq> SourceAnnotation" "SourceAnnotation \<noteq> ManagedByAnnotation"
  by (simp_all add: ManagedByAnnotation_def SourceAnnotation_def)

lemma ManagedByValue_nonempty [simp]: "ManagedByValue \<noteq> []" "[] \<noteq> ManagedByValue"
  by (simp_all add: ManagedByValue_def)

lemma IsManagedByUs_Nil [simp]: "\<not> IsManagedByUs []"
  by (simp add: IsManagedByUs_def)

lemma ForIngress_managed: "IsManagedByUsForIngress a ns n \<Longrightarrow> IsManagedByUs a"
  by (auto simp: IsManagedByUsForIngress_def IsManagedByUs_def split: if_splits)

lemma WithIngress_managed: "IsManagedByUsWithIngress a ns n \<Longrightarrow> IsManagedByUs a"
  by (auto simp: IsManagedByUsWithIngress_def IsManagedByUs_def split: if_splits)

lemma WithIngress_iff:
  "IsManagedByUsWithIngress a ns n \<longleftrightarrow>
     IsManagedByUs a \<and> source_key ns n \<in> set (splitSources (mget a SourceAnnotation))"
  by (auto simp: IsManagedByUsWithIngress_def IsManagedByUs_def list_ex_iff Let_def ss.split_Nil)

lemma ForIngress_WithIngress:
  "IsManagedByUsForIngress a ns n \<Longrightarrow> wf_source (source_key ns n) \<Longrightarrow> IsManagedByUsWithIngress a ns n"
  using ss.split_Join [of "[source_key ns n]"]
  by (auto simp: WithIngress_iff IsManagedByUsForIngress_def IsManagedByUs_def split: if_splits)

lemma CanUpdateResource_log [simp]:
  "w_log (snd (CanUpdateResource srv as ann k ns name w)) = Get k ns name # w_log w"
  by (auto simp: CanUpdateResource_def do_call_def Let_def split: sum.splits)

section \<open>Writers that respect ownership\<close>

text \<open>
  The contract of every operation that writes derived resources: against a store that keeps
  its writes, an object that is not marked as managed by the operator stays as it is. The
  contract is closed under running the operation on any number of arguments.
\<close>

abbreviation stored_in :: "obj list \<Rightarrow> world \<Rightarrow> kind \<Rightarrow> string \<Rightarrow> string \<Rightarrow> obj option" where
  "stored_in init w \<equiv> stored (store_of init (w_log w))"

definition unmanaged_at :: "obj list \<Rightarrow> world \<Rightarrow> kind \<Rightarrow> string \<Rightarrow> string \<Rightarrow> obj \<Rightarrow> bool" where
  "unmanaged_at init w k ns n y \<longleftrightarrow> stored_in init w k ns n = Some y \<and> \<not> IsManagedByUs (obj_annotations y)"

locale managed_writer =
  fixes run :: "server \<Rightarrow> 'x \<Rightarrow> world \<Rightarrow> 'r \<times> world"
  assumes keeps: "wf_store init \<Longrightarrow> unmanaged_at init w k ns n y \<Longrightarrow> unmanaged_at init (snd (run (mem_server init) x w)) k ns n y"
begin

lemma keeps_all:
  "wf_store init \<Longrightarrow> unmanaged_at init w k ns n y \<Longrightarrow>
   unmanaged_at init (fold (\<lambda>x w. snd (run (mem_server init) x w)) xs w) k ns n y"
  by (induction xs arbitrary: w) (simp_all add: keeps)

end

end
