(* ===== verification/Translator.thy ===== *)
theory Translator
  imports Canary Glob Utils_Basic
begin

text \<open>
  \<open>internal/translator/translator.go\<close> and \<open>annotations_by_class.go\<close>: from an Ingress
  to a Gateway and an HTTPRoute. The translator has no state but its configuration, which
  every operation takes as its first argument. Where the code ranges over a map it built, the
  iteration order is the argument \<open>ord\<close>. The \<open>ingress2gateway\<close> library is not part of
  the repository: the conversion it does is the argument \<open>i2gw\<close> of the one mode that uses
  it.
\<close>

section \<open>Annotations by class\<close>

fun class_pairs :: "string list \<Rightarrow> string gomap \<Rightarrow> string + string gomap" where
  "class_pairs [] annotations = Inr annotations"
| "class_pairs (p # ps) annotations =
     (let pair = TrimSpace p
      in if pair = [] then class_pairs ps annotations
         else case SplitN2 ''='' pair of
                [k, v] \<Rightarrow>
                  (let key = TrimSpace k
                   in if key = []
                      then Inl (''invalid annotations-by-class pair '' @ Quote pair @ '' (empty key)'')
                      else class_pairs ps (mset_key key (TrimSpace v) annotations))
              | _ \<Rightarrow> Inl (''invalid annotations-by-class pair '' @ Quote pair @ '' (expected key=value)''))"

fun class_entries ::
  "string list \<Rightarrow> string + ingress_class_annotations_rule list" where
  "class_entries [] = Inr []"
| "class_entries (e # es) =
     (let entry = TrimSpace e;
          err = (\<lambda>what. Inl (''invalid annotations-by-class entry '' @ Quote entry @ what))
      in if entry = [] then class_entries es
         else case SplitN2 '':'' entry of
                [p, a] \<Rightarrow>
                  (let pattern = TrimSpace p; annotationsRaw = TrimSpace a
                   in if pattern = [] then err '' (empty pattern)''
                      else if annotationsRaw = [] then err '' (missing annotations)''
                      else case class_pairs (Split '','' annotationsRaw) [] of
                             Inl m \<Rightarrow> Inl m
                           | Inr annotations \<Rightarrow>
                               if annotations = [] then err '' (no valid annotations)''
                               else (case class_entries es of
                                       Inl m \<Rightarrow> Inl m
                                     | Inr rules \<Rightarrow>
                                         Inr (\<lparr>car_pattern = pattern, car_annotations = annotations\<rparr> # rules)))
              | _ \<Rightarrow> err '' (expected pattern:kv,kv)'')"

definition ParseIngressClassAnnotationsByClass ::
  "string \<Rightarrow> string + ingress_class_annotations_rule list" where
  "ParseIngressClassAnnotationsByClass raw0 =
     (let raw = TrimSpace raw0 in if raw = [] then Inr [] else class_entries (Split '';'' raw))"

text \<open>
  The two loops over the rules. The first decides, the second applies; a malformed pattern is
  skipped by both.
\<close>

definition should_apply_step ::
  "string \<Rightarrow> ingress_class_annotations_rule \<Rightarrow> bool \<times> bool \<Rightarrow> bool \<times> bool" where
  "should_apply_step ingressClass rule st =
     (let (hasFallback, matchedNonFallback) = st
      in if car_pattern rule = [] then st
         else if car_pattern rule = ''!''
         then (if car_annotations rule \<noteq> [] then (True, matchedNonFallback) else st)
         else case Match (car_pattern rule) ingressClass of
                None \<Rightarrow> st
              | Some matched \<Rightarrow>
                  if matched \<and> car_annotations rule \<noteq> [] then (hasFallback, True) else st)"

definition shouldApplyClassInfrastructureAnnotations :: "translator_config \<Rightarrow> string \<Rightarrow> bool" where
  "shouldApplyClassInfrastructureAnnotations cfg ingressClass =
     (let (hasFallback, matchedNonFallback) =
            fold (should_apply_step ingressClass) (InfrastructureAnnotationsByClass cfg) (False, False)
      in if matchedNonFallback then True else hasFallback)"

definition apply_class_step ::
  "string \<Rightarrow> ingress_class_annotations_rule \<Rightarrow> bool \<times> string gomap \<Rightarrow> bool \<times> string gomap" where
  "apply_class_step ingressClass rule st =
     (let (matchedNonFallback, annotations) = st
      in if car_pattern rule = [] then st
         else if car_pattern rule = ''!'' then st
         else case Match (car_pattern rule) ingressClass of
                None \<Rightarrow> st
              | Some matched \<Rightarrow>
                  if \<not> matched then st else (True, mcopy annotations (car_annotations rule)))"

definition applyClassInfrastructureAnnotations ::
  "translator_config \<Rightarrow> string \<Rightarrow> string gomap \<Rightarrow> string gomap" where
  "applyClassInfrastructureAnnotations cfg ingressClass annotations0 =
     (let (matchedNonFallback, annotations) =
            fold (apply_class_step ingressClass) (InfrastructureAnnotationsByClass cfg) (False, annotations0)
      in if matchedNonFallback then annotations
         else fold (\<lambda>rule m. if car_pattern rule \<noteq> ''!'' then m else mcopy m (car_annotations rule))
                (InfrastructureAnnotationsByClass cfg) annotations)"

section \<open>Annotations\<close>

definition MismatchedCertAnnotation :: string where
  "MismatchedCertAnnotation = ''ingress-doperator.fiction.si/certificate-mismatch''"

definition ReferenceGrantName :: string where
  "ReferenceGrantName = ''ingress-doperator-gateway-secrets''"

definition labelSelectorNamespaceKey :: string where
  "labelSelectorNamespaceKey = ''kubernetes.io/metadata.name''"

definition FilterAnnotations :: "string gomap \<Rightarrow> string list \<Rightarrow> string gomap" where
  "FilterAnnotations annotations filters =
     filter (\<lambda>(key, value). \<not> list_ex (\<lambda>flt. HasPrefix key flt) filters) annotations"

fun dedupe_nonempty_loop :: "string list \<Rightarrow> string list \<Rightarrow> string list" where
  "dedupe_nonempty_loop seen [] = []"
| "dedupe_nonempty_loop seen (v # vs) =
     (if v \<noteq> [] \<and> v \<notin> set seen then v # dedupe_nonempty_loop (v # seen) vs
      else dedupe_nonempty_loop seen vs)"

definition deduplicateAndJoin :: "string list \<Rightarrow> string" where
  "deduplicateAndJoin values =
     (case values of [] \<Rightarrow> [] | [v] \<Rightarrow> v | _ \<Rightarrow> Join '','' (dedupe_nonempty_loop [] values))"

section \<open>Header modifier filters\<close>

fun header_name_loop :: "string list \<Rightarrow> string list \<Rightarrow> string list" where
  "header_name_loop seen [] = []"
| "header_name_loop seen (part # parts) =
     (let name = TrimSpace part
      in if name = [] then header_name_loop seen parts
         else if name \<in> set seen then header_name_loop seen parts
         else name # header_name_loop (name # seen) parts)"

definition parseHeaderNameList :: "string \<Rightarrow> string list" where
  "parseHeaderNameList raw =
     (if TrimSpace raw = [] then [] else header_name_loop [] (Split '','' raw))"

fun header_value_loop :: "string list \<Rightarrow> string list \<Rightarrow> http_header list" where
  "header_value_loop seen [] = []"
| "header_value_loop seen (part # parts) =
     (let entry = TrimSpace part
      in if entry = [] then header_value_loop seen parts
         else case SplitN2 ''='' entry of
                [k, v] \<Rightarrow>
                  (let name = TrimSpace k; value = TrimSpace v; key = name @ [CHR 0x00] @ value
                   in if name = [] then header_value_loop seen parts
                      else if key \<in> set seen then header_value_loop seen parts
                      else \<lparr>h_name = name, h_value = value\<rparr> # header_value_loop (key # seen) parts)
              | _ \<Rightarrow> header_value_loop seen parts)"

definition parseHeaderNameValueList :: "string \<Rightarrow> http_header list" where
  "parseHeaderNameValueList raw =
     (if TrimSpace raw = [] then [] else header_value_loop [] (Split '','' raw))"

definition header_annotation :: "string \<Rightarrow> string" where
  "header_annotation what = ''ingress-doperator.fiction.si/'' @ what"

definition header_filter ::
  "http_header list \<Rightarrow> http_header list \<Rightarrow> string list \<Rightarrow> http_header_filter option" where
  "header_filter adds sets removes =
     (if adds \<noteq> [] \<or> sets \<noteq> [] \<or> removes \<noteq> []
      then Some \<lparr>hf_add = adds, hf_set = sets, hf_remove = removes\<rparr> else None)"

definition buildHeaderModifierFilters ::
  "string gomap \<Rightarrow> http_route_filter option \<times> http_route_filter option" where
  "buildHeaderModifierFilters annotations =
     (let get = (\<lambda>what. mget annotations (header_annotation what));
          requestFilter = header_filter (parseHeaderNameValueList (get ''request-header-add''))
            (parseHeaderNameValueList (get ''request-header-set''))
            (parseHeaderNameList (get ''request-header-remove''));
          responseFilter = header_filter (parseHeaderNameValueList (get ''response-header-add''))
            (parseHeaderNameValueList (get ''response-header-set''))
            (parseHeaderNameList (get ''response-header-remove''))
      in (map_option RequestHeaderModifier requestFilter,
          map_option ResponseHeaderModifier responseFilter))"

definition collectFilters ::
  "http_route_filter option \<Rightarrow> http_route_filter option \<Rightarrow> http_route_filter list" where
  "collectFilters request response =
     (case request of None \<Rightarrow> [] | Some f \<Rightarrow> [f]) @ (case response of None \<Rightarrow> [] | Some f \<Rightarrow> [f])"

section \<open>HTTPRoutes\<close>

definition buildPathMatch :: "ingress_path \<Rightarrow> http_route_match \<times> bool" where
  "buildPathMatch path =
     (if ip_path path = [] then (empty_match, False)
      else let pathMatchType = (case ip_pathType path of
                 None \<Rightarrow> PathMatchPathPrefix
               | Some PathTypeExact \<Rightarrow> PathMatchExact
               | Some PathTypeImplementationSpecific \<Rightarrow> PathMatchPathPrefix
               | Some PathTypePrefix \<Rightarrow> PathMatchPathPrefix)
           in (empty_match\<lparr>rm_path := Some (pathMatchType, ip_path path)\<rparr>, True))"

definition plainRule ::
  "http_route_match \<Rightarrow> bool \<Rightarrow> http_backend_ref option \<Rightarrow> http_route_filter list \<Rightarrow> http_route_rule" where
  "plainRule match hasPath ref filters =
     \<lparr>rr_matches = baseMatches match hasPath, rr_filters = filters,
      rr_backendRefs = (case ref of None \<Rightarrow> [] | Some r \<Rightarrow> [r])\<rparr>"

definition path_rules ::
  "canary_entry gomap \<Rightarrow> http_route_filter list \<Rightarrow> ingress_path \<Rightarrow> http_route_rule list" where
  "path_rules canaryEntries filters path =
     (let (match, hasPath) = buildPathMatch path
      in case (map_of canaryEntries (ip_path path), backendRefFromPath path) of
           (Some entry, Some primaryRef) \<Rightarrow> buildCanaryRules match hasPath primaryRef entry filters
         | (_, ref) \<Rightarrow> [plainRule match hasPath ref filters])"

definition buildHTTPRouteRules ::
  "ingress \<Rightarrow> canary_entry gomap \<Rightarrow> http_route_filter list \<Rightarrow> http_route_rule list" where
  "buildHTTPRouteRules ing canaryEntries filters =
     concat (map (\<lambda>rule. case ir_http rule of None \<Rightarrow> []
                         | Some paths \<Rightarrow> concat (map (path_rules canaryEntries filters) paths))
       (i_rules ing))"

definition route_hostnames :: "translator_config \<Rightarrow> ingress \<Rightarrow> string list" where
  "route_hostnames cfg ing =
     map (\<lambda>rule. TransformHostname cfg (ir_host rule)) (filter (\<lambda>rule. ir_host rule \<noteq> []) (i_rules ing))"

definition TranslateToHTTPRouteWithCanaries ::
  "translator_config \<Rightarrow> ingress \<Rightarrow> ingress list \<Rightarrow> http_route" where
  "TranslateToHTTPRouteWithCanaries cfg ing canaries =
     (let annotations = FilterAnnotations (i_annotations ing) (HTTPRouteAnnotationFilters cfg);
          annotations = mset_key ManagedByAnnotation ManagedByValue annotations;
          annotations = mset_key SourceAnnotation (source_key (i_namespace ing) (i_name ing)) annotations;
          hostnames = route_hostnames cfg ing;
          parentRefs = map (\<lambda>hostname. \<lparr>pr_name = GatewayName cfg,
            pr_namespace = Some (GatewayNamespace cfg), pr_sectionName = Some hostname\<rparr>) hostnames;
          (requestFilter, responseFilter) = buildHeaderModifierFilters (i_annotations ing);
          filters = collectFilters requestFilter responseFilter;
          canaryEntries = collectCanaryEntries canaries
      in \<lparr>hr_meta = empty_meta\<lparr>m_name := i_name ing, m_namespace := i_namespace ing,
            m_annotations := annotations\<rparr>,
          hr_hostnames = hostnames, hr_parentRefs = parentRefs,
          hr_rules = buildHTTPRouteRules ing canaryEntries filters\<rparr>)"

definition TranslateToHTTPRoute :: "translator_config \<Rightarrow> ingress \<Rightarrow> http_route" where
  "TranslateToHTTPRoute cfg ing = TranslateToHTTPRouteWithCanaries cfg ing []"

section \<open>Gateways\<close>

definition empty_gateway :: gateway where
  "empty_gateway = \<lparr>gw_meta = empty_meta, gw_className = [], gw_infrastructure = None, gw_listeners = []\<rparr>"

definition findTLSConfigForHostInIngress :: "ingress \<Rightarrow> string \<Rightarrow> ingress_tls option" where
  "findTLSConfigForHostInIngress ing host =
     find (\<lambda>tls. list_ex (\<lambda>tlsHost. tlsHost = host) (tls_hosts tls)) (i_tls ing)"

definition mismatch_entry :: "string \<Rightarrow> string \<Rightarrow> string \<Rightarrow> string \<Rightarrow> string \<Rightarrow> string \<Rightarrow> string" where
  "mismatch_entry hostname transformed ns secret newNs newSecret =
     hostname @ ''->'' @ transformed @ '': '' @ ns @ ''/'' @ secret @ ''->'' @ newNs @ ''/'' @ newSecret"

definition terminate_tls :: "string \<Rightarrow> string \<Rightarrow> listener_tls" where
  "terminate_tls secretName secretNamespace =
     \<lparr>lt_mode = Some ''Terminate'',
      lt_certificateRefs = [\<lparr>sec_name = secretName, sec_namespace = Some secretNamespace\<rparr>]\<rparr>"

text \<open>The body of the loop over the hostnames: the listener, and a mismatch to report.\<close>

definition gateway_listener ::
  "translator_config \<Rightarrow> string \<Rightarrow> string \<times> ingress_tls option \<Rightarrow> listener \<times> string list" where
  "gateway_listener cfg namespace entry =
     (let (hostname, tlsConfig) = entry;
          transformedHostname = TransformHostname cfg hostname;
          lst = \<lparr>l_name = transformedHostname, l_hostname = Some transformedHostname, l_port = 443,
            l_protocol = ''HTTPS'', l_tls = None,
            l_allowedRoutes = Some (Some \<lparr>rn_from = Some ''Selector'',
              rn_selector = Some \<lparr>ls_matchLabels = Some [(labelSelectorNamespaceKey, namespace)],
                ls_matchExpressions = []\<rparr>\<rparr>)\<rparr>
      in case tlsConfig of
           None \<Rightarrow> (lst, [])
         | Some tls \<Rightarrow>
             if tls_secretName tls = [] then (lst, [])
             else if hostname \<noteq> transformedHostname \<and>
                     \<not> CheckCertificateMatch hostname transformedHostname (tls_hosts tls)
             then let newSecretName = generateSafeSecretName namespace transformedHostname
                  in (lst\<lparr>l_tls := Some (terminate_tls newSecretName (GatewayNamespace cfg))\<rparr>,
                      [mismatch_entry hostname transformedHostname namespace (tls_secretName tls)
                         (GatewayNamespace cfg) newSecretName])
             else (lst\<lparr>l_tls := Some (terminate_tls (tls_secretName tls) namespace)\<rparr>, []))"

definition hostname_map :: "ingress \<Rightarrow> ingress_tls option gomap" where
  "hostname_map ing =
     fold (\<lambda>rule m. if ir_host rule \<noteq> []
                    then mset_key (ir_host rule) (findTLSConfigForHostInIngress ing (ir_host rule)) m
                    else m)
       (i_rules ing) []"

definition infrastructure_annotations :: "translator_config \<Rightarrow> string \<Rightarrow> string gomap option" where
  "infrastructure_annotations cfg ingressClass =
     (let applyClassAnnotations = shouldApplyClassInfrastructureAnnotations cfg ingressClass
      in if GatewayInfrastructureAnnotations cfg \<noteq> [] \<or> applyClassAnnotations
         then let m = mcopy [] (GatewayInfrastructureAnnotations cfg)
              in Some (if applyClassAnnotations
                       then applyClassInfrastructureAnnotations cfg ingressClass m else m)
         else None)"

definition TranslateToGateway ::
  "((string \<times> ingress_tls option) list \<Rightarrow> (string \<times> ingress_tls option) list)
    \<Rightarrow> translator_config \<Rightarrow> ingress \<Rightarrow> gateway" where
  "TranslateToGateway ord cfg ing =
     (let className = (if GatewayClassName cfg = [] then ''nginx'' else GatewayClassName cfg);
          annotations = FilterAnnotations (i_annotations ing) (GatewayAnnotationFilters cfg);
          annotations = mcopy annotations (DefaultGatewayAnnotations cfg);
          annotations = mset_key ManagedByAnnotation ManagedByValue annotations;
          annotations = mset_key SourceAnnotation (source_key (i_namespace ing) (i_name ing)) annotations;
          results = map (gateway_listener cfg (i_namespace ing)) (ord (hostname_map ing));
          certMismatches = concat (map snd results);
          annotations = (if certMismatches \<noteq> []
            then mset_key MismatchedCertAnnotation (Join ''; '' certMismatches) annotations
            else annotations)
      in \<lparr>gw_meta = empty_meta\<lparr>m_name := GatewayName cfg, m_namespace := GatewayNamespace cfg,
            m_annotations := annotations\<rparr>,
          gw_className = className,
          gw_infrastructure = infrastructure_annotations cfg (GetIngressClass ing),
          gw_listeners = map fst results\<rparr>)"

section \<open>The shared Gateway\<close>

definition newSharedGateway :: "translator_config \<Rightarrow> string \<Rightarrow> gateway" where
  "newSharedGateway cfg gatewayName =
     empty_gateway\<lparr>gw_meta := empty_meta\<lparr>m_name := gatewayName, m_namespace := GatewayNamespace cfg\<rparr>,
       gw_className := GatewayClassName cfg\<rparr>"

definition append_value :: "string \<times> string \<Rightarrow> string list gomap \<Rightarrow> string list gomap" where
  "append_value kv m =
     (case kv of (k, v) \<Rightarrow>
        mset_key k ((case map_of m k of None \<Rightarrow> [] | Some vs \<Rightarrow> vs) @ [v]) m)"

definition applySharedGatewayAnnotations ::
  "translator_config \<Rightarrow> gateway \<Rightarrow> ingress list \<Rightarrow> gateway" where
  "applySharedGatewayAnnotations cfg gw ings =
     (let annotationValues = fold (\<lambda>ing m. fold append_value
            (FilterAnnotations (i_annotations ing) (GatewayAnnotationFilters cfg)) m) ings [];
          annotations = map (\<lambda>(k, vs). (k, deduplicateAndJoin vs)) annotationValues;
          annotations = mcopy annotations (DefaultGatewayAnnotations cfg);
          annotations = mset_key ManagedByAnnotation ManagedByValue annotations;
          sourceNames = map (\<lambda>ing. source_key (i_namespace ing) (i_name ing)) ings;
          annotations = mset_key SourceAnnotation (Join '','' sourceNames) annotations
      in gw\<lparr>gw_meta := (gw_meta gw)\<lparr>m_annotations := annotations\<rparr>\<rparr>)"

definition applySharedGatewayInfrastructure ::
  "translator_config \<Rightarrow> gateway \<Rightarrow> ingress list \<Rightarrow> gateway" where
  "applySharedGatewayInfrastructure cfg gw ings =
     (let applyClassAnnotations =
            list_ex (\<lambda>ing. shouldApplyClassInfrastructureAnnotations cfg (GetIngressClass ing)) ings
      in if GatewayInfrastructureAnnotations cfg = [] \<and> \<not> applyClassAnnotations then gw
         else let m = mcopy [] (GatewayInfrastructureAnnotations cfg);
                  m = (if applyClassAnnotations
                       then fold (\<lambda>ing m. applyClassInfrastructureAnnotations cfg (GetIngressClass ing) m) ings m
                       else m)
              in gw\<lparr>gw_infrastructure := Some m\<rparr>)"

record shared_hostname_info =
  sh_tls :: "ingress_tls option"
  sh_namespaces :: "string list"

definition shared_rule_step ::
  "ingress \<Rightarrow> ingress_rule \<Rightarrow> shared_hostname_info gomap \<Rightarrow> shared_hostname_info gomap" where
  "shared_rule_step ing rule m =
     (if ir_host rule = [] then m
      else let tlsConfig = findTLSConfigForHostInIngress ing (ir_host rule);
               info = (case map_of m (ir_host rule) of
                         None \<Rightarrow> \<lparr>sh_tls = None, sh_namespaces = []\<rparr> | Some i \<Rightarrow> i);
               info = info\<lparr>sh_namespaces := List.insert (i_namespace ing) (sh_namespaces info)\<rparr>;
               info = (if sh_tls info = None \<and> tlsConfig \<noteq> None then info\<lparr>sh_tls := tlsConfig\<rparr> else info)
           in mset_key (ir_host rule) info m)"

definition collectSharedHostnameInfo :: "ingress list \<Rightarrow> shared_hostname_info gomap" where
  "collectSharedHostnameInfo ings = fold (\<lambda>ing m. fold (shared_rule_step ing) (i_rules ing) m) ings []"

definition shared_listener ::
  "translator_config \<Rightarrow> string \<times> shared_hostname_info \<Rightarrow> listener \<times> string list" where
  "shared_listener cfg entry =
     (let (hostname, info) = entry;
          transformedHostname = TransformHostname cfg hostname;
          namespacesForHostname = sort (sh_namespaces info);
          primaryNamespace = (case namespacesForHostname of [] \<Rightarrow> [] | ns # _ \<Rightarrow> ns);
          lst = \<lparr>l_name = transformedHostname, l_hostname = Some transformedHostname, l_port = 443,
            l_protocol = ''HTTPS'', l_tls = None,
            l_allowedRoutes = Some (Some \<lparr>rn_from = Some ''Selector'',
              rn_selector = Some \<lparr>ls_matchLabels = None,
                ls_matchExpressions = [\<lparr>sr_key = labelSelectorNamespaceKey, sr_operator = ''In'',
                  sr_values = namespacesForHostname\<rparr>]\<rparr>\<rparr>)\<rparr>
      in case sh_tls info of
           None \<Rightarrow> (lst, [])
         | Some tls \<Rightarrow>
             if tls_secretName tls = [] then (lst, [])
             else if hostname \<noteq> transformedHostname \<and>
                     \<not> CheckCertificateMatch hostname transformedHostname (tls_hosts tls)
             then let newSecretName =
                        automatic_name primaryNamespace (ReplaceAll transformedHostname ''.'' ''-'')
                  in (lst\<lparr>l_tls := Some (terminate_tls newSecretName (GatewayNamespace cfg))\<rparr>,
                      [mismatch_entry hostname transformedHostname primaryNamespace
                         (tls_secretName tls) (GatewayNamespace cfg) newSecretName])
             else (lst\<lparr>l_tls := Some (terminate_tls (tls_secretName tls) primaryNamespace)\<rparr>, []))"

definition buildSharedGatewayListeners where
  "buildSharedGatewayListeners ord cfg ings =
     (let results = map (shared_listener cfg) (ord (collectSharedHostnameInfo ings))
      in (map fst results, concat (map snd results)))"

definition TranslateMultipleToSharedGateway ::
  "((string \<times> shared_hostname_info) list \<Rightarrow> (string \<times> shared_hostname_info) list)
    \<Rightarrow> translator_config \<Rightarrow> ingress list \<Rightarrow> string \<Rightarrow> gateway" where
  "TranslateMultipleToSharedGateway ord cfg ings gatewayName =
     (let gw = newSharedGateway cfg gatewayName;
          gw = applySharedGatewayAnnotations cfg gw ings;
          gw = applySharedGatewayInfrastructure cfg gw ings;
          (listeners, certMismatches) = buildSharedGatewayListeners ord cfg ings;
          gw = (if certMismatches \<noteq> []
                then gw\<lparr>gw_meta := (gw_meta gw)\<lparr>m_annotations :=
                  mset_key MismatchedCertAnnotation (Join ''; '' certMismatches) (gw_annotations gw)\<rparr>\<rparr>
                else gw)
      in gw\<lparr>gw_listeners := listeners\<rparr>)"

section \<open>Reference grants\<close>

definition GetNamespacesWithTLS ::
  "(string list \<Rightarrow> string list) \<Rightarrow> translator_config \<Rightarrow> ingress list \<Rightarrow> string list" where
  "GetNamespacesWithTLS ord cfg ings =
     ord (fold (\<lambda>ing m. if i_tls ing = [] then m
                        else if i_namespace ing = GatewayNamespace cfg then m
                        else List.insert (i_namespace ing) m) ings [])"

definition CreateReferenceGrant :: "translator_config \<Rightarrow> string \<Rightarrow> ingress list \<Rightarrow> reference_grant" where
  "CreateReferenceGrant cfg ingressNamespace ings =
     \<lparr>rg_meta = empty_meta\<lparr>m_name := ReferenceGrantName, m_namespace := ingressNamespace,
        m_annotations := [(ManagedByAnnotation, ManagedByValue),
          (SourceAnnotation, Join '','' (map (\<lambda>ing. source_key (i_namespace ing) (i_name ing)) ings))]\<rparr>,
      rg_from = [\<lparr>gf_group = ''gateway.networking.k8s.io'', gf_kind = ''Gateway'',
        gf_namespace = GatewayNamespace cfg\<rparr>],
      rg_to = [\<lparr>gt_group = [], gt_kind = ''Secret''\<rparr>]\<rparr>"

section \<open>The ingress2gateway mode\<close>

definition mock_service :: "ingress \<Rightarrow> ingress_service \<Rightarrow> service" where
  "mock_service ing svc =
     \<lparr>svc_meta = empty_meta\<lparr>m_name := is_name svc, m_namespace := i_namespace ing\<rparr>,
      svc_ports =
        (if sp_number (is_port svc) > 0
         then [\<lparr>sp_name = ''port-'' @ show_int (sp_number (is_port svc)), sp_number = sp_number (is_port svc)\<rparr>]
         else if sp_name (is_port svc) \<noteq> []
         then [\<lparr>sp_name = sp_name (is_port svc), sp_number = 80\<rparr>]
         else [])\<rparr>"

definition extractServicesFromIngress ::
  "((string \<times> service) list \<Rightarrow> (string \<times> service) list) \<Rightarrow> ingress \<Rightarrow> service list" where
  "extractServicesFromIngress ord ing =
     (let path_step = (\<lambda>path m. case ip_service path of None \<Rightarrow> m
            | Some svc \<Rightarrow> if mhas m (is_name svc) then m
                         else mset_key (is_name svc) (mock_service ing svc) m);
          serviceMap = fold (\<lambda>rule m. case ir_http rule of None \<Rightarrow> m
            | Some paths \<Rightarrow> fold path_step paths m) (i_rules ing) []
      in map snd (ord serviceMap))"

text \<open>
  What the library returns for an Ingress and its mock Services: an error while reading, or
  the Gateways (in the order their map is ranged over) and the HTTPRoutes by namespace and name.
\<close>

type_synonym i2gw_lib =
  "string \<Rightarrow> string \<Rightarrow> ingress \<Rightarrow> service list
    \<Rightarrow> string + gateway list \<times> ((string \<times> string) \<times> http_route) list"

definition i2gw_gateway :: "translator_config \<Rightarrow> ingress \<Rightarrow> gateway \<Rightarrow> gateway" where
  "i2gw_gateway cfg ing gw =
     (let annotations = mcopy (gw_annotations gw)
            (FilterAnnotations (i_annotations ing) (GatewayAnnotationFilters cfg));
          annotations = mcopy annotations (DefaultGatewayAnnotations cfg);
          annotations = mset_key ManagedByAnnotation ManagedByValue annotations;
          annotations = mset_key SourceAnnotation (source_key (i_namespace ing) (i_name ing)) annotations;
          ingressClass = GetIngressClass ing;
          applyClassAnnotations = shouldApplyClassInfrastructureAnnotations cfg ingressClass;
          infra = (if GatewayInfrastructureAnnotations cfg \<noteq> [] \<or> applyClassAnnotations
            then let m = mcopy (case gw_infrastructure gw of None \<Rightarrow> [] | Some i \<Rightarrow> i)
                           (GatewayInfrastructureAnnotations cfg)
                 in Some (if applyClassAnnotations
                          then applyClassInfrastructureAnnotations cfg ingressClass m else m)
            else gw_infrastructure gw)
      in gw\<lparr>gw_meta := (gw_meta gw)\<lparr>m_name := GatewayName cfg, m_namespace := GatewayNamespace cfg,
              m_annotations := annotations\<rparr>,
            gw_className := (if GatewayClassName cfg \<noteq> [] then GatewayClassName cfg else gw_className gw),
            gw_infrastructure := infra\<rparr>)"

definition i2gw_route :: "translator_config \<Rightarrow> ingress \<Rightarrow> http_route \<Rightarrow> http_route" where
  "i2gw_route cfg ing route =
     (let annotations = mcopy (hr_annotations route)
            (FilterAnnotations (i_annotations ing) (HTTPRouteAnnotationFilters cfg));
          annotations = mset_key ManagedByAnnotation ManagedByValue annotations;
          annotations = mset_key SourceAnnotation (source_key (i_namespace ing) (i_name ing)) annotations
      in route\<lparr>hr_meta := (hr_meta route)\<lparr>m_annotations := annotations\<rparr>,
               hr_parentRefs := map (\<lambda>ref. ref\<lparr>pr_name := GatewayName cfg,
                 pr_namespace := Some (GatewayNamespace cfg)\<rparr>) (hr_parentRefs route)\<rparr>)"

definition translateWithIngress2Gateway ::
  "i2gw_lib \<Rightarrow> ((string \<times> service) list \<Rightarrow> (string \<times> service) list)
    \<Rightarrow> translator_config \<Rightarrow> ingress \<Rightarrow> string + gateway \<times> http_route" where
  "translateWithIngress2Gateway i2gw sord cfg ing =
     (let services = extractServicesFromIngress sord ing;
          provider = Ingress2GatewayProvider cfg
      in if provider \<noteq> ''ingress-nginx'' \<and> provider \<noteq> []
         then Inl (''unsupported ingress2gateway provider: '' @ provider)
         else case i2gw provider (Ingress2GatewayIngressClass cfg) ing services of
                Inl e \<Rightarrow> Inl (''failed to read resources: '' @ e)
              | Inr (gateways, routes) \<Rightarrow>
                  (case (gateways, map_of routes (i_namespace ing, i_name ing)) of
                     (gw # _, Some route) \<Rightarrow> Inr (i2gw_gateway cfg ing gw, i2gw_route cfg ing route)
                   | _ \<Rightarrow> Inl ''ingress2gateway did not produce expected Gateway/HTTPRoute resources''))"

definition Translate where
  "Translate i2gw sord ord cfg ing =
     (if UseIngress2Gateway cfg then translateWithIngress2Gateway i2gw sord cfg ing
      else Inr (TranslateToGateway ord cfg ing, TranslateToHTTPRoute cfg ing))"

section \<open>Lemmas\<close>

lemma mget_FilterAnnotations:
  "mget (FilterAnnotations m filters) k = (if list_ex (HasPrefix k) filters then [] else mget m k)"
proof -
  have "map_of (FilterAnnotations m filters) k = (if list_ex (HasPrefix k) filters then None else map_of m k)"
    unfolding FilterAnnotations_def by (induction m) auto
  then show ?thesis by (simp add: mget_def)
qed

lemma wf_FilterAnnotations [simp]: "wf_map m \<Longrightarrow> wf_map (FilterAnnotations m filters)"
  by (simp add: FilterAnnotations_def)

lemma mget_mcopy: "wf_map src \<Longrightarrow> mget (mcopy dst src) k = (if mhas src k then mget src k else mget dst k)"
  by (auto simp: mget_def mhas_def map_add_def split: option.splits)

lemma MismatchedCert_neq [simp]:
  "ManagedByAnnotation \<noteq> MismatchedCertAnnotation" "SourceAnnotation \<noteq> MismatchedCertAnnotation"
  "MismatchedCertAnnotation \<noteq> ManagedByAnnotation" "MismatchedCertAnnotation \<noteq> SourceAnnotation"
  by (simp_all add: ManagedByAnnotation_def SourceAnnotation_def MismatchedCertAnnotation_def)

lemma hostname_map_mcopy:
  "hostname_map ing = mcopy [] (map (\<lambda>rule. (ir_host rule, findTLSConfigForHostInIngress ing (ir_host rule)))
     (filter (\<lambda>rule. ir_host rule \<noteq> []) (i_rules ing)))"
  by (simp add: hostname_map_def fold_if_filter mcopy_map)

lemma set_hostname_map_keys:
  "fst ` set (hostname_map ing) = {ir_host rule |rule. rule \<in> set (i_rules ing) \<and> ir_host rule \<noteq> []}"
  by (force simp: hostname_map_mcopy mcopy_keys)

lemma wf_hostname_map: "wf_map (hostname_map ing)"
  by (simp add: hostname_map_mcopy)

lemma hostname_map_tls:
  "(h, tls) \<in> set (hostname_map ing) \<Longrightarrow> tls = findTLSConfigForHostInIngress ing h"
  by (auto simp: hostname_map_mcopy dest!: mcopy_in [rotated])

lemma gateway_listener_name [simp]:
  "l_name (fst (gateway_listener cfg ns (h, tls))) = TransformHostname cfg h"
  "l_hostname (fst (gateway_listener cfg ns (h, tls))) = Some (TransformHostname cfg h)"
  by (simp_all add: gateway_listener_def Let_def split: option.splits)

lemma gw_listeners_translate:
  "gw_listeners (TranslateToGateway ord cfg ing) =
     map (\<lambda>e. fst (gateway_listener cfg (i_namespace ing) e)) (ord (hostname_map ing))"
  by (simp add: TranslateToGateway_def Let_def)

lemma gateway_listener_names:
  assumes "is_order ord"
  shows "set (map l_name (gw_listeners (TranslateToGateway ord cfg ing))) = set (route_hostnames cfg ing)"
proof -
  have "set (map l_name (gw_listeners (TranslateToGateway ord cfg ing)))
      = TransformHostname cfg ` fst ` set (hostname_map ing)"
    using assms by (force simp: gw_listeners_translate)
  then show ?thesis by (auto simp: set_hostname_map_keys route_hostnames_def)
qed

interpretation dn: seen_loop dedupe_nonempty_loop "\<lambda>v. if v = [] then None else Some v"
  by unfold_locales auto

interpretation hn: seen_loop header_name_loop comma_tok
  by unfold_locales (auto simp: comma_tok_def Let_def)

lemma header_name_loop_comma: "header_name_loop = comma_loop"
  by (intro ext) (simp add: hn.loop_uniq cl.loop_uniq)

lemma parseHeaderNameList_eq: "parseHeaderNameList = ParseCommaSeparatedList"
  by (intro ext) (simp add: parseHeaderNameList_def ParseCommaSeparatedList_def header_name_loop_comma)

text \<open>The rules of a path without canaries, and all paths of an Ingress in order.\<close>

definition ingress_paths :: "ingress \<Rightarrow> ingress_path list" where
  "ingress_paths ing = concat (map (\<lambda>rule. case ir_http rule of None \<Rightarrow> [] | Some ps \<Rightarrow> ps) (i_rules ing))"

lemma buildHTTPRouteRules_paths:
  "buildHTTPRouteRules ing entries filters = concat (map (path_rules entries filters) (ingress_paths ing))"
proof -
  have "concat (map (\<lambda>rule. case ir_http rule of None \<Rightarrow> []
      | Some ps \<Rightarrow> concat (map (path_rules entries filters) ps)) rules) =
    concat (map (path_rules entries filters)
      (concat (map (\<lambda>rule. case ir_http rule of None \<Rightarrow> [] | Some ps \<Rightarrow> ps) rules)))" for rules
    by (induction rules) (auto split: option.splits)
  then show ?thesis by (simp add: buildHTTPRouteRules_def ingress_paths_def)
qed

lemma path_rules_plain:
  "path_rules [] filters = (\<lambda>path.
     [plainRule (fst (buildPathMatch path)) (snd (buildPathMatch path)) (backendRefFromPath path) filters])"
  by (simp add: fun_eq_iff path_rules_def case_prod_beta)

lemma gateway_listener_tls:
  "l_tls (fst (gateway_listener cfg ns (h, tls))) =
     (case tls of None \<Rightarrow> None
      | Some t \<Rightarrow> if tls_secretName t = [] then None
                  else if CheckCertificateMatch h (TransformHostname cfg h) (tls_hosts t)
                  then Some (terminate_tls (tls_secretName t) ns)
                  else Some (terminate_tls (generateSafeSecretName ns (TransformHostname cfg h)) (GatewayNamespace cfg)))"
  by (auto simp: gateway_listener_def Let_def CheckCertificateMatch_def split: option.splits)

lemma gateway_listener_mismatch:
  "snd (gateway_listener cfg ns (h, tls)) =
     (case tls of None \<Rightarrow> []
      | Some t \<Rightarrow> if tls_secretName t = [] \<or> CheckCertificateMatch h (TransformHostname cfg h) (tls_hosts t) then []
                  else [mismatch_entry h (TransformHostname cfg h) ns (tls_secretName t) (GatewayNamespace cfg)
                          (generateSafeSecretName ns (TransformHostname cfg h))])"
  by (auto simp: gateway_listener_def Let_def CheckCertificateMatch_def split: option.splits)

lemma mismatch_reported:
  assumes "e \<in> set (concat (map (\<lambda>x. snd (gateway_listener cfg (i_namespace ing) x)) (ord (hostname_map ing))))"
  shows "sublist e (mget (gw_annotations (TranslateToGateway ord cfg ing)) MismatchedCertAnnotation)"
proof -
  let ?ms = "concat (map (\<lambda>x. snd (gateway_listener cfg (i_namespace ing) x)) (ord (hostname_map ing)))"
  have "?ms \<noteq> []" using assms by force
  then have "mget (gw_annotations (TranslateToGateway ord cfg ing)) MismatchedCertAnnotation = Join ''; '' ?ms"
    by (simp add: TranslateToGateway_def Let_def comp_def)
  with Join_sublist [OF assms] show ?thesis by simp
qed

text \<open>What the class rules add up to.\<close>

abbreviation class_matches :: "string \<Rightarrow> ingress_class_annotations_rule \<Rightarrow> bool" where
  "class_matches c rule \<equiv> car_pattern rule \<noteq> [] \<and> car_pattern rule \<noteq> ''!'' \<and>
     Match (car_pattern rule) c = Some True"

lemma should_apply_fold:
  "fold (should_apply_step c) rules (fb, nf) =
     (fb \<or> (\<exists>r \<in> set rules. car_pattern r = ''!'' \<and> car_annotations r \<noteq> []),
      nf \<or> (\<exists>r \<in> set rules. class_matches c r \<and> car_annotations r \<noteq> []))"
  by (induction rules arbitrary: fb nf)
     (auto simp: should_apply_step_def Let_def split: option.splits)

lemma shouldApply_iff:
  "shouldApplyClassInfrastructureAnnotations cfg c \<longleftrightarrow>
     (\<exists>r \<in> set (InfrastructureAnnotationsByClass cfg).
        (class_matches c r \<or> car_pattern r = ''!'') \<and> car_annotations r \<noteq> [])"
  by (auto simp: shouldApplyClassInfrastructureAnnotations_def should_apply_fold)

lemma apply_class_fold:
  "fold (apply_class_step c) rules (nf, m) =
     (nf \<or> (\<exists>r \<in> set rules. class_matches c r),
      fold (\<lambda>r m. mcopy m (car_annotations r)) (filter (class_matches c) rules) m)"
  by (induction rules arbitrary: nf m)
     (auto simp: apply_class_step_def Let_def split: option.splits)

lemma fold_mcopy_empty:
  "(\<And>r. r \<in> set rules \<Longrightarrow> car_annotations r = []) \<Longrightarrow>
   fold (\<lambda>r m. mcopy m (car_annotations r)) rules m = m"
  by (induction rules arbitrary: m) auto

lemma applyClass_spec:
  "applyClassInfrastructureAnnotations cfg c m =
     (let rules = InfrastructureAnnotationsByClass cfg;
          chosen = (if \<exists>r \<in> set rules. class_matches c r then filter (class_matches c) rules
                    else filter (\<lambda>r. car_pattern r = ''!'') rules)
      in fold (\<lambda>r m. mcopy m (car_annotations r)) chosen m)"
proof -
  have "fold (\<lambda>r m. if car_pattern r \<noteq> ''!'' then m else mcopy m (car_annotations r)) rules m =
    fold (\<lambda>r m. mcopy m (car_annotations r)) (filter (\<lambda>r. car_pattern r = ''!'') rules) m" for rules m
    by (induction rules arbitrary: m) auto
  moreover have "filter (class_matches c) rules = []" if "\<not> (\<exists>r \<in> set rules. class_matches c r)" for rules
    using that by (auto simp: filter_empty_conv)
  ultimately show ?thesis
    by (auto simp: applyClassInfrastructureAnnotations_def apply_class_fold Let_def)
qed

section \<open>Properties\<close>

definition example_config :: translator_config where
  "example_config = empty_config\<lparr>GatewayNamespace := ''gw'', GatewayName := ''main'',
     HostnameRewriteFrom := ''domain.cc'', HostnameRewriteTo := ''new.domain.cc''\<rparr>"

text \<open>
  C16. The route and the Gateway made from one Ingress fit together, whatever the order in which
  the hostname map is ranged over: the route has one hostname and one parent reference per
  rule with a host, each reference points to this Gateway and to the section of a listener for
  exactly that hostname, and every listener is the section of some reference.
\<close>

theorem route_attaches_to_gateway:
  assumes "is_order ord"
  shows "let gw = TranslateToGateway ord cfg ing;
             route = TranslateToHTTPRouteWithCanaries cfg ing canaries
    in map pr_sectionName (hr_parentRefs route) = map Some (hr_hostnames route) \<and>
       (\<forall>ref \<in> set (hr_parentRefs route).
          pr_name ref = m_name (gw_meta gw) \<and> pr_namespace ref = Some (m_namespace (gw_meta gw)) \<and>
          (\<exists>l \<in> set (gw_listeners gw). pr_sectionName ref = Some (l_name l) \<and>
             l_hostname l = pr_sectionName ref)) \<and>
       (\<forall>l \<in> set (gw_listeners gw). l_name l \<in> set (hr_hostnames route))"
proof -
  let ?gw = "TranslateToGateway ord cfg ing" and ?r = "TranslateToHTTPRouteWithCanaries cfg ing canaries"
  have names: "set (map l_name (gw_listeners ?gw)) = set (route_hostnames cfg ing)"
    using assms by (rule gateway_listener_names)
  have host: "l_hostname l = Some (l_name l)" if "l \<in> set (gw_listeners ?gw)" for l
    using that by (auto simp: gw_listeners_translate)
  have refs: "hr_parentRefs ?r = map (\<lambda>h. \<lparr>pr_name = GatewayName cfg,
      pr_namespace = Some (GatewayNamespace cfg), pr_sectionName = Some h\<rparr>) (route_hostnames cfg ing)"
    and hosts: "hr_hostnames ?r = route_hostnames cfg ing"
    by (simp_all add: TranslateToHTTPRouteWithCanaries_def Let_def split: prod.splits)
  have meta: "m_name (gw_meta ?gw) = GatewayName cfg" "m_namespace (gw_meta ?gw) = GatewayNamespace cfg"
    by (simp_all add: TranslateToGateway_def Let_def)
  have "\<exists>l \<in> set (gw_listeners ?gw). h = l_name l \<and> l_hostname l = Some h"
    if "h \<in> set (route_hostnames cfg ing)" for h
    using that host unfolding names [symmetric] by auto
  moreover have "l_name l \<in> set (route_hostnames cfg ing)" if "l \<in> set (gw_listeners ?gw)" for l
    using that unfolding names [symmetric] by simp
  ultimately show ?thesis by (auto simp: Let_def refs hosts meta)
qed

theorem route_attaches_to_gateway_witness:
  "l_name ` set (gw_listeners (TranslateToGateway rev example_config example_ingress)) \<subseteq>
     set (hr_hostnames (TranslateToHTTPRoute example_config example_ingress))"
  using route_attaches_to_gateway [of rev example_config example_ingress "[]"]
  by (auto simp: Let_def TranslateToHTTPRoute_def)

text \<open>
  Listener names are unique whenever rewriting does not merge two hosts of the Ingress; the
  Gateway API requires unique listener names.
\<close>

theorem listener_names_distinct:
  assumes "is_order ord" and "inj_on (TransformHostname cfg) (ir_host ` set (i_rules ing))"
  shows "distinct (map l_name (gw_listeners (TranslateToGateway ord cfg ing)))"
proof -
  have "map l_name (gw_listeners (TranslateToGateway ord cfg ing)) =
      map (TransformHostname cfg) (map fst (ord (hostname_map ing)))"
    by (auto simp: gw_listeners_translate)
  moreover have "distinct (map fst (ord (hostname_map ing)))"
    using assms(1) wf_hostname_map by (simp add: is_order_distinct_map)
  moreover have "set (map fst (ord (hostname_map ing))) \<subseteq> ir_host ` set (i_rules ing)"
    using assms(1) set_hostname_map_keys [of ing] by auto
  ultimately show ?thesis
    using assms(2) by (metis distinct_map inj_on_subset)
qed

theorem listener_names_distinct_witness:
  "distinct (map l_name (gw_listeners (TranslateToGateway rev example_config example_ingress)))"
  by (rule listener_names_distinct) (simp_all add: example_ingress_def)

text \<open>
  The annotations of a translated route, for every key: ours for the two ownership keys,
  nothing for a key with a filtered prefix, and otherwise what the Ingress has. So the route
  is always recognised as managed, and as belonging to this Ingress.
\<close>

theorem route_annotations:
  "(\<forall>k. mget (hr_annotations (TranslateToHTTPRouteWithCanaries cfg ing canaries)) k =
     (if k = SourceAnnotation then source_key (i_namespace ing) (i_name ing)
      else if k = ManagedByAnnotation then ManagedByValue
      else if list_ex (HasPrefix k) (HTTPRouteAnnotationFilters cfg) then []
      else mget (i_annotations ing) k)) \<and>
   IsManagedByUsForIngress (hr_annotations (TranslateToHTTPRouteWithCanaries cfg ing canaries))
     (i_namespace ing) (i_name ing)"
  by (simp add: TranslateToHTTPRouteWithCanaries_def Let_def mget_FilterAnnotations
      IsManagedByUsForIngress_def split: prod.splits)

text \<open>
  C30. Without canaries the route has exactly one rule per path of the Ingress, in order, and
  the rules do not depend on the hosts: a path listed under one host is served under every
  hostname of the route.
\<close>

theorem route_rules_ignore_hosts:
  "hr_rules (TranslateToHTTPRoute cfg ing) =
     map (\<lambda>path. plainRule (fst (buildPathMatch path)) (snd (buildPathMatch path)) (backendRefFromPath path)
            (collectFilters (fst (buildHeaderModifierFilters (i_annotations ing)))
               (snd (buildHeaderModifierFilters (i_annotations ing)))))
       (ingress_paths ing) \<and>
   hr_rules (TranslateToHTTPRoute cfg (ing\<lparr>i_rules := map (\<lambda>rule. rule\<lparr>ir_host := f rule\<rparr>) (i_rules ing)\<rparr>)) =
     hr_rules (TranslateToHTTPRoute cfg ing)"
proof -
  have rules: "hr_rules (TranslateToHTTPRoute cfg ing) =
     map (\<lambda>path. plainRule (fst (buildPathMatch path)) (snd (buildPathMatch path)) (backendRefFromPath path)
            (collectFilters (fst (buildHeaderModifierFilters (i_annotations ing)))
               (snd (buildHeaderModifierFilters (i_annotations ing)))))
       (ingress_paths ing)" for ing
    by (simp add: TranslateToHTTPRoute_def TranslateToHTTPRouteWithCanaries_def Let_def
        buildHTTPRouteRules_paths collectCanaryEntries_def path_rules_plain case_prod_beta)
  then show ?thesis unfolding rules by (simp add: ingress_paths_def comp_def)
qed



text \<open>
  The two passes over the class rules agree: when the first finds nothing to apply, the
  second adds nothing; and the second takes the matching rules in order, or the fallback rules
  when no rule matches.
\<close>

theorem class_annotations_agree:
  "(\<not> shouldApplyClassInfrastructureAnnotations cfg c \<longrightarrow>
      applyClassInfrastructureAnnotations cfg c m = m) \<and>
   applyClassInfrastructureAnnotations cfg c m =
     (let rules = InfrastructureAnnotationsByClass cfg;
          chosen = (if \<exists>r \<in> set rules. class_matches c r then filter (class_matches c) rules
                    else filter (\<lambda>r. car_pattern r = ''!'') rules)
      in fold (\<lambda>r m. mcopy m (car_annotations r)) chosen m)"
proof (intro conjI impI)
  assume "\<not> shouldApplyClassInfrastructureAnnotations cfg c"
  then show "applyClassInfrastructureAnnotations cfg c m = m"
    by (auto simp: applyClass_spec Let_def shouldApply_iff intro!: fold_mcopy_empty)
next
  show "applyClassInfrastructureAnnotations cfg c m =
     (let rules = InfrastructureAnnotationsByClass cfg;
          chosen = (if \<exists>r \<in> set rules. class_matches c r then filter (class_matches c) rules
                    else filter (\<lambda>r. car_pattern r = ''!'') rules)
      in fold (\<lambda>r m. mcopy m (car_annotations r)) chosen m)"
    by (rule applyClass_spec)
qed

theorem class_annotations_agree_witness:
  "applyClassInfrastructureAnnotations example_config ''nginx'' [] = []"
  using class_annotations_agree [of example_config "''nginx''" "[]"]
  by (simp add: example_config_def empty_config_def shouldApply_iff)

end
