(* ===== verification/Gateway_Utils.thy ===== *)
theory Gateway_Utils
  imports Translator
begin

text \<open>
  \<open>internal/translator/gateway_utils.go\<close>: merging the Gateway wanted by one Ingress into the
  existing one, and taking the listeners of an Ingress out again. The argument \<open>ord\<close> is the
  order in which Go ranges over the map a function built.
\<close>

section \<open>Merging values\<close>

definition add_trimmed :: "string \<Rightarrow> string list \<Rightarrow> string list" where
  "add_trimmed val values = (let trimmed = TrimSpace val
     in if trimmed \<noteq> [] then List.insert trimmed values else values)"

definition MergeCertificateMismatchAnnotation ::
  "(string list \<Rightarrow> string list) \<Rightarrow> string \<Rightarrow> string \<Rightarrow> string" where
  "MergeCertificateMismatchAnnotation ord existing desired =
     (if existing = [] then desired
      else if desired = [] then existing
      else let valuesMap = fold add_trimmed (Split '';'' existing) [];
               valuesMap = fold add_trimmed (Split '';'' desired) valuesMap
           in Join ''; '' (ord valuesMap))"

fun merge_loop :: "string list \<Rightarrow> string list \<Rightarrow> string list" where
  "merge_loop seenInResult [] = []"
| "merge_loop seenInResult (val # vals) =
     (let trimmed = TrimSpace val
      in if trimmed \<noteq> [] \<and> trimmed \<notin> set seenInResult
         then trimmed # merge_loop (trimmed # seenInResult) vals
         else merge_loop seenInResult vals)"

definition MergeAnnotationValues :: "string \<Rightarrow> string \<Rightarrow> string" where
  "MergeAnnotationValues existing desired =
     (if existing = [] then desired
      else if desired = [] then existing
      else let values = merge_loop [] (Split '','' existing);
               values = values @ merge_loop values (Split '','' desired)
           in Join '','' values)"

definition RemoveCertMismatchEntries :: "string \<Rightarrow> string gomap \<Rightarrow> string" where
  "RemoveCertMismatchEntries certMismatch hostnameMappings =
     (if certMismatch = [] then []
      else let shouldKeep = (\<lambda>trimmed. \<not> list_ex (\<lambda>(original, transformed).
                 HasPrefix trimmed (original @ ''->'' @ transformed @ '':'')) hostnameMappings);
               remainingEntries = filter (\<lambda>trimmed. trimmed \<noteq> [] \<and> shouldKeep trimmed)
                 (map TrimSpace (Split '';'' certMismatch))
           in if remainingEntries = [] then [] else Join ''; '' remainingEntries)"

section \<open>Merging Gateways\<close>

definition merge_annotation ::
  "(string list \<Rightarrow> string list) \<Rightarrow> string \<times> string \<Rightarrow> string gomap \<Rightarrow> string gomap" where
  "merge_annotation ord kv existing =
     (case kv of (k, v) \<Rightarrow>
        if k = MismatchedCertAnnotation
        then mset_key k (MergeCertificateMismatchAnnotation ord (mget existing k) v) existing
        else if k = SourceAnnotation
        then mset_key k (MergeAnnotationValues (mget existing k) v) existing
        else if HasPrefix k ''ingress-doperator.fiction.si/''
        then mset_key k v existing
        else mset_key k (MergeAnnotationValues (mget existing k) v) existing)"

definition merge_listeners :: "listener list \<Rightarrow> listener list \<Rightarrow> listener gomap" where
  "merge_listeners existing desired =
     (let m = fold (\<lambda>l m. mset_key (l_name l) l m) existing []
      in fold (\<lambda>l m. mset_key (l_name l) l m) desired m)"

definition MergeGatewaySpec ::
  "(string list \<Rightarrow> string list) \<Rightarrow> ((string \<times> listener) list \<Rightarrow> (string \<times> listener) list)
    \<Rightarrow> gateway \<Rightarrow> gateway \<Rightarrow> gateway" where
  "MergeGatewaySpec sord lord existing desired =
     existing\<lparr>
       gw_meta := (gw_meta existing)\<lparr>m_annotations :=
         fold (merge_annotation sord) (gw_annotations desired) (gw_annotations existing)\<rparr>,
       gw_className := gw_className desired,
       gw_infrastructure := (case gw_infrastructure desired of
           None \<Rightarrow> gw_infrastructure existing
         | Some d \<Rightarrow> Some (mcopy (case gw_infrastructure existing of None \<Rightarrow> [] | Some e \<Rightarrow> e) d)),
       gw_listeners := map snd (lord (merge_listeners (gw_listeners existing) (gw_listeners desired)))\<rparr>"

definition RemoveIngressListeners :: "translator_config \<Rightarrow> gateway \<Rightarrow> ingress \<Rightarrow> gateway" where
  "RemoveIngressListeners cfg gw ing =
     (let hosts = filter (\<lambda>rule. ir_host rule \<noteq> []) (i_rules ing);
          hostnamesToRemove = map (\<lambda>rule. TransformHostname cfg (ir_host rule)) hosts;
          originalToTransformed =
            fold (\<lambda>rule m. mset_key (ir_host rule) (TransformHostname cfg (ir_host rule)) m) hosts [];
          remainingListeners = filter (\<lambda>l. l_name l \<notin> set hostnamesToRemove) (gw_listeners gw);
          annotations = (case map_of (gw_annotations gw) MismatchedCertAnnotation of
              None \<Rightarrow> gw_annotations gw
            | Some certMismatch \<Rightarrow>
                mset_key MismatchedCertAnnotation
                  (RemoveCertMismatchEntries certMismatch originalToTransformed) (gw_annotations gw))
      in gw\<lparr>gw_listeners := remainingListeners, gw_meta := (gw_meta gw)\<lparr>m_annotations := annotations\<rparr>\<rparr>)"

section \<open>Lemmas\<close>

interpretation ml: seen_loop merge_loop comma_tok
  by unfold_locales (auto simp: comma_tok_def Let_def)

lemma merge_loop_uniq:
  "merge_loop seen parts = uniq seen (filter (\<lambda>x. x \<noteq> []) (map TrimSpace parts))"
proof -
  have "List.map_filter comma_tok parts = filter (\<lambda>x. x \<noteq> []) (map TrimSpace parts)"
    by (induction parts) (auto simp: comma_tok_def Let_def List.map_filter_simps)
  then show ?thesis by (simp add: ml.loop_uniq)
qed

lemma MergeAnnotationValues_tokens:
  "existing \<noteq> [] \<Longrightarrow> desired \<noteq> [] \<Longrightarrow>
   MergeAnnotationValues existing desired = Join '','' (uniq [] (splitSources existing @ splitSources desired))"
proof -
  have "uniq (uniq [] xs) ys = uniq (xs @ []) ys" for xs ys :: "string list"
    by (rule uniq_cong) simp
  then show "existing \<noteq> [] \<Longrightarrow> desired \<noteq> [] \<Longrightarrow> ?thesis"
    by (simp add: MergeAnnotationValues_def Let_def merge_loop_uniq uniq_append splitSources_def
        splitSources_loop_tokens)
qed

lemma uniq_wf_source: "x \<in> set (uniq [] (splitSources a @ splitSources b)) \<Longrightarrow> wf_source x"
  using ss.split_wf by auto

lemma split_MergeAnnotationValues:
  "existing \<noteq> [] \<Longrightarrow> desired \<noteq> [] \<Longrightarrow>
   splitSources (MergeAnnotationValues existing desired) = uniq [] (splitSources existing @ splitSources desired)"
  by (simp add: MergeAnnotationValues_tokens, rule ss.split_Join, erule uniq_wf_source)

lemma merge_listeners_mcopy:
  "merge_listeners existing desired = mcopy [] (map (\<lambda>l. (l_name l, l)) (existing @ desired))"
  by (simp add: merge_listeners_def mcopy_map) (simp add: mcopy_def)

lemma map_of_named: "map_of (map (\<lambda>l. (l_name l, l)) ls) n = find (\<lambda>l. l_name l = n) ls"
  by (induction ls) auto

lemma merge_listeners_lookup:
  "map_of (merge_listeners existing desired) n =
     (case find (\<lambda>l. l_name l = n) (rev desired) of
        Some l \<Rightarrow> Some l | None \<Rightarrow> find (\<lambda>l. l_name l = n) (rev existing))"
proof -
  have "map_of (merge_listeners existing desired) n = map_of (map (\<lambda>l. (l_name l, l)) (rev (existing @ desired))) n"
    by (simp add: merge_listeners_mcopy mcopy_def fold_mset_key_conv rev_map)
  then show ?thesis by (simp add: map_of_named find_append del: map_append split: option.splits)
qed

lemma wf_merge_listeners: "wf_map (merge_listeners existing desired)"
  by (simp add: merge_listeners_mcopy)

lemma merge_listeners_key: "(n, l) \<in> set (merge_listeners existing desired) \<Longrightarrow> l_name l = n"
  by (auto simp: merge_listeners_mcopy dest!: mcopy_in [rotated])

lemma merged_listener_iff:
  assumes "is_order lord"
  shows "l \<in> set (gw_listeners (MergeGatewaySpec sord lord existing desired)) \<longleftrightarrow>
    map_of (merge_listeners (gw_listeners existing) (gw_listeners desired)) (l_name l) = Some l"
proof -
  let ?m = "merge_listeners (gw_listeners existing) (gw_listeners desired)"
  have "l \<in> set (gw_listeners (MergeGatewaySpec sord lord existing desired)) \<longleftrightarrow> (\<exists>n. (n, l) \<in> set ?m)"
    using assms by (force simp: MergeGatewaySpec_def)
  also have "\<dots> \<longleftrightarrow> (l_name l, l) \<in> set ?m" using merge_listeners_key by blast
  finally show ?thesis using wf_merge_listeners by simp
qed

lemma merged_names_distinct:
  assumes "is_order lord"
  shows "distinct (map l_name (gw_listeners (MergeGatewaySpec sord lord existing desired)))"
proof -
  let ?m = "merge_listeners (gw_listeners existing) (gw_listeners desired)"
  have "map l_name (gw_listeners (MergeGatewaySpec sord lord existing desired)) = map (\<lambda>e. l_name (snd e)) (lord ?m)"
    by (simp add: MergeGatewaySpec_def)
  also have "\<dots> = map fst (lord ?m)"
    using assms merge_listeners_key by (intro map_cong refl) (metis is_order_set prod.collapse)
  finally show ?thesis using assms wf_merge_listeners by (simp add: is_order_distinct_map)
qed

lemma uniq_absorb: "set xs \<subseteq> set seen \<Longrightarrow> uniq seen xs = []"
  by (induction xs) auto

lemma find_named_absent: "n \<notin> l_name ` set ls \<Longrightarrow> find (\<lambda>x. l_name x = n) (rev ls) = None"
  by (auto simp: find_None_iff)

lemma find_named_distinct:
  "distinct (map l_name ls) \<Longrightarrow> find (\<lambda>x. l_name x = l_name l) (rev ls) = Some l \<longleftrightarrow> l \<in> set ls"
proof -
  assume d: "distinct (map l_name ls)"
  have "find (\<lambda>x. l_name x = l_name l) (rev ls) = map_of (map (\<lambda>l. (l_name l, l)) (rev ls)) (l_name l)"
    by (simp add: map_of_named)
  also have "\<dots> = Some l \<longleftrightarrow> (l_name l, l) \<in> set (map (\<lambda>l. (l_name l, l)) (rev ls))"
    by (rule map_of_eq_Some_iff) (use d in \<open>simp add: comp_def rev_map [symmetric]\<close>)
  finally show ?thesis by auto
qed

lemma TrimSpace_Cons_blank: "TrimSpace (CHR '' '' # s) = TrimSpace s"
  by (rule TrimSpace_Cons_space) (simp add: is_space_def)

lemma Split_semicolons:
  assumes "\<And>e. e \<in> set es \<Longrightarrow> trimmed e \<and> CHR '';'' \<notin> set e" and "es \<noteq> []"
  shows "map TrimSpace (Split '';'' (Join ''; '' es)) = es"
  using assms
proof (induction es)
  case (Cons e es)
  show ?case
  proof (cases "es = []")
    case True
    with Cons.prems show ?thesis by (simp add: Split_single_None)
  next
    case False
    have blank: "map TrimSpace (Split '';'' (CHR '' '' # s)) = map TrimSpace (Split '';'' s)" for s
      by (cases "Cut '';'' s") (auto simp: Split.simps [of "'';''" "CHR '' '' # s"] Split.simps [of _ s] TrimSpace_Cons_blank)
    have "Split '';'' (Join ''; '' (e # es)) = e # Split '';'' (CHR '' '' # Join ''; '' es)"
      using Cons.prems False by (simp add: Join_Cons Split_single_append)
    then show ?thesis using Cons False by (simp add: blank)
  qed
qed simp

section \<open>Properties\<close>

text \<open>
  C19. Merging listeners, for every iteration order of the map: names stay unique; a listener
  of the result is the last one with its name in the wanted Gateway or, for a name it lacks,
  the last one in the existing Gateway; and no name of either side is lost.
\<close>

theorem MergeGatewaySpec_listeners:
  assumes "is_order lord"
  shows "distinct (map l_name (gw_listeners (MergeGatewaySpec sord lord existing desired))) \<and>
    (\<forall>l. l \<in> set (gw_listeners (MergeGatewaySpec sord lord existing desired)) \<longleftrightarrow>
       (case find (\<lambda>x. l_name x = l_name l) (rev (gw_listeners desired)) of
          Some d \<Rightarrow> Some d = Some l
        | None \<Rightarrow> find (\<lambda>x. l_name x = l_name l) (rev (gw_listeners existing)) = Some l)) \<and>
    l_name ` set (gw_listeners (MergeGatewaySpec sord lord existing desired)) =
      l_name ` (set (gw_listeners existing) \<union> set (gw_listeners desired))"
proof (intro conjI allI)
  let ?merged = "gw_listeners (MergeGatewaySpec sord lord existing desired)"
  show "distinct (map l_name ?merged)" using assms by (rule merged_names_distinct)
  show "l \<in> set ?merged \<longleftrightarrow>
       (case find (\<lambda>x. l_name x = l_name l) (rev (gw_listeners desired)) of
          Some d \<Rightarrow> Some d = Some l
        | None \<Rightarrow> find (\<lambda>x. l_name x = l_name l) (rev (gw_listeners existing)) = Some l)" for l
    unfolding merged_listener_iff [OF assms] merge_listeners_lookup by (simp split: option.splits)
  have "l_name ` set ?merged = fst ` set (merge_listeners (gw_listeners existing) (gw_listeners desired))"
    using assms merge_listeners_key by (force simp: MergeGatewaySpec_def)
  then show "l_name ` set ?merged = l_name ` (set (gw_listeners existing) \<union> set (gw_listeners desired))"
    by (simp add: merge_listeners_mcopy mcopy_keys image_image image_Un)
qed

theorem MergeGatewaySpec_listeners_witness:
  "l_name ` set (gw_listeners (MergeGatewaySpec rev rev empty_gateway
     (TranslateToGateway rev example_config example_ingress))) = {''app.new.domain.cc''}"
proof -
  have "map l_name (gw_listeners (TranslateToGateway rev example_config example_ingress)) = [''app.new.domain.cc'']"
    by code_simp
  then have "l_name ` set (gw_listeners (TranslateToGateway rev example_config example_ingress)) = {''app.new.domain.cc''}"
    by (metis list.simps(15) set_empty2 set_map empty_set)
  then show ?thesis
    using MergeGatewaySpec_listeners [of rev rev empty_gateway "TranslateToGateway rev example_config example_ingress"]
    by (simp add: empty_gateway_def)
qed

text \<open>
  Merging a value list: the result splits into the values of both lists, the existing ones
  first, each once and in order; and merging the same list again changes nothing.
\<close>

theorem MergeAnnotationValues_union:
  assumes "splitSources existing \<noteq> []" and "desired \<noteq> []"
  shows "splitSources (MergeAnnotationValues existing desired) =
      uniq [] (splitSources existing @ splitSources desired) \<and>
    distinct (splitSources (MergeAnnotationValues existing desired)) \<and>
    MergeAnnotationValues (MergeAnnotationValues existing desired) desired =
      MergeAnnotationValues existing desired"
proof -
  let ?m = "MergeAnnotationValues existing desired"
  have e: "existing \<noteq> []" using assms(1) ss.split_Nil by auto
  have split: "splitSources ?m = uniq [] (splitSources existing @ splitSources desired)"
    using e assms(2) by (rule split_MergeAnnotationValues)
  have ne: "?m \<noteq> []"
  proof
    assume "?m = []"
    then have "uniq [] (splitSources existing @ splitSources desired) = []"
      using split by (simp add: ss.split_Nil)
    then have "set (splitSources existing) = {}" by (metis Diff_empty Un_empty empty_set set_append set_uniq)
    with assms(1) show False by simp
  qed
  have "MergeAnnotationValues ?m desired = Join '','' (uniq [] (splitSources ?m @ splitSources desired))"
    using ne assms(2) by (rule MergeAnnotationValues_tokens)
  also have "uniq [] (splitSources ?m @ splitSources desired) = splitSources ?m"
    unfolding split uniq_append [of "[]" "uniq [] _"] by (simp add: uniq_id uniq_absorb)
  also have "Join '','' (splitSources ?m) = ?m"
    unfolding split using e assms(2) by (rule MergeAnnotationValues_tokens [symmetric])
  finally show ?thesis using split by simp
qed

theorem MergeAnnotationValues_union_witness:
  "splitSources (MergeAnnotationValues ''a/x, b/y'' ''b/y,c/z'') = [''a/x'', ''b/y'', ''c/z'']"
proof -
  have "splitSources ''a/x, b/y'' = [''a/x'', ''b/y'']" "splitSources ''b/y,c/z'' = [''b/y'', ''c/z'']"
    by code_simp+
  with MergeAnnotationValues_union [of "''a/x, b/y''" "''b/y,c/z''"] show ?thesis by simp
qed

text \<open>
  Removing an Ingress undoes what merging it added: merged into any Gateway and removed
  again, the listeners left are the existing ones whose name is no rewritten host of the
  Ingress.
\<close>

theorem merge_then_remove_listeners:
  assumes "is_order lord" and "is_order ord"
    and "distinct (map l_name (gw_listeners existing))"
  shows "set (gw_listeners (RemoveIngressListeners cfg
      (MergeGatewaySpec sord lord existing (TranslateToGateway ord cfg ing)) ing)) =
    {l \<in> set (gw_listeners existing). l_name l \<notin> set (route_hostnames cfg ing)}"
proof -
  let ?d = "TranslateToGateway ord cfg ing" and ?hosts = "set (route_hostnames cfg ing)"
  have hosts: "l_name ` set (gw_listeners ?d) = ?hosts"
    using gateway_listener_names [OF assms(2)] by simp
  have "set (gw_listeners (RemoveIngressListeners cfg (MergeGatewaySpec sord lord existing ?d) ing)) =
      {l \<in> set (gw_listeners (MergeGatewaySpec sord lord existing ?d)). l_name l \<notin> ?hosts}"
    by (simp add: RemoveIngressListeners_def Let_def route_hostnames_def)
  also have "\<dots> = {l. l_name l \<notin> ?hosts \<and> find (\<lambda>x. l_name x = l_name l) (rev (gw_listeners existing)) = Some l}"
    unfolding merged_listener_iff [OF assms(1)] merge_listeners_lookup
    using find_named_absent [of _ "gw_listeners ?d"] hosts by (auto split: option.splits)
  also have "\<dots> = {l \<in> set (gw_listeners existing). l_name l \<notin> ?hosts}"
    using find_named_distinct [OF assms(3)] by auto
  finally show ?thesis .
qed

theorem merge_then_remove_listeners_witness:
  "set (gw_listeners (RemoveIngressListeners example_config
      (MergeGatewaySpec rev rev empty_gateway (TranslateToGateway rev example_config example_ingress))
      example_ingress)) = {}"
  using merge_then_remove_listeners [of rev rev empty_gateway example_config rev example_ingress]
  by (simp add: empty_gateway_def)

text \<open>
  Cleaning the mismatch annotation drops exactly the entries of the given host rewrites: an
  entry stays if and only if it starts with none of the prefixes, and the others keep their
  order.
\<close>

theorem RemoveCertMismatchEntries_exact:
  assumes "\<forall>e \<in> set entries. e \<noteq> [] \<and> trimmed e \<and> CHR '';'' \<notin> set e"
  shows "RemoveCertMismatchEntries (Join ''; '' entries) mappings =
    Join ''; '' (filter (\<lambda>e. \<forall>(h, t) \<in> set mappings. \<not> HasPrefix e (h @ ''->'' @ t @ '':'')) entries)"
proof (cases "entries = []")
  case False
  have "map TrimSpace (Split '';'' (Join ''; '' entries)) = entries"
    using assms False by (intro Split_semicolons) auto
  moreover have "Join ''; '' entries \<noteq> []" using assms False by (cases "(''; '', entries)" rule: Join.cases) auto
  moreover have "filter (\<lambda>e. e \<noteq> [] \<and> P e) entries = filter P entries" for P
    using assms by (intro filter_cong) auto
  ultimately show ?thesis
    by (simp add: RemoveCertMismatchEntries_def Let_def list_ex_iff case_prod_beta)
qed (simp add: RemoveCertMismatchEntries_def)

theorem RemoveCertMismatchEntries_exact_witness:
  "RemoveCertMismatchEntries (Join ''; '' [''a->b: x'', ''c->d: y'']) [(''a'', ''b'')] = ''c->d: y''"
  using RemoveCertMismatchEntries_exact [of "[''a->b: x'', ''c->d: y'']" "[(''a'', ''b'')]"]
  by (simp add: trimmed_def is_space_def)

end
