(* ===== verification/Listeners.thy ===== *)
theory Listeners
  imports Gateway_Utils
begin

text \<open>
  The part of \<open>internal/controller/httproute_controller.go\<close> that computes Gateway
  listeners: the state wanted by the routes of a Gateway, the incremental change of the
  listeners to that state, the merge of a single route, and the certificates taken from the
  source Ingresses. The API calls around it are in \<open>HTTPRoute_Controller\<close>.
\<close>

section \<open>One listener\<close>

text \<open>The fields of \<open>HTTPRouteReconciler\<close>.\<close>

record route_reconciler =
  rr_gatewayNamespace :: string
  rr_gatewayClassName :: string
  rr_hostnameRewriteFrom :: string
  rr_hostnameRewriteTo :: string
  rr_postProcessingMode :: string

fun findListenerByHostname :: "listener list \<Rightarrow> string \<Rightarrow> nat option" where
  "findListenerByHostname [] hostname = None"
| "findListenerByHostname (l # ls) hostname =
     (if l_hostname l = Some hostname then Some 0 else map_option Suc (findListenerByHostname ls hostname))"

fun stringSlicesEqual :: "string list \<Rightarrow> string list \<Rightarrow> bool" where
  "stringSlicesEqual [] [] = True"
| "stringSlicesEqual (a # as) (b # bs) = (a = b \<and> stringSlicesEqual as bs)"
| "stringSlicesEqual _ _ = False"

definition is_namespace_expr :: "selector_requirement \<Rightarrow> bool" where
  "is_namespace_expr e \<longleftrightarrow> sr_key e = labelSelectorNamespaceKey \<and> sr_operator e = ''In''"

definition namespace_expr :: "string list \<Rightarrow> selector_requirement" where
  "namespace_expr namespaces =
     \<lparr>sr_key = labelSelectorNamespaceKey, sr_operator = ''In'', sr_values = namespaces\<rparr>"

text \<open>Change the first namespace expression by \<open>f\<close>, which answers \<open>None\<close> to leave it.\<close>

fun change_expr ::
  "(string list \<Rightarrow> string list option) \<Rightarrow> selector_requirement list \<Rightarrow> selector_requirement list \<times> bool" where
  "change_expr f [] = ([], False)"
| "change_expr f (e # es) =
     (if is_namespace_expr e
      then (case f (sr_values e) of
              None \<Rightarrow> (e # es, False)
            | Some vs \<Rightarrow> (e\<lparr>sr_values := vs\<rparr> # es, True))
      else let (es', c) = change_expr f es in (e # es', c))"

text \<open>The selector of a listener, behind three pointers.\<close>

definition l_selector :: "listener \<Rightarrow> label_selector option" where
  "l_selector l = (case l_allowedRoutes l of
     Some (Some rn) \<Rightarrow> rn_selector rn | _ \<Rightarrow> None)"

definition set_selector :: "label_selector \<Rightarrow> listener \<Rightarrow> listener" where
  "set_selector sel l = (case l_allowedRoutes l of
     Some (Some rn) \<Rightarrow> l\<lparr>l_allowedRoutes := Some (Some (rn\<lparr>rn_selector := Some sel\<rparr>))\<rparr> | _ \<Rightarrow> l)"

definition update_selector :: "label_selector \<Rightarrow> string list \<Rightarrow> label_selector \<times> bool" where
  "update_selector sel namespaces =
     (case ls_matchLabels sel of
        Some labels \<Rightarrow>
          (case namespaces of
             [ns] \<Rightarrow>
               if map_of labels labelSelectorNamespaceKey \<noteq> Some ns
               then (sel\<lparr>ls_matchLabels := Some (mset_key labelSelectorNamespaceKey ns labels)\<rparr>, True)
               else (sel, False)
           | _ \<Rightarrow> (sel\<lparr>ls_matchLabels := None, ls_matchExpressions := [namespace_expr namespaces]\<rparr>, True))
      | None \<Rightarrow>
          let (es, c) = change_expr (\<lambda>vs. if stringSlicesEqual vs namespaces then None else Some namespaces)
                (ls_matchExpressions sel)
          in (sel\<lparr>ls_matchExpressions := es\<rparr>, c))"

definition updateListenerNamespaces :: "listener \<Rightarrow> string list \<Rightarrow> listener \<times> bool" where
  "updateListenerNamespaces l namespaces =
     (case l_selector l of
        None \<Rightarrow> (l, False)
      | Some sel \<Rightarrow> let (sel', c) = update_selector sel namespaces in (set_selector sel' l, c))"

definition updateListenerTLS :: "listener \<Rightarrow> listener_tls option \<Rightarrow> listener \<times> bool" where
  "updateListenerTLS l desiredTLS = (if l_tls l = desiredTLS then (l, False) else (l\<lparr>l_tls := desiredTLS\<rparr>, True))"

definition createListenerWithNamespaces :: "string \<Rightarrow> string list \<Rightarrow> listener_tls option \<Rightarrow> listener" where
  "createListenerWithNamespaces hostname namespaces tlsConfig =
     \<lparr>l_name = hostname, l_hostname = Some hostname, l_port = 443, l_protocol = ''HTTPS'', l_tls = tlsConfig,
      l_allowedRoutes = Some (Some \<lparr>rn_from = Some ''Selector'',
        rn_selector = Some \<lparr>ls_matchLabels = None, ls_matchExpressions = [namespace_expr namespaces]\<rparr>\<rparr>)\<rparr>"

text \<open>A listener whose selector has match labels only is left alone.\<close>

definition addNamespaceToListener :: "listener \<Rightarrow> string \<Rightarrow> listener \<times> bool" where
  "addNamespaceToListener l namespace =
     (case l_selector l of
        None \<Rightarrow> (l, False)
      | Some sel \<Rightarrow>
          let (es, c) = change_expr (\<lambda>vs. if namespace \<in> set vs then None else Some (sort (vs @ [namespace])))
                (ls_matchExpressions sel)
          in (set_selector (sel\<lparr>ls_matchExpressions := es\<rparr>) l, c))"

section \<open>The listeners of a Gateway\<close>

text \<open>The wanted state: for each hostname the set of namespaces that need it.\<close>

type_synonym listener_state = "string list gomap"

definition add_host :: "string \<Rightarrow> string \<Rightarrow> listener_state \<Rightarrow> listener_state" where
  "add_host namespace hostname state =
     (let cur = (case map_of state hostname of None \<Rightarrow> [] | Some s \<Rightarrow> s)
      in mset_key hostname (List.insert namespace cur) state)"

definition calculateDesiredListenerState :: "http_route list \<Rightarrow> listener_state" where
  "calculateDesiredListenerState routes =
     fold (\<lambda>route. fold (add_host (hr_namespace route)) (hr_hostnames route)) routes []"

text \<open>\<open>desiredTLS[hostname]\<close>: a missing entry reads as \<open>nil\<close>.\<close>

definition tls_of :: "listener_tls option gomap \<Rightarrow> string \<Rightarrow> listener_tls option" where
  "tls_of m hostname = (case map_of m hostname of Some t \<Rightarrow> t | None \<Rightarrow> None)"

definition host_of :: "listener \<Rightarrow> string" where
  "host_of l = (case l_hostname l of Some h \<Rightarrow> h | None \<Rightarrow> [])"

definition reconcile_host ::
  "listener_tls option gomap \<Rightarrow> string list \<Rightarrow> string \<times> string list \<Rightarrow> listener list \<times> bool \<Rightarrow> listener list \<times> bool" where
  "reconcile_host desiredTLS tlsUnknown entry p =
     (let (hostname, namespaces) = entry; (ls, updated) = p; namespaceList = sort namespaces
      in case findListenerByHostname ls hostname of
           Some i \<Rightarrow>
             let (l, c1) = updateListenerNamespaces (ls ! i) namespaceList;
                 (l, c2) = (if hostname \<notin> set tlsUnknown then updateListenerTLS l (tls_of desiredTLS hostname)
                            else (l, False))
             in (ls[i := l], updated \<or> c1 \<or> c2)
         | None \<Rightarrow>
             if hostname \<notin> set tlsUnknown
             then (ls @ [createListenerWithNamespaces hostname namespaceList (tls_of desiredTLS hostname)], True)
             else (ls, updated))"

text \<open>The argument \<open>ord\<close> is the iteration order over the state.\<close>

definition reconcileListenersToDesiredState ::
  "((string \<times> string list) list \<Rightarrow> (string \<times> string list) list) \<Rightarrow> gateway \<Rightarrow> listener_state
    \<Rightarrow> listener_tls option gomap \<Rightarrow> string list \<Rightarrow> gateway \<times> bool" where
  "reconcileListenersToDesiredState ord gw desiredState desiredTLS tlsUnknown =
     (let kept = filter (\<lambda>l. mhas desiredState (host_of l)) (gw_listeners gw);
          removed = (\<exists>l \<in> set (gw_listeners gw). \<not> mhas desiredState (host_of l));
          (ls, updated) = fold (reconcile_host desiredTLS tlsUnknown) (ord desiredState) (kept, removed)
      in (gw\<lparr>gw_listeners := ls\<rparr>, updated))"

section \<open>Certificates\<close>

definition findTLSConfigForHost :: "ingress \<Rightarrow> string \<Rightarrow> ingress_tls option" where
  "findTLSConfigForHost ing host = List.find (\<lambda>tls. List.member (tls_hosts tls) host) (i_tls ing)"

definition listener_config :: "route_reconciler \<Rightarrow> translator_config" where
  "listener_config r = empty_config\<lparr>GatewayNamespace := rr_gatewayNamespace r,
     HostnameRewriteFrom := rr_hostnameRewriteFrom r, HostnameRewriteTo := rr_hostnameRewriteTo r\<rparr>"

text \<open>
  The certificate of a hostname that is rewritten to another: the secret of the Ingress, or a
  generated one in the Gateway's namespace, which is reported as a mismatch.
\<close>

definition host_tls :: "route_reconciler \<Rightarrow> string \<Rightarrow> string \<Rightarrow> string \<Rightarrow> ingress_tls \<Rightarrow> listener_tls \<times> string list" where
  "host_tls r ingressNamespace originalHost transformedHost tls =
     (if originalHost \<noteq> transformedHost \<and> \<not> CheckCertificateMatch originalHost transformedHost (tls_hosts tls)
      then let newSecretName = controller_generateSafeSecretName ingressNamespace transformedHost
           in (terminate_tls newSecretName (rr_gatewayNamespace r),
               [mismatch_entry originalHost transformedHost ingressNamespace (tls_secretName tls)
                  (rr_gatewayNamespace r) newSecretName])
      else (terminate_tls (tls_secretName tls) ingressNamespace, []))"

definition tls_rule_step ::
  "route_reconciler \<Rightarrow> http_route \<Rightarrow> ingress \<Rightarrow> ingress_rule
    \<Rightarrow> listener_tls option gomap \<times> string list \<Rightarrow> listener_tls option gomap \<times> string list" where
  "tls_rule_step r httpRoute ing rule acc =
     (let transformed = TransformHostname (listener_config r) (ir_host rule)
      in if ir_host rule = [] then acc
         else if transformed \<notin> set (hr_hostnames httpRoute) then acc
         else case findTLSConfigForHost ing (ir_host rule) of
                None \<Rightarrow> acc
              | Some tls \<Rightarrow>
                  if tls_secretName tls = [] then acc
                  else let (t, ms) = host_tls r (i_namespace ing) (ir_host rule) transformed tls
                       in (mset_key transformed (Some t) (fst acc), snd acc @ ms))"

text \<open>\<open>isManagedByUs\<close> of the HTTPRoute controller.\<close>

definition isManagedByUs :: "http_route \<Rightarrow> bool" where
  "isManagedByUs httpRoute \<longleftrightarrow> map_of (hr_annotations httpRoute) ManagedByAnnotation = Some ManagedByValue"

definition buildTLSForRouteFromIngress ::
  "route_reconciler \<Rightarrow> http_route \<Rightarrow> ingress \<Rightarrow> listener_tls option gomap \<times> string list" where
  "buildTLSForRouteFromIngress r httpRoute ing =
     (if \<not> isManagedByUs httpRoute then ([], [])
      else let (desiredTLS, certMismatches) = fold (tls_rule_step r httpRoute ing) (i_rules ing) ([], [])
           in (desiredTLS, sort certMismatches))"

section \<open>Merging one route\<close>

definition merge_host ::
  "http_route \<Rightarrow> listener_tls option gomap \<Rightarrow> string \<Rightarrow> listener list \<times> bool \<Rightarrow> listener list \<times> bool" where
  "merge_host httpRoute desiredTLS hostname p =
     (let (ls, updated) = p
      in case findListenerByHostname ls hostname of
           Some i \<Rightarrow>
             let (l, c1) = addNamespaceToListener (ls ! i) (hr_namespace httpRoute);
                 c2 = (l_tls l = None \<and> tls_of desiredTLS hostname \<noteq> None);
                 l = (if c2 then l\<lparr>l_tls := tls_of desiredTLS hostname\<rparr> else l)
             in (ls[i := l], updated \<or> c1 \<or> c2)
         | None \<Rightarrow>
             (ls @ [createListenerWithNamespaces hostname [hr_namespace httpRoute] (tls_of desiredTLS hostname)], True))"

text \<open>The iteration order \<open>ord\<close> is the one of \<open>MergeCertificateMismatchAnnotation\<close>.\<close>

definition updateGatewayListeners ::
  "(string list \<Rightarrow> string list) \<Rightarrow> route_reconciler \<Rightarrow> gateway \<Rightarrow> http_route \<Rightarrow> ingress \<Rightarrow> gateway \<times> bool" where
  "updateGatewayListeners ord r gw httpRoute ing =
     (let (desiredTLS, certMismatches) = buildTLSForRouteFromIngress r httpRoute ing;
          (ls, updated) = fold (merge_host httpRoute desiredTLS) (hr_hostnames httpRoute) (gw_listeners gw, False);
          gw = gw\<lparr>gw_listeners := ls\<rparr>
      in if certMismatches = [] then (gw, updated)
         else let current = mget (gw_annotations gw) MismatchedCertAnnotation;
                  merged = MergeCertificateMismatchAnnotation ord current (Join ''; '' certMismatches)
              in if merged \<noteq> current
                 then (gw\<lparr>gw_meta := (gw_meta gw)\<lparr>m_annotations :=
                         mset_key MismatchedCertAnnotation merged (gw_annotations gw)\<rparr>\<rparr>, True)
                 else (gw, updated))"

section \<open>Steps over hostnames\<close>

text \<open>
  Both operations above fold a step over hostnames. Their common contract: a step looks at and
  changes only the first listener for its hostname, or appends one; it reports a change exactly
  when it makes one; and done again it does nothing. Then the fold does not depend on the order
  and done again it does nothing either.
\<close>

definition first_for :: "listener list \<Rightarrow> string \<Rightarrow> listener option" where
  "first_for ls h = List.find (\<lambda>l. l_hostname l = Some h) ls"

lemma find_inj: "inj_on f (set xs) \<Longrightarrow> x \<in> set xs \<Longrightarrow> List.find (\<lambda>y. f y = f x) xs = Some x"
  by (induction xs) (auto simp: inj_on_def)

locale host_step =
  fixes step :: "'e \<Rightarrow> listener list \<times> bool \<Rightarrow> listener list \<times> bool"
    and host :: "'e \<Rightarrow> string"
    and upd :: "'e \<Rightarrow> listener option \<Rightarrow> listener option \<times> bool"
  assumes at_step: "first_for (fst (step e (ls, b))) h =
      (if h = host e then fst (upd e (first_for ls h)) else first_for ls h)"
    and flag_step: "snd (step e (ls, b)) = (b \<or> snd (upd e (first_for ls (host e))))"
    and noop_step: "\<not> snd (upd e (first_for ls (host e))) \<Longrightarrow> fst (step e (ls, b)) = ls"
    and idem_upd: "upd e (fst (upd e x)) = (fst (upd e x), False)"
    and hosts_step: "map l_hostname (fst (step e (ls, b))) \<in>
      {map l_hostname ls, map l_hostname ls @ [Some (host e)]}"
begin

lemma fold_at:
  "inj_on host (set es) \<Longrightarrow> first_for (fst (fold step es (ls, b))) h =
     (case List.find (\<lambda>e. host e = h) es of None \<Rightarrow> first_for ls h | Some e \<Rightarrow> fst (upd e (first_for ls h)))"
proof (induction es arbitrary: ls b)
  case (Cons e es)
  obtain ls' b' where s: "step e (ls, b) = (ls', b')" by (cases "step e (ls, b)")
  have at: "first_for ls' h = (if h = host e then fst (upd e (first_for ls h)) else first_for ls h)"
    using at_step [of e ls b h] s by simp
  have IH: "first_for (fst (fold step es (ls', b'))) h =
     (case List.find (\<lambda>e. host e = h) es of None \<Rightarrow> first_for ls' h | Some e \<Rightarrow> fst (upd e (first_for ls' h)))"
    using Cons by simp
  show ?case
  proof (cases "host e = h")
    case True
    have same: "x = e" if "List.find (\<lambda>e. host e = h) es = Some x" for x
      using that Cons.prems True by (auto simp: find_Some_iff inj_on_def)
    show ?thesis using IH at True s same idem_upd by (auto split: option.splits)
  next
    case False
    then show ?thesis using IH at s by (auto split: option.splits)
  qed
qed simp

lemma step_noop: "\<not> snd (upd e (first_for ls (host e))) \<Longrightarrow> step e (ls, b) = (ls, b)"
  using noop_step flag_step by (simp add: prod_eq_iff)

lemma fold_noop: "(\<And>e. e \<in> set es \<Longrightarrow> \<not> snd (upd e (first_for ls (host e)))) \<Longrightarrow> fold step es (ls, b) = (ls, b)"
  by (induction es) (simp_all add: step_noop)

lemma fold_again:
  assumes "inj_on host (set es)" and "set es' \<subseteq> set es"
  shows "fold step es' (fst (fold step es (ls, b)), c) = (fst (fold step es (ls, b)), c)"
proof (rule fold_noop)
  fix e assume "e \<in> set es'"
  then have e: "e \<in> set es" using assms(2) by blast
  then show "\<not> snd (upd e (first_for (fst (fold step es (ls, b))) (host e)))"
    using fold_at [OF assms(1), of ls b "host e"] find_inj [OF assms(1) e] idem_upd by simp
qed

lemma fold_hosts:
  "\<exists>hs. map l_hostname (fst (fold step es (ls, b))) = map l_hostname ls @ map (\<lambda>e. Some (host e)) hs \<and> set hs \<subseteq> set es"
proof (induction es arbitrary: ls b)
  case (Cons e es)
  obtain ls' b' where s: "step e (ls, b) = (ls', b')" by (cases "step e (ls, b)")
  obtain hs where hs: "map l_hostname (fst (fold step es (ls', b'))) = map l_hostname ls' @ map (\<lambda>e. Some (host e)) hs"
    "set hs \<subseteq> set es"
    using Cons by blast
  consider "map l_hostname ls' = map l_hostname ls" | "map l_hostname ls' = map l_hostname ls @ [Some (host e)]"
    using hosts_step [of e ls b] s by auto
  then show ?case
  proof cases
    case 1
    then show ?thesis using hs s by (intro exI [of _ hs]) auto
  next
    case 2
    then show ?thesis using hs s by (intro exI [of _ "e # hs"]) auto
  qed
qed simp

lemma fold_flag: "snd (fold step xs (l, True))"
proof (induction xs arbitrary: l)
  case (Cons x xs)
  obtain l' where "step x (l, True) = (l', True)"
    using flag_step [of x l True] by (cases "step x (l, True)") auto
  then show ?case using Cons by simp
qed simp

lemma fold_unchanged:
  "snd (fold step es (ls, b)) = False \<Longrightarrow> fold step es (ls, b) = (ls, False)"
proof (induction es arbitrary: ls b)
  case (Cons e es)
  obtain ls' b' where s: "step e (ls, b) = (ls', b')" by (cases "step e (ls, b)")
  with Cons have r: "fold step es (ls', b') = (ls', False)" by simp
  have "\<not> b'"
    using r fold_flag [of es ls'] by (metis (full_types) snd_conv)
  then have "\<not> snd (upd e (first_for ls (host e)))" "\<not> b" using flag_step [of e ls b] s by auto
  then show ?case using r s step_noop [of e ls b] by simp
qed simp

end

section \<open>Lemmas\<close>

lemma first_for_Nil [simp]: "first_for [] h = None"
  by (simp add: first_for_def)

lemma first_for_Cons [simp]: "first_for (l # ls) h = (if l_hostname l = Some h then Some l else first_for ls h)"
  by (simp add: first_for_def)

lemma first_for_append: "first_for (xs @ ys) h = (case first_for xs h of None \<Rightarrow> first_for ys h | Some l \<Rightarrow> Some l)"
  by (induction xs) auto

lemma first_for_host: "first_for ls h = Some l \<Longrightarrow> l \<in> set ls \<and> l_hostname l = Some h"
  by (induction ls) (auto split: if_splits)

lemma first_for_None: "first_for ls h = None \<longleftrightarrow> Some h \<notin> l_hostname ` set ls"
  by (induction ls) auto

lemma findListener_Some:
  "findListenerByHostname ls h = Some i \<Longrightarrow> i < length ls \<and> first_for ls h = Some (ls ! i) \<and> l_hostname (ls ! i) = Some h"
  by (induction ls arbitrary: i) (auto split: if_splits)

lemma findListener_None: "findListenerByHostname ls h = None \<longleftrightarrow> first_for ls h = None"
  by (induction ls) auto

lemma first_for_update:
  "findListenerByHostname ls h = Some i \<Longrightarrow> l_hostname l = Some h \<Longrightarrow>
   first_for (ls[i := l]) h' = (if h' = h then Some l else first_for ls h')"
  by (induction ls arbitrary: i) (auto split: if_splits)

lemma hosts_update: "i < length ls \<Longrightarrow> l_hostname l = l_hostname (ls ! i) \<Longrightarrow> map l_hostname (ls[i := l]) = map l_hostname ls"
  by (metis list_update_id map_update)

lemma stringSlicesEqual_iff [simp]: "stringSlicesEqual xs ys \<longleftrightarrow> xs = ys"
  by (induction xs ys rule: stringSlicesEqual.induct) auto

lemma change_expr_noop: "change_expr f es = (es', False) \<Longrightarrow> es' = es"
  by (induction es arbitrary: es') (auto simp: Let_def split: if_splits option.splits prod.splits)

lemma is_namespace_expr_update [simp]: "is_namespace_expr (e\<lparr>sr_values := vs\<rparr>) = is_namespace_expr e"
  by (simp add: is_namespace_expr_def)

lemma change_expr_again:
  assumes "\<And>vs vs'. f vs = Some vs' \<Longrightarrow> f vs' = None"
  shows "change_expr f (fst (change_expr f es)) = (fst (change_expr f es), False)"
  using assms by (induction es) (auto simp: Let_def case_prod_beta split: option.splits)

lemma set_selector_id: "l_selector l = Some sel \<Longrightarrow> set_selector sel l = l"
  by (cases l) (auto simp: l_selector_def set_selector_def split: option.splits)

lemma l_selector_set: "l_selector l \<noteq> None \<Longrightarrow> l_selector (set_selector sel l) = Some sel"
  by (auto simp: l_selector_def set_selector_def split: option.splits)

lemma set_selector_twice [simp]: "set_selector s (set_selector s' l) = set_selector s l"
  by (auto simp: set_selector_def split: option.splits)

lemma set_selector_fields [simp]:
  "l_hostname (set_selector s l) = l_hostname l" "l_name (set_selector s l) = l_name l" "l_tls (set_selector s l) = l_tls l"
  "l_port (set_selector s l) = l_port l" "l_protocol (set_selector s l) = l_protocol l"
  by (auto simp: set_selector_def split: option.splits)

lemma selector_tls [simp]:
  "l_selector (l\<lparr>l_tls := t\<rparr>) = l_selector l" "set_selector s (l\<lparr>l_tls := t\<rparr>) = (set_selector s l)\<lparr>l_tls := t\<rparr>"
  by (auto simp: l_selector_def set_selector_def split: option.splits)

lemma update_selector_noop: "update_selector sel ns = (sel', False) \<Longrightarrow> sel' = sel"
  by (auto simp: update_selector_def Let_def split: option.splits list.splits if_splits prod.splits dest: change_expr_noop)

lemma update_selector_again: "update_selector (fst (update_selector sel ns)) ns = (fst (update_selector sel ns), False)"
proof (cases "ls_matchLabels sel")
  case None
  let ?f = "\<lambda>vs. if vs = ns then None else Some ns"
  have "change_expr ?f (fst (change_expr ?f (ls_matchExpressions sel))) = (fst (change_expr ?f (ls_matchExpressions sel)), False)"
    by (rule change_expr_again) (auto split: if_splits)
  with None show ?thesis by (simp add: update_selector_def Let_def case_prod_beta)
next
  case (Some labels)
  then show ?thesis
    by (auto simp: update_selector_def Let_def namespace_expr_def is_namespace_expr_def split: list.splits)
qed

lemma updateListenerNamespaces_hostname [simp]:
  "l_hostname (fst (updateListenerNamespaces l ns)) = l_hostname l" "l_tls (fst (updateListenerNamespaces l ns)) = l_tls l"
  "l_name (fst (updateListenerNamespaces l ns)) = l_name l"
  by (simp_all add: updateListenerNamespaces_def Let_def case_prod_beta split: option.split)

lemma updateListenerNamespaces_noop:
  "\<not> snd (updateListenerNamespaces l ns) \<Longrightarrow> fst (updateListenerNamespaces l ns) = l"
  by (auto simp: updateListenerNamespaces_def Let_def set_selector_id split: option.splits prod.splits dest!: update_selector_noop)

lemma updateListenerNamespaces_again:
  "updateListenerNamespaces (fst (updateListenerNamespaces l ns)) ns = (fst (updateListenerNamespaces l ns), False)"
proof (cases "l_selector l")
  case (Some sel)
  then show ?thesis
    using update_selector_again [of sel ns] l_selector_set [of l "fst (update_selector sel ns)"]
    by (simp add: updateListenerNamespaces_def Let_def case_prod_beta)
qed (simp add: updateListenerNamespaces_def)

lemma updateListenerNamespaces_tls:
  "updateListenerNamespaces (l\<lparr>l_tls := t\<rparr>) ns = apfst (\<lambda>l. l\<lparr>l_tls := t\<rparr>) (updateListenerNamespaces l ns)"
  by (simp add: updateListenerNamespaces_def Let_def case_prod_beta apfst_def map_prod_def split: option.split)

text \<open>What the step of a hostname does to its first listener.\<close>

definition reconcile_upd ::
  "listener_tls option gomap \<Rightarrow> string list \<Rightarrow> string \<times> string list \<Rightarrow> listener option \<Rightarrow> listener option \<times> bool" where
  "reconcile_upd tls unk e x = (case x of
     Some l \<Rightarrow>
       let (l, c1) = updateListenerNamespaces l (sort (snd e));
           (l, c2) = (if fst e \<notin> set unk then updateListenerTLS l (tls_of tls (fst e)) else (l, False))
       in (Some l, c1 \<or> c2)
   | None \<Rightarrow>
       if fst e \<notin> set unk then (Some (createListenerWithNamespaces (fst e) (sort (snd e)) (tls_of tls (fst e))), True)
       else (None, False))"

lemma updateListenerTLS_hostname [simp]: "l_hostname (fst (updateListenerTLS l t)) = l_hostname l"
  by (simp add: updateListenerTLS_def)

lemma create_hostname [simp]: "l_hostname (createListenerWithNamespaces h ns t) = Some h"
  by (simp add: createListenerWithNamespaces_def)

lemma reconcile_upd_again: "reconcile_upd tls unk e (fst (reconcile_upd tls unk e x)) = (fst (reconcile_upd tls unk e x), False)"
proof (cases x)
  case None
  have "updateListenerNamespaces (createListenerWithNamespaces h ns t) ns = (createListenerWithNamespaces h ns t, False)" for h ns t
    by (simp add: updateListenerNamespaces_def createListenerWithNamespaces_def l_selector_def set_selector_def
        update_selector_def namespace_expr_def is_namespace_expr_def)
  moreover have "l_tls (createListenerWithNamespaces h ns t) = t" for h ns t
    by (simp add: createListenerWithNamespaces_def)
  ultimately show ?thesis using None by (simp add: reconcile_upd_def updateListenerTLS_def)
next
  case (Some l)
  then show ?thesis
    using updateListenerNamespaces_again [of l "sort (snd e)"]
    by (auto simp: reconcile_upd_def Let_def case_prod_beta updateListenerTLS_def updateListenerNamespaces_tls
        apfst_def map_prod_def prod_eq_iff)
qed

interpretation rc: host_step "reconcile_host tls unk" fst "reconcile_upd tls unk" for tls unk
proof
  fix e :: "string \<times> string list" and ls b h x
  obtain k nss where e: "e = (k, nss)" by (cases e)
  note defs = reconcile_host_def reconcile_upd_def Let_def case_prod_beta
  show "first_for (fst (reconcile_host tls unk e (ls, b))) h =
      (if h = fst e then fst (reconcile_upd tls unk e (first_for ls h)) else first_for ls h)"
    using findListener_Some [of ls k] findListener_None [of ls k]
    by (auto simp: e defs first_for_update first_for_append split: option.splits)
  show "snd (reconcile_host tls unk e (ls, b)) = (b \<or> snd (reconcile_upd tls unk e (first_for ls (fst e))))"
    using findListener_Some [of ls k] findListener_None [of ls k]
    by (auto simp: e defs split: option.splits)
  show "fst (reconcile_host tls unk e (ls, b)) = ls" if "\<not> snd (reconcile_upd tls unk e (first_for ls (fst e)))"
    using that findListener_Some [of ls k] findListener_None [of ls k]
    by (auto simp: e defs updateListenerTLS_def updateListenerNamespaces_noop split: option.splits if_splits)
  show "reconcile_upd tls unk e (fst (reconcile_upd tls unk e x)) = (fst (reconcile_upd tls unk e x), False)"
    by (rule reconcile_upd_again)
  show "map l_hostname (fst (reconcile_host tls unk e (ls, b))) \<in> {map l_hostname ls, map l_hostname ls @ [Some (fst e)]}"
    using findListener_Some [of ls k]
    by (auto simp: e defs hosts_update split: option.splits)
qed

text \<open>The namespaces a selector lets in, where the operator can tell.\<close>

definition allowed_namespaces :: "listener \<Rightarrow> string list option" where
  "allowed_namespaces l = (case l_selector l of
     None \<Rightarrow> None
   | Some sel \<Rightarrow>
       (case ls_matchLabels sel of
          Some labels \<Rightarrow> map_option (\<lambda>ns. [ns]) (map_of labels labelSelectorNamespaceKey)
        | None \<Rightarrow> map_option sr_values (List.find is_namespace_expr (ls_matchExpressions sel))))"

lemma allowed_tls [simp]: "allowed_namespaces (l\<lparr>l_tls := t\<rparr>) = allowed_namespaces l"
  by (simp add: allowed_namespaces_def)

lemma change_expr_values:
  "map_option sr_values (List.find is_namespace_expr (fst (change_expr (\<lambda>vs. if vs = ns then None else Some ns) es)))
     \<in> {None, Some ns}"
  by (induction es) (auto simp: Let_def case_prod_beta)

lemma update_selector_allowed:
  assumes "l_selector l = Some (fst (update_selector sel ns))"
  shows "allowed_namespaces l \<in> {None, Some ns}"
proof (cases "ls_matchLabels sel")
  case None
  then show ?thesis
    using assms change_expr_values [of ns "ls_matchExpressions sel"]
    by (simp add: allowed_namespaces_def update_selector_def Let_def case_prod_beta del: map_option_eq_Some option.map_disc_iff)
next
  case (Some labels)
  then show ?thesis
    using assms by (auto simp: allowed_namespaces_def update_selector_def namespace_expr_def is_namespace_expr_def
        split: list.splits if_splits)
qed

lemma updateListenerNamespaces_allowed: "allowed_namespaces (fst (updateListenerNamespaces l ns)) \<in> {None, Some ns}"
proof (cases "l_selector l")
  case None
  then show ?thesis by (simp add: updateListenerNamespaces_def allowed_namespaces_def)
next
  case (Some sel)
  then have "l_selector (fst (updateListenerNamespaces l ns)) = Some (fst (update_selector sel ns))"
    by (simp add: updateListenerNamespaces_def Let_def case_prod_beta l_selector_set)
  then show ?thesis by (rule update_selector_allowed)
qed

lemma reconcile_upd_known:
  assumes "fst e \<notin> set unk"
  shows "\<exists>l. fst (reconcile_upd tls unk e x) = Some l \<and> l_tls l = tls_of tls (fst e) \<and>
    allowed_namespaces l \<in> {None, Some (sort (snd e))}"
proof (cases x)
  case None
  then show ?thesis
    using assms by (auto simp: reconcile_upd_def createListenerWithNamespaces_def allowed_namespaces_def l_selector_def
        namespace_expr_def is_namespace_expr_def)
next
  case (Some l)
  then show ?thesis
    using assms updateListenerNamespaces_allowed [of l "sort (snd e)"]
    by (auto simp: reconcile_upd_def Let_def case_prod_beta updateListenerTLS_def)
qed

text \<open>The wanted state, by hostname.\<close>

definition ns_of :: "listener_state \<Rightarrow> string \<Rightarrow> string list" where
  "ns_of st h = (case map_of st h of None \<Rightarrow> [] | Some s \<Rightarrow> s)"

lemma add_host_at:
  "ns_of (add_host ns k st) h = (if h = k then List.insert ns (ns_of st h) else ns_of st h)"
  "mhas (add_host ns k st) h \<longleftrightarrow> h = k \<or> mhas st h" "wf_map st \<Longrightarrow> wf_map (add_host ns k st)"
  by (simp_all add: add_host_def ns_of_def mhas_def)

lemma insert_insert [simp]: "List.insert x (List.insert x xs) = List.insert x xs"
  by (simp add: List.insert_def)

lemma add_hosts_at:
  "ns_of (fold (add_host ns) hs st) h = (if h \<in> set hs then List.insert ns (ns_of st h) else ns_of st h)"
  "mhas (fold (add_host ns) hs st) h \<longleftrightarrow> h \<in> set hs \<or> mhas st h" "wf_map st \<Longrightarrow> wf_map (fold (add_host ns) hs st)"
  by (induction hs arbitrary: st) (auto simp: add_host_at)

definition route_namespaces_for :: "http_route list \<Rightarrow> string \<Rightarrow> string set" where
  "route_namespaces_for routes h = {hr_namespace r |r. r \<in> set routes \<and> h \<in> set (hr_hostnames r)}"

lemma desired_state_at:
  "wf_map (calculateDesiredListenerState routes)"
  "distinct (ns_of (calculateDesiredListenerState routes) h) \<and>
   set (ns_of (calculateDesiredListenerState routes) h) = route_namespaces_for routes h"
  "mhas (calculateDesiredListenerState routes) h \<longleftrightarrow> (\<exists>r \<in> set routes. h \<in> set (hr_hostnames r))"
  unfolding calculateDesiredListenerState_def
  by (induction routes rule: rev_induct)
     (auto simp: add_hosts_at route_namespaces_for_def ns_of_def [of "[]"])

lemma desired_state_entry:
  assumes "(h, nss) \<in> set (calculateDesiredListenerState routes)"
  shows "sort nss = sorted_list_of_set (route_namespaces_for routes h)"
proof -
  have "ns_of (calculateDesiredListenerState routes) h = nss"
    using assms desired_state_at(1) [of routes] by (simp add: ns_of_def)
  then have "distinct nss" "set nss = route_namespaces_for routes h" using desired_state_at(2) [of routes h] by auto
  then show ?thesis by (metis distinct_remdups_id sorted_list_of_set_sort_remdups)
qed

text \<open>Merging one route.\<close>

definition merge_upd ::
  "http_route \<Rightarrow> listener_tls option gomap \<Rightarrow> string \<Rightarrow> listener option \<Rightarrow> listener option \<times> bool" where
  "merge_upd route tls h x = (case x of
     Some l \<Rightarrow>
       let (l, c1) = addNamespaceToListener l (hr_namespace route);
           c2 = (l_tls l = None \<and> tls_of tls h \<noteq> None)
       in (Some (if c2 then l\<lparr>l_tls := tls_of tls h\<rparr> else l), c1 \<or> c2)
   | None \<Rightarrow> (Some (createListenerWithNamespaces h [hr_namespace route] (tls_of tls h)), True))"

lemma addNamespace_fields [simp]:
  "l_hostname (fst (addNamespaceToListener l ns)) = l_hostname l" "l_name (fst (addNamespaceToListener l ns)) = l_name l"
  "l_tls (fst (addNamespaceToListener l ns)) = l_tls l" "l_port (fst (addNamespaceToListener l ns)) = l_port l"
  "l_protocol (fst (addNamespaceToListener l ns)) = l_protocol l"
  by (simp_all add: addNamespaceToListener_def Let_def case_prod_beta split: option.split)

lemma addNamespace_noop: "\<not> snd (addNamespaceToListener l ns) \<Longrightarrow> fst (addNamespaceToListener l ns) = l"
  by (auto simp: addNamespaceToListener_def Let_def set_selector_id split: option.splits prod.splits dest!: change_expr_noop)

lemma addNamespace_again:
  "addNamespaceToListener (fst (addNamespaceToListener l ns)) ns = (fst (addNamespaceToListener l ns), False)"
proof (cases "l_selector l")
  case (Some sel)
  let ?f = "\<lambda>vs. if ns \<in> set vs then None else Some (sort (vs @ [ns]))"
  have "change_expr ?f (fst (change_expr ?f (ls_matchExpressions sel))) = (fst (change_expr ?f (ls_matchExpressions sel)), False)"
    by (rule change_expr_again) (auto split: if_splits)
  then show ?thesis
    using Some l_selector_set [of l]
    by (simp add: addNamespaceToListener_def Let_def case_prod_beta)
qed (simp add: addNamespaceToListener_def)

lemma addNamespace_tls:
  "addNamespaceToListener (l\<lparr>l_tls := t\<rparr>) ns = apfst (\<lambda>l. l\<lparr>l_tls := t\<rparr>) (addNamespaceToListener l ns)"
  by (simp add: addNamespaceToListener_def Let_def case_prod_beta apfst_def map_prod_def split: option.split)

lemma merge_upd_again: "merge_upd route tls h (fst (merge_upd route tls h x)) = (fst (merge_upd route tls h x), False)"
proof (cases x)
  case None
  have "addNamespaceToListener (createListenerWithNamespaces h [ns] t) ns = (createListenerWithNamespaces h [ns] t, False)" for ns t
    by (simp add: addNamespaceToListener_def createListenerWithNamespaces_def l_selector_def set_selector_def
        namespace_expr_def is_namespace_expr_def)
  moreover have "l_tls (createListenerWithNamespaces h ns t) = t" for ns t
    by (simp add: createListenerWithNamespaces_def)
  ultimately show ?thesis using None by (auto simp: merge_upd_def Let_def)
next
  case (Some l)
  then show ?thesis
    using addNamespace_again [of l "hr_namespace route"]
    by (auto simp: merge_upd_def Let_def case_prod_beta addNamespace_tls apfst_def map_prod_def prod_eq_iff)
qed

interpretation mh: host_step "merge_host route tls" "\<lambda>h. h" "merge_upd route tls" for route tls
proof
  fix e ls b h x
  note defs = merge_host_def merge_upd_def Let_def case_prod_beta
  show "first_for (fst (merge_host route tls e (ls, b))) h =
      (if h = e then fst (merge_upd route tls e (first_for ls h)) else first_for ls h)"
    using findListener_Some [of ls e] findListener_None [of ls e]
    by (auto simp: defs first_for_update first_for_append split: option.splits)
  show "snd (merge_host route tls e (ls, b)) = (b \<or> snd (merge_upd route tls e (first_for ls e)))"
    using findListener_Some [of ls e] findListener_None [of ls e]
    by (auto simp: defs split: option.splits)
  show "fst (merge_host route tls e (ls, b)) = ls" if "\<not> snd (merge_upd route tls e (first_for ls e))"
    using that findListener_Some [of ls e] findListener_None [of ls e]
    by (auto simp: defs addNamespace_noop split: option.splits if_splits)
  show "merge_upd route tls e (fst (merge_upd route tls e x)) = (fst (merge_upd route tls e x), False)"
    by (rule merge_upd_again)
  show "map l_hostname (fst (merge_host route tls e (ls, b))) \<in> {map l_hostname ls, map l_hostname ls @ [Some e]}"
    using findListener_Some [of ls e]
    by (auto simp: defs hosts_update split: option.splits)
qed

text \<open>A listener that only gained: its identity and its certificate stay, its namespaces grow.\<close>

definition extends :: "listener \<Rightarrow> listener \<Rightarrow> bool" where
  "extends l l' \<longleftrightarrow> l_name l' = l_name l \<and> l_hostname l' = l_hostname l \<and> l_port l' = l_port l \<and>
     l_protocol l' = l_protocol l \<and> (l_tls l \<noteq> None \<longrightarrow> l_tls l' = l_tls l) \<and>
     (case allowed_namespaces l of
        None \<Rightarrow> allowed_namespaces l' = None
      | Some ns \<Rightarrow> \<exists>ns'. allowed_namespaces l' = Some ns' \<and> set ns \<subseteq> set ns')"

lemma extends_refl [simp]: "extends l l"
  by (simp add: extends_def split: option.split)

lemma extends_trans: "extends a b \<Longrightarrow> extends b c \<Longrightarrow> extends a c"
  by (auto simp: extends_def split: option.splits)

lemma change_expr_grow:
  assumes "\<And>vs vs'. f vs = Some vs' \<Longrightarrow> set vs \<subseteq> set vs'"
  shows "case List.find is_namespace_expr es of
      None \<Rightarrow> List.find is_namespace_expr (fst (change_expr f es)) = None
    | Some e \<Rightarrow> \<exists>e'. List.find is_namespace_expr (fst (change_expr f es)) = Some e' \<and> set (sr_values e) \<subseteq> set (sr_values e')"
  using assms by (induction es) (auto simp: Let_def case_prod_beta split: option.splits)

lemma addNamespace_extends: "extends l (fst (addNamespaceToListener l ns))"
proof (cases "l_selector l")
  case None
  then show ?thesis by (simp add: addNamespaceToListener_def)
next
  case (Some sel)
  let ?f = "\<lambda>vs. if ns \<in> set vs then None else Some (sort (vs @ [ns]))"
  have "l_selector (fst (addNamespaceToListener l ns)) =
      Some (sel\<lparr>ls_matchExpressions := fst (change_expr ?f (ls_matchExpressions sel))\<rparr>)"
    using Some l_selector_set [of l] by (simp add: addNamespaceToListener_def Let_def case_prod_beta)
  moreover have "case List.find is_namespace_expr (ls_matchExpressions sel) of
      None \<Rightarrow> List.find is_namespace_expr (fst (change_expr ?f (ls_matchExpressions sel))) = None
    | Some e \<Rightarrow> \<exists>e'. List.find is_namespace_expr (fst (change_expr ?f (ls_matchExpressions sel))) = Some e' \<and>
        set (sr_values e) \<subseteq> set (sr_values e')"
    by (rule change_expr_grow) (auto split: if_splits)
  ultimately show ?thesis
    using Some by (auto simp: extends_def allowed_namespaces_def split: option.splits)
qed

lemma list_all2_update: "i < length xs \<Longrightarrow> R (xs ! i) y \<Longrightarrow> (\<And>x. R x x) \<Longrightarrow> list_all2 R xs (xs[i := y])"
  by (auto simp: list_all2_conv_all_nth nth_list_update)

lemma merge_host_extends: "\<exists>ls1 ls2. fst (merge_host route tls h (ls, b)) = ls1 @ ls2 \<and> list_all2 extends ls ls1"
proof (cases "findListenerByHostname ls h")
  case None
  then have "fst (merge_host route tls h (ls, b)) = ls @ [createListenerWithNamespaces h [hr_namespace route] (tls_of tls h)]"
    by (simp add: merge_host_def)
  moreover have "list_all2 extends ls ls" by (rule list.rel_refl) simp
  ultimately show ?thesis by blast
next
  case (Some i)
  define l where "l = fst (addNamespaceToListener (ls ! i) (hr_namespace route))"
  have "extends (ls ! i) l" by (simp add: l_def addNamespace_extends)
  moreover have "l_tls l = None \<Longrightarrow> extends l (l\<lparr>l_tls := t\<rparr>)" for t
    by (simp add: extends_def split: option.split)
  ultimately have "extends (ls ! i) (if l_tls l = None \<and> tls_of tls h \<noteq> None then l\<lparr>l_tls := tls_of tls h\<rparr> else l)"
    by (auto intro: extends_trans)
  then have "list_all2 extends ls (ls[i := if l_tls l = None \<and> tls_of tls h \<noteq> None then l\<lparr>l_tls := tls_of tls h\<rparr> else l])"
    using findListener_Some [OF Some] by (intro list_all2_update) auto
  moreover have "fst (merge_host route tls h (ls, b)) =
      ls[i := if l_tls l = None \<and> tls_of tls h \<noteq> None then l\<lparr>l_tls := tls_of tls h\<rparr> else l] @ []"
    using Some by (simp add: merge_host_def Let_def case_prod_beta l_def)
  ultimately show ?thesis by blast
qed

lemma merge_hosts_extend: "\<exists>ls1 ls2. fst (fold (merge_host route tls) hs (ls, b)) = ls1 @ ls2 \<and> list_all2 extends ls ls1"
proof (induction hs arbitrary: ls b)
  case Nil
  have "list_all2 extends ls ls" by (rule list.rel_refl) simp
  then show ?case by (intro exI [of _ ls] exI [of _ "[]"]) simp
next
  case (Cons h hs)
  obtain ls' b' where s: "merge_host route tls h (ls, b) = (ls', b')" by (cases "merge_host route tls h (ls, b)")
  obtain x y where xy: "ls' = x @ y" "list_all2 extends ls x" using merge_host_extends [of route tls h ls b] s by auto
  obtain p q where pq: "fst (fold (merge_host route tls) hs (ls', b')) = p @ q" "list_all2 extends ls' p"
    using Cons.IH by blast
  then obtain p1 p2 where "p = p1 @ p2" "list_all2 extends x p1" using xy(1) by (auto simp: list_all2_append1)
  then have "fst (fold (merge_host route tls) (h # hs) (ls, b)) = p1 @ (p2 @ q)" "list_all2 extends ls p1"
    using s pq(1) xy(2) list_all2_trans [of extends extends extends ls x p1] extends_trans by auto
  then show ?case by blast
qed

lemma reconciled_listeners:
  assumes "is_order ord" and "is_order ord'"
  shows "let state = calculateDesiredListenerState routes;
      (gw', updated) = reconcileListenersToDesiredState ord gw state tls unk
   in (\<forall>l \<in> set (gw_listeners gw'). \<exists>r \<in> set routes. host_of l \<in> set (hr_hostnames r)) \<and>
      (\<forall>r \<in> set routes. \<forall>h \<in> set (hr_hostnames r) - set unk. \<exists>l. first_for (gw_listeners gw') h = Some l \<and>
         l_tls l = tls_of tls h \<and>
         allowed_namespaces l \<in> {None, Some (sorted_list_of_set (route_namespaces_for routes h))}) \<and>
      reconcileListenersToDesiredState ord' gw' state tls unk = (gw', False)"
proof -
  define state where "state = calculateDesiredListenerState routes"
  define kept where "kept = filter (\<lambda>l. mhas state (host_of l)) (gw_listeners gw)"
  define removed where "removed = (\<exists>l \<in> set (gw_listeners gw). \<not> mhas state (host_of l))"
  define ls where "ls = fst (fold (reconcile_host tls unk) (ord state) (kept, removed))"
  have wf: "wf_map state" by (simp add: state_def desired_state_at)
  have inj: "inj_on fst (set (ord state))"
    using wf assms(1) by (simp add: distinct_map)
  have hosts: "mhas state h \<longleftrightarrow> (\<exists>r \<in> set routes. h \<in> set (hr_hostnames r))" for h
    by (simp add: state_def desired_state_at)
  obtain es where es: "map l_hostname ls = map l_hostname kept @ map (\<lambda>e. Some (fst e)) es" "set es \<subseteq> set state"
    using rc.fold_hosts [of tls unk "ord state" kept removed] assms(1) unfolding ls_def by auto
  have all: "mhas state (host_of l)" if "l \<in> set ls" for l
  proof -
    have "l_hostname l \<in> set (map l_hostname kept) \<union> Some ` fst ` set es"
      using that arg_cong [OF es(1), of set] by (auto simp: image_image)
    then show ?thesis
      using es(2) by (auto simp: kept_def host_of_def mhas_iff split: option.splits intro: rev_image_eqI)
  qed
  have known: "\<exists>l. first_for ls h = Some l \<and> l_tls l = tls_of tls h \<and>
      allowed_namespaces l \<in> {None, Some (sorted_list_of_set (route_namespaces_for routes h))}"
    if h: "mhas state h" "h \<notin> set unk" for h
  proof -
    obtain nss where e: "(h, nss) \<in> set state" using h(1) by (auto simp: mhas_iff)
    then have "List.find (\<lambda>x. fst x = h) (ord state) = Some (h, nss)"
      using find_inj [OF inj, of "(h, nss)"] assms(1) by simp
    then show ?thesis
      using rc.fold_at [OF inj, of tls unk kept removed h] reconcile_upd_known [of "(h, nss)" unk tls] h(2)
        desired_state_entry [of h nss routes] e
      by (auto simp: ls_def state_def)
  qed
  have run: "reconcileListenersToDesiredState ord gw state tls unk =
      (gw\<lparr>gw_listeners := ls\<rparr>, snd (fold (reconcile_host tls unk) (ord state) (kept, removed)))"
    by (simp add: reconcileListenersToDesiredState_def kept_def removed_def ls_def case_prod_beta Let_def)
  have "filter (\<lambda>l. mhas state (host_of l)) ls = ls" using all by (simp add: filter_id_conv)
  moreover have "fold (reconcile_host tls unk) (ord' state) (ls, False) = (ls, False)"
    using rc.fold_again [OF inj, of "ord' state" tls unk kept removed False] assms unfolding ls_def by simp
  ultimately have again: "reconcileListenersToDesiredState ord' (gw\<lparr>gw_listeners := ls\<rparr>) state tls unk =
      (gw\<lparr>gw_listeners := ls\<rparr>, False)"
    using all by (auto simp: reconcileListenersToDesiredState_def)
  show ?thesis
    unfolding Let_def state_def [symmetric] run using all known again hosts by auto
qed

lemma reconcile_unchanged:
  assumes "\<not> snd (reconcileListenersToDesiredState ord gw state tls unk)"
  shows "fst (reconcileListenersToDesiredState ord gw state tls unk) = gw"
proof -
  let ?kept = "filter (\<lambda>l. mhas state (host_of l)) (gw_listeners gw)"
  let ?removed = "\<exists>l \<in> set (gw_listeners gw). \<not> mhas state (host_of l)"
  have "\<not> snd (fold (reconcile_host tls unk) (ord state) (?kept, ?removed))"
    using assms by (simp add: reconcileListenersToDesiredState_def Let_def case_prod_beta)
  then have run: "fold (reconcile_host tls unk) (ord state) (?kept, ?removed) = (?kept, False)"
    using rc.fold_unchanged by blast
  moreover have "\<not> ?removed"
    using rc.fold_flag [of tls unk "ord state" ?kept] run by (cases ?removed) auto
  then have "?kept = gw_listeners gw" by (simp add: filter_id_conv)
  ultimately show ?thesis by (simp add: reconcileListenersToDesiredState_def Let_def)
qed

lemma updateGatewayListeners_merge:
  "let (gw', updated) = updateGatewayListeners ord r gw route ing;
       n = length (gw_listeners gw)
   in list_all2 extends (gw_listeners gw) (take n (gw_listeners gw')) \<and>
      (\<forall>h \<in> set (hr_hostnames route). first_for (gw_listeners gw') h \<noteq> None) \<and>
      (\<not> updated \<longrightarrow> gw' = gw) \<and>
      gw_listeners (fst (updateGatewayListeners ord r gw' route ing)) = gw_listeners gw'"
proof -
  obtain tls ms where b: "buildTLSForRouteFromIngress r route ing = (tls, ms)"
    by (cases "buildTLSForRouteFromIngress r route ing")
  define p where "p = fold (merge_host route tls) (hr_hostnames route) (gw_listeners gw, False)"
  obtain gw' updated where u: "updateGatewayListeners ord r gw route ing = (gw', updated)"
    by (cases "updateGatewayListeners ord r gw route ing")
  have ls: "gw_listeners (fst (updateGatewayListeners ord r g route ing)) =
      fst (fold (merge_host route tls) (hr_hostnames route) (gw_listeners g, False))" for g
    by (simp add: updateGatewayListeners_def b case_prod_beta Let_def)
  have gw': "gw_listeners gw' = fst p" using ls [of gw] u by (simp add: p_def)
  obtain x y where xy: "fst p = x @ y" "list_all2 extends (gw_listeners gw) x"
    using merge_hosts_extend [of route tls "hr_hostnames route" "gw_listeners gw" False] unfolding p_def by blast
  have inj: "inj_on (\<lambda>h. h) (set (hr_hostnames route))" by simp
  have hosts: "first_for (fst p) h \<noteq> None" if "h \<in> set (hr_hostnames route)" for h
    using mh.fold_at [OF inj, of route tls "gw_listeners gw" False h] find_inj [OF inj that]
    by (auto simp: p_def merge_upd_def Let_def case_prod_beta split: option.splits)
  have "gw' = gw" if "\<not> updated"
  proof -
    have "\<not> snd p \<and> gw' = gw\<lparr>gw_listeners := fst p\<rparr>"
      using u that by (auto simp: updateGatewayListeners_def b p_def case_prod_beta Let_def split: if_splits)
    then show ?thesis
      using mh.fold_unchanged [of route tls "hr_hostnames route" "gw_listeners gw" False] by (simp add: p_def)
  qed
  moreover have "gw_listeners (fst (updateGatewayListeners ord r gw' route ing)) = gw_listeners gw'"
    using mh.fold_again [OF inj, of "hr_hostnames route" route tls "gw_listeners gw" False False]
    by (simp add: ls gw' p_def)
  ultimately show ?thesis
    using u gw' xy hosts list_all2_lengthD [OF xy(2)] by (simp add: Let_def)
qed

lemma updateGatewayListeners_key [simp]:
  "m_namespace (gw_meta (fst (updateGatewayListeners ord r gw route ing))) = m_namespace (gw_meta gw)"
  "m_name (gw_meta (fst (updateGatewayListeners ord r gw route ing))) = m_name (gw_meta gw)"
  by (simp_all add: updateGatewayListeners_def Let_def case_prod_beta)

section \<open>Properties\<close>


text \<open>A Gateway without listeners, and one that has to change, for the examples.\<close>

definition example_gateway :: gateway where
  "example_gateway = \<lparr>gw_meta = empty_meta\<lparr>m_name := ''shared'', m_namespace := ''gateway''\<rparr>,
     gw_className = ''nginx'', gw_infrastructure = None,
     gw_listeners = [createListenerWithNamespaces ''old.domain.cc'' [''shop''] None]\<rparr>"

definition example_listener_route :: http_route where
  "example_listener_route = \<lparr>hr_meta = empty_meta\<lparr>m_name := ''prod'', m_namespace := ''shop''\<rparr>,
     hr_hostnames = [''app.domain.cc''], hr_parentRefs = [], hr_rules = []\<rparr>"


text \<open>
  C37. Merging one route into a Gateway never takes anything away: the listeners stay in place with
  their names, hostnames and certificates and let in at least the namespaces they did; every
  hostname of the route has a listener afterwards; when the merge reports no change the Gateway
  is the same; and merging the listeners again reports no change.
\<close>

theorem updateGatewayListeners_monotone:
  "let (gw', updated) = updateGatewayListeners ord r gw route ing;
       n = length (gw_listeners gw)
   in list_all2 extends (gw_listeners gw) (take n (gw_listeners gw')) \<and>
      (\<forall>h \<in> set (hr_hostnames route). first_for (gw_listeners gw') h \<noteq> None) \<and>
      (\<not> updated \<longrightarrow> gw' = gw) \<and>
      gw_listeners (fst (updateGatewayListeners ord r gw' route ing)) = gw_listeners gw'"
  by (rule updateGatewayListeners_merge)

theorem updateGatewayListeners_monotone_witness:
  "first_for (gw_listeners (fst (updateGatewayListeners (\<lambda>xs. xs) \<lparr>rr_gatewayNamespace = ''gateway'', rr_gatewayClassName = [],
      rr_hostnameRewriteFrom = [], rr_hostnameRewriteTo = [], rr_postProcessingMode = []\<rparr>
      example_gateway example_listener_route example_ingress))) ''app.domain.cc'' \<noteq> None"
proof -
  have "hr_hostnames example_listener_route = [''app.domain.cc'']" by (simp add: example_listener_route_def)
  then show ?thesis
    using updateGatewayListeners_monotone [of "\<lambda>xs. xs" "\<lparr>rr_gatewayNamespace = ''gateway'', rr_gatewayClassName = [],
        rr_hostnameRewriteFrom = [], rr_hostnameRewriteTo = [], rr_postProcessingMode = []\<rparr>"
        example_gateway example_listener_route example_ingress]
    by (simp add: Let_def case_prod_beta)
qed

end
