(* ===== verification/HTTPRoute_Manager.thy ===== *)
theory HTTPRoute_Manager
  imports Utils_Basic
begin

text \<open>
  \<open>internal/utils/httproute.go\<close>: listing the HTTPRoutes of an Ingress, splitting a route
  that exceeds the Gateway API's rule limit, applying the wanted routes and removing obsolete
  ones, and resolving named ports. The argument \<open>rec\<close> is the counter that the caller passed to record with, if any.
\<close>

definition MaxHTTPRouteRules :: nat where
  "MaxHTTPRouteRules = 16"

definition record_metric :: "metric_vec option \<Rightarrow> string \<Rightarrow> string \<Rightarrow> string \<Rightarrow> world \<Rightarrow> world" where
  "record_metric rec op ns name w = (case rec of Some counter \<Rightarrow> emit (Metric counter op ns name) w | None \<Rightarrow> w)"

section \<open>Listing and splitting\<close>

definition GetHTTPRoutesWithPrefix ::
  "server \<Rightarrow> string \<Rightarrow> string \<Rightarrow> world \<Rightarrow> http_route list result \<times> world" where
  "GetHTTPRoutesWithPrefix srv namespace pre w =
     (let (r, w) = do_call srv (ListAll KRoute namespace) w
      in case decode_list as_route r of
           Inl e \<Rightarrow> (Inl e, w)
         | Inr items \<Rightarrow>
             (Inr (filter (\<lambda>r. HasPrefix (hr_name r) pre \<and>
                IsManagedByUsForIngress (hr_annotations r) namespace pre) items), w))"

function split_loop :: "http_route \<Rightarrow> http_route_rule list \<Rightarrow> nat \<Rightarrow> http_route list" where
  "split_loop httpRoute rules partNum =
     (if rules = [] then []
      else let part = httpRoute\<lparr>hr_rules := take MaxHTTPRouteRules rules\<rparr>;
               part = (if partNum > 1
                       then part\<lparr>hr_meta := (hr_meta part)\<lparr>m_name :=
                              hr_name httpRoute @ ''-'' @ show_int (int partNum)\<rparr>\<rparr>
                       else part)
           in part # split_loop httpRoute (drop MaxHTTPRouteRules rules) (partNum + 1))"
  by pat_completeness auto
termination
  by (relation "measure (\<lambda>(r, rules, n). length rules)") (auto simp: MaxHTTPRouteRules_def)

declare split_loop.simps [simp del]

definition SplitHTTPRouteIfNeeded :: "http_route \<Rightarrow> http_route list" where
  "SplitHTTPRouteIfNeeded httpRoute =
     (if length (hr_rules httpRoute) \<le> MaxHTTPRouteRules then [httpRoute]
      else split_loop httpRoute (hr_rules httpRoute) 1)"

section \<open>Applying\<close>

definition create_route ::
  "server \<Rightarrow> metric_vec option \<Rightarrow> string \<Rightarrow> http_route \<Rightarrow> world \<Rightarrow> unit go_result \<times> world" where
  "create_route srv rec message httpRoute w =
     (let (r, w) = do_call srv (Create (ORoute httpRoute)) w
      in case write_error r of
           Some e \<Rightarrow> (Inl (Wrapped message (ApiError e)), w)
         | None \<Rightarrow> (Inr (), record_metric rec ''create'' (hr_namespace httpRoute) (hr_name httpRoute) w))"

definition applyHTTPRoute ::
  "server \<Rightarrow> metric_vec option \<Rightarrow> http_route \<Rightarrow> world \<Rightarrow> unit go_result \<times> world" where
  "applyHTTPRoute srv rec httpRoute w =
     (let ns = hr_namespace httpRoute; name = hr_name httpRoute
      in case CanUpdateResource srv as_route hr_annotations KRoute ns name w of
           (Inl e, w) \<Rightarrow> (Inl (ApiError e), w)
         | (Inr (canManage, _), w) \<Rightarrow>
             if \<not> canManage then (Inr (), w)
             else let (r, w) = do_call srv (Get KRoute ns name) w
                  in case decode as_route r of
                       Inl e \<Rightarrow>
                         if e = NotFound
                         then create_route srv rec ''failed to create HTTPRoute'' httpRoute w
                         else (Inl (ApiError e), w)
                     | Inr existing \<Rightarrow>
                         let existing = existing\<lparr>
                               hr_meta := (hr_meta existing)\<lparr>m_annotations := hr_annotations httpRoute\<rparr>,
                               hr_hostnames := hr_hostnames httpRoute,
                               hr_parentRefs := hr_parentRefs httpRoute,
                               hr_rules := hr_rules httpRoute\<rparr>;
                             (r, w) = do_call srv (Update (ORoute existing)) w
                         in case write_error r of
                              None \<Rightarrow> (Inr (), record_metric rec ''update'' (hr_namespace existing) (hr_name existing) w)
                            | Some e \<Rightarrow>
                                if e = NotFound
                                then create_route srv rec ''failed to recreate HTTPRoute'' httpRoute w
                                else (Inl (Wrapped ''failed to update HTTPRoute'' (ApiError e)), w))"

fun delete_routes ::
  "server \<Rightarrow> metric_vec option \<Rightarrow> ingress \<Rightarrow> http_route list \<Rightarrow> world \<Rightarrow> unit go_result \<times> world" where
  "delete_routes srv rec ing [] w = (Inr (), w)"
| "delete_routes srv rec ing (route # routes) w =
     (if IsManagedByUsForIngress (hr_annotations route) (i_namespace ing) (i_name ing)
      then let (r, w) = do_call srv (Delete KRoute (hr_namespace route) (hr_name route) False) w
           in case write_error r of
                Some e \<Rightarrow>
                  if e \<noteq> NotFound
                  then (Inl (Wrapped (''failed to delete obsolete HTTPRoute '' @ hr_name route) (ApiError e)), w)
                  else delete_routes srv rec ing routes
                         (record_metric rec ''delete'' (hr_namespace route) (hr_name route) w)
              | None \<Rightarrow> delete_routes srv rec ing routes
                         (record_metric rec ''delete'' (hr_namespace route) (hr_name route) w)
      else delete_routes srv rec ing routes w)"

fun apply_routes ::
  "server \<Rightarrow> metric_vec option \<Rightarrow> http_route list \<Rightarrow> world \<Rightarrow> unit go_result \<times> world" where
  "apply_routes srv rec [] w = (Inr (), w)"
| "apply_routes srv rec (route # routes) w =
     (case applyHTTPRoute srv rec route w of
        (Inl e, w) \<Rightarrow> (Inl (Wrapped (''failed to apply HTTPRoute '' @ hr_name route) e), w)
      | (Inr _, w) \<Rightarrow> apply_routes srv rec routes w)"

definition ApplyHTTPRoutesAtomic ::
  "server \<Rightarrow> metric_vec option \<Rightarrow> ingress \<Rightarrow> http_route list \<Rightarrow> world \<Rightarrow> unit go_result \<times> world" where
  "ApplyHTTPRoutesAtomic srv rec ing desiredRoutes w =
     (case GetHTTPRoutesWithPrefix srv (i_namespace ing) (i_name ing) w of
        (Inl e, w) \<Rightarrow> (Inl (Wrapped ''failed to get existing HTTPRoutes'' (ApiError e)), w)
      | (Inr existingRoutes, w) \<Rightarrow>
          if length existingRoutes = 1 \<and> length desiredRoutes = 1
          then applyHTTPRoute srv rec (desiredRoutes ! 0) w
          else (case delete_routes srv rec ing existingRoutes w of
                  (Inl e, w) \<Rightarrow> (Inl e, w)
                | (Inr _, w) \<Rightarrow> apply_routes srv rec desiredRoutes w))"

section \<open>Named ports\<close>

definition find_port_in_paths :: "string \<Rightarrow> ingress_path list \<Rightarrow> string option" where
  "find_port_in_paths serviceName paths =
     map_option (\<lambda>path. case ip_service path of Some svc \<Rightarrow> sp_name (is_port svc) | None \<Rightarrow> [])
       (find (\<lambda>path. case ip_service path of Some svc \<Rightarrow> is_name svc = serviceName | None \<Rightarrow> False) paths)"

fun findPortNameInIngresses :: "ingress list \<Rightarrow> string \<Rightarrow> string" where
  "findPortNameInIngresses [] serviceName = []"
| "findPortNameInIngresses (ing # ings) serviceName =
     (case find_port_in_paths serviceName
             (concat (map (\<lambda>rule. case ir_http rule of None \<Rightarrow> [] | Some paths \<Rightarrow> paths) (i_rules ing))) of
        Some portName \<Rightarrow> portName
      | None \<Rightarrow> findPortNameInIngresses ings serviceName)"

definition resolveServicePort ::
  "server \<Rightarrow> string \<Rightarrow> string \<Rightarrow> string \<Rightarrow> world \<Rightarrow> int go_result \<times> world" where
  "resolveServicePort srv namespace serviceName portName w =
     (let (r, w) = do_call srv (Get KService namespace serviceName) w
      in case decode as_service r of
           Inl e \<Rightarrow> (Inl (Wrapped ''failed to get Service'' (ApiError e)), w)
         | Inr service \<Rightarrow>
             (case find (\<lambda>port. sp_name port = portName) (svc_ports service) of
                Some port \<Rightarrow> (Inr (sp_number port), w)
              | None \<Rightarrow> (Inl (Message (''port '' @ portName @ '' not found in Service '' @ serviceName)), w)))"

definition resolve_ref ::
  "server \<Rightarrow> string \<Rightarrow> ingress list \<Rightarrow> http_backend_ref \<Rightarrow> world \<Rightarrow> http_backend_ref \<times> world" where
  "resolve_ref srv namespace sources ref w =
     (if br_port ref = Some 0
      then let portName = findPortNameInIngresses sources (br_name ref)
           in if portName = [] then (ref\<lparr>br_port := Some 80\<rparr>, w)
              else (case resolveServicePort srv namespace (br_name ref) portName w of
                      (Inl e, w) \<Rightarrow> (ref\<lparr>br_port := Some 80\<rparr>, w)
                    | (Inr p, w) \<Rightarrow> (ref\<lparr>br_port := Some p\<rparr>, w))
      else (ref, w))"

fun map_world :: "('a \<Rightarrow> world \<Rightarrow> 'b \<times> world) \<Rightarrow> 'a list \<Rightarrow> world \<Rightarrow> 'b list \<times> world" where
  "map_world f [] w = ([], w)"
| "map_world f (x # xs) w = (let (y, w) = f x w; (ys, w) = map_world f xs w in (y # ys, w))"

definition ResolveNamedPorts ::
  "server \<Rightarrow> ingress \<Rightarrow> http_route \<Rightarrow> ingress list \<Rightarrow> world \<Rightarrow> http_route \<times> world" where
  "ResolveNamedPorts srv ing httpRoute extra w =
     (let sources = ing # extra;
          (rules, w) = map_world (\<lambda>rule w.
             let (refs, w) = map_world (resolve_ref srv (i_namespace ing) sources) (rr_backendRefs rule) w
             in (rule\<lparr>rr_backendRefs := refs\<rparr>, w)) (hr_rules httpRoute) w
      in (httpRoute\<lparr>hr_rules := rules\<rparr>, w))"

section \<open>Lemmas\<close>

lemma split_loop_rules: "concat (map hr_rules (split_loop r rules n)) = rules"
proof (induction r rules n rule: split_loop.induct)
  case (1 r rules n)
  then show ?case by (subst split_loop.simps) (simp add: Let_def)
qed

lemma split_loop_parts:
  "p \<in> set (split_loop r rules n) \<Longrightarrow>
   0 < length (hr_rules p) \<and> length (hr_rules p) \<le> 16 \<and> hr_hostnames p = hr_hostnames r \<and>
   hr_parentRefs p = hr_parentRefs r \<and> (hr_meta p)\<lparr>m_name := hr_name r\<rparr> = hr_meta r"
proof (induction r rules n rule: split_loop.induct)
  case (1 r rules n)
  then show ?case
    by (subst (asm) (2) split_loop.simps) (auto simp: Let_def MaxHTTPRouteRules_def split: if_splits)
qed

lemma split_loop_names:
  "map hr_name (split_loop r rules n) =
     map (\<lambda>i. if i > 1 then hr_name r @ ''-'' @ show_int (int i) else hr_name r)
       [n..<n + length (split_loop r rules n)]"
proof (induction r rules n rule: split_loop.induct)
  case (1 r rules n)
  show ?case
  proof (cases "rules = []")
    case True
    then show ?thesis by (subst (1 2) split_loop.simps) simp
  next
    case False
    let ?rest = "split_loop r (drop MaxHTTPRouteRules rules) (n + 1)"
    have "[n..<n + Suc (length ?rest)] = n # [Suc n..<n + Suc (length ?rest)]"
      by (rule upt_conv_Cons) simp
    then have upt: "[n..<n + Suc (length ?rest)] = n # [n + 1..<n + 1 + length ?rest]" by simp
    have len: "length (split_loop r rules n) = Suc (length ?rest)"
      using False by (subst split_loop.simps) (simp add: Let_def)
    show ?thesis
      unfolding len upt using False "1.IH" [OF False refl refl]
      by (subst split_loop.simps) (simp add: Let_def)
  qed
qed

lemma split_names_distinct: "n \<ge> 1 \<Longrightarrow> distinct (map hr_name (split_loop r rules n))"
  unfolding split_loop_names
  by (auto simp: distinct_map inj_on_def show_int_inject)

text \<open>What one application does to a store that keeps its writes.\<close>

definition updated_route :: "http_route \<Rightarrow> http_route \<Rightarrow> http_route" where
  "updated_route existing desired = existing\<lparr>
     hr_meta := (hr_meta existing)\<lparr>m_annotations := hr_annotations desired\<rparr>,
     hr_hostnames := hr_hostnames desired, hr_parentRefs := hr_parentRefs desired, hr_rules := hr_rules desired\<rparr>"

definition applied_route :: "obj option \<Rightarrow> http_route \<Rightarrow> obj option" where
  "applied_route cur desired = (case cur of
     None \<Rightarrow> Some (ORoute desired)
   | Some (ORoute r) \<Rightarrow> if IsManagedByUs (hr_annotations r) then Some (ORoute (updated_route r desired)) else cur
   | Some _ \<Rightarrow> cur)"

lemma log_record_metric: "w_log (record_metric rec op ns n w) = (case rec of Some counter \<Rightarrow> [Metric counter op ns n] | None \<Rightarrow> []) @ w_log w"
  by (simp add: record_metric_def split: option.split)

lemma stored_record_metric [simp]: "stored_in init (record_metric rec op ns n w) = stored_in init w"
  by (simp add: record_metric_def split: option.split)

lemma create_route_mem:
  assumes "stored_in init w KRoute (hr_namespace d) (hr_name d) = None"
  shows "fst (create_route (mem_server init) rec msg d w) = Inr () \<and>
    stored_in init (snd (create_route (mem_server init) rec msg d w)) k ns n =
      (if k = KRoute \<and> ns = hr_namespace d \<and> n = hr_name d then Some (ORoute d) else stored_in init w k ns n)"
  using assms
  by (auto simp: create_route_def do_call_def Let_def write_error_def list_ex_same_obj stored_Create)

lemma applyHTTPRoute_mem:
  "fst (applyHTTPRoute (mem_server init) rec d w) = Inr () \<and>
   stored_in init (snd (applyHTTPRoute (mem_server init) rec d w)) k ns n =
     (if k = KRoute \<and> ns = hr_namespace d \<and> n = hr_name d
      then applied_route (stored_in init w KRoute (hr_namespace d) (hr_name d)) d else stored_in init w k ns n)"
proof (cases "stored_in init w KRoute (hr_namespace d) (hr_name d)")
  case None
  let ?g = "Get KRoute (hr_namespace d) (hr_name d)"
  let ?w = "w\<lparr>w_log := ?g # ?g # w_log w\<rparr>"
  have "applyHTTPRoute (mem_server init) rec d w = create_route (mem_server init) rec ''failed to create HTTPRoute'' d ?w"
    using None by (simp add: applyHTTPRoute_def CanUpdateResource_def do_call_def decode_def Let_def)
  moreover have "stored_in init ?w = stored_in init w" by simp
  ultimately show ?thesis
    using create_route_mem [of init ?w d rec "''failed to create HTTPRoute''" k ns n] None
    by (auto simp: applied_route_def)
next
  case (Some x)
  then obtain r where x: "x = ORoute r" and key: "hr_namespace r = hr_namespace d" "hr_name r = hr_name d"
    using stored_is obj_is_cases(1) by fastforce
  show ?thesis
  proof (cases "IsManagedByUs (hr_annotations r)")
    case True
    have "list_ex (same_obj (ORoute (updated_route r d))) (store_of init (w_log w))"
      using Some x key by (simp add: list_ex_same_obj updated_route_def)
    then show ?thesis
      using True Some x key
      by (auto simp: applyHTTPRoute_def CanUpdateResource_def do_call_def decode_def Let_def write_error_def
          applied_route_def stored_Update updated_route_def [symmetric])
        (auto simp: updated_route_def)
  next
    case False
    then show ?thesis
      using Some x by (auto simp: applyHTTPRoute_def CanUpdateResource_def do_call_def decode_def applied_route_def)
  qed
qed

lemma applied_unmanaged: "\<not> IsManagedByUs (obj_annotations y) \<Longrightarrow> applied_route (Some y) d = Some y"
  by (cases y) (auto simp: applied_route_def)

interpretation ar: managed_writer "\<lambda>srv d w. applyHTTPRoute srv rec d w" for rec
  by unfold_locales (auto simp: unmanaged_at_def applyHTTPRoute_mem applied_unmanaged)

abbreviation for_ingress :: "ingress \<Rightarrow> http_route \<Rightarrow> bool" where
  "for_ingress ing r \<equiv> IsManagedByUsForIngress (hr_annotations r) (i_namespace ing) (i_name ing)"

lemma delete_routes_mem:
  "fst (delete_routes (mem_server init) rec ing routes w) = Inr () \<and>
   stored_in init (snd (delete_routes (mem_server init) rec ing routes w)) k ns n =
     (if k = KRoute \<and> (\<exists>r \<in> set routes. for_ingress ing r \<and> ns = hr_namespace r \<and> n = hr_name r)
      then None else stored_in init w k ns n)"
proof (induction routes arbitrary: w)
  case (Cons r routes)
  let ?w = "w\<lparr>w_log := Delete KRoute (hr_namespace r) (hr_name r) False # w_log w\<rparr>"
  let ?m = "record_metric rec ''delete'' (hr_namespace r) (hr_name r) ?w"
  have "delete_routes (mem_server init) rec ing (r # routes) w =
      delete_routes (mem_server init) rec ing routes (if for_ingress ing r then ?m else w)"
    by (simp add: do_call_def write_error_def)
  moreover have "stored_in init ?m k ns n =
      (if k = KRoute \<and> ns = hr_namespace r \<and> n = hr_name r then None else stored_in init w k ns n)" for k ns n
    by simp
  ultimately show ?case using Cons.IH [of ?m] Cons.IH [of w] by auto
qed simp

lemma apply_routes_mem:
  "distinct (map (\<lambda>d. (hr_namespace d, hr_name d)) ds) \<Longrightarrow>
   fst (apply_routes (mem_server init) rec ds w) = Inr () \<and>
   (\<forall>d \<in> set ds. stored_in init (snd (apply_routes (mem_server init) rec ds w)) KRoute (hr_namespace d) (hr_name d) =
      applied_route (stored_in init w KRoute (hr_namespace d) (hr_name d)) d) \<and>
   (\<forall>k ns n. (\<forall>d \<in> set ds. \<not> (k = KRoute \<and> ns = hr_namespace d \<and> n = hr_name d)) \<longrightarrow>
      stored_in init (snd (apply_routes (mem_server init) rec ds w)) k ns n = stored_in init w k ns n)"
proof (induction ds arbitrary: w)
  case (Cons d ds)
  obtain w1 where w1: "applyHTTPRoute (mem_server init) rec d w = (Inr (), w1)"
    using applyHTTPRoute_mem [of init rec d w] by (metis prod.collapse)
  have st: "stored_in init w1 k ns n = (if k = KRoute \<and> ns = hr_namespace d \<and> n = hr_name d
      then applied_route (stored_in init w KRoute (hr_namespace d) (hr_name d)) d else stored_in init w k ns n)" for k ns n
    using applyHTTPRoute_mem [of init rec d w k ns n] w1 by simp
  have other: "\<not> (hr_namespace e = hr_namespace d \<and> hr_name e = hr_name d)" if "e \<in> set ds" for e
    using Cons.prems that by (auto simp: image_iff)
  have "\<forall>e \<in> set ds. hr_namespace d = hr_namespace e \<longrightarrow> hr_name d \<noteq> hr_name e" using other by metis
  then show ?case using Cons.IH [of w1] Cons.prems other w1 by (simp add: st)
qed simp

lemma GetHTTPRoutesWithPrefix_mem:
  "\<exists>w' rs. GetHTTPRoutesWithPrefix (mem_server init) ns pre w = (Inr rs, w') \<and> stored_in init w' = stored_in init w \<and>
     (\<forall>r. r \<in> set rs \<longleftrightarrow> ORoute r \<in> set (store_of init (w_log w)) \<and> (ns = [] \<or> hr_namespace r = ns) \<and>
        prefix pre (hr_name r) \<and> IsManagedByUsForIngress (hr_annotations r) ns pre)"
proof -
  have route: "as_route x = Some r \<longleftrightarrow> x = ORoute r" for x r by (cases x) auto
  show ?thesis
    by (force simp: GetHTTPRoutesWithPrefix_def do_call_def decode_list_def List.map_filter_def fun_eq_iff route)
qed

text \<open>
  The state after an application: \<open>cur\<close> is the store once obsolete routes are deleted,
  \<open>w'\<close> the world at the end.
\<close>

definition atomic_post ::
  "obj list \<Rightarrow> world \<Rightarrow> ingress \<Rightarrow> http_route list \<Rightarrow> (kind \<Rightarrow> string \<Rightarrow> string \<Rightarrow> obj option) \<Rightarrow> world \<Rightarrow> bool" where
  "atomic_post init w ing ds cur w' \<longleftrightarrow>
    (\<forall>k ns n. cur k ns n = stored_in init w k ns n \<or>
       cur k ns n = None \<and> k = KRoute \<and> (\<exists>r. stored_in init w k ns n = Some (ORoute r) \<and> for_ingress ing r)) \<and>
    (\<forall>d \<in> set ds. stored_in init w' KRoute (hr_namespace d) (hr_name d) =
       applied_route (cur KRoute (hr_namespace d) (hr_name d)) d) \<and>
    (\<forall>k ns n. (\<forall>d \<in> set ds. \<not> (k = KRoute \<and> ns = hr_namespace d \<and> n = hr_name d)) \<longrightarrow>
       stored_in init w' k ns n = cur k ns n) \<and>
    (length ds \<noteq> 1 \<longrightarrow> (\<forall>n r. prefix (i_name ing) n \<and>
       stored_in init w KRoute (i_namespace ing) n = Some (ORoute r) \<and> for_ingress ing r \<longrightarrow>
       cur KRoute (i_namespace ing) n = None))"

lemma ApplyHTTPRoutesAtomic_mem:
  assumes "wf_store init" and "distinct (map (\<lambda>d. (hr_namespace d, hr_name d)) ds)"
  shows "\<exists>w' cur. ApplyHTTPRoutesAtomic (mem_server init) rec ing ds w = (Inr (), w') \<and>
    atomic_post init w ing ds cur w'"
proof -
  let ?srv = "mem_server init"
  obtain w1 rs where list: "GetHTTPRoutesWithPrefix ?srv (i_namespace ing) (i_name ing) w = (Inr rs, w1)"
    and w1: "stored_in init w1 = stored_in init w"
    and rs: "\<And>r. r \<in> set rs \<longleftrightarrow> ORoute r \<in> set (store_of init (w_log w)) \<and>
      (i_namespace ing = [] \<or> hr_namespace r = i_namespace ing) \<and> prefix (i_name ing) (hr_name r) \<and> for_ingress ing r"
    using GetHTTPRoutesWithPrefix_mem [of init "i_namespace ing" "i_name ing" w] by blast
  have at: "stored_in init w KRoute (hr_namespace r) (hr_name r) = Some (ORoute r)" if "r \<in> set rs" for r
    using that rs wf_store_of [OF assms(1)] by (intro stored_in_set) auto
  show ?thesis
  proof (cases "length rs = 1 \<and> length ds = 1")
    case True
    then obtain d where d: "ds = [d]" by (cases ds) auto
    then have "ApplyHTTPRoutesAtomic ?srv rec ing ds w = applyHTTPRoute ?srv rec d w1"
      using True list by (simp add: ApplyHTTPRoutesAtomic_def)
    then show ?thesis
      using applyHTTPRoute_mem [of init rec d w1] True d w1
      by (intro exI [of _ "snd (applyHTTPRoute ?srv rec d w1)"] exI [of _ "stored_in init w"])
         (auto simp: prod_eq_iff atomic_post_def)
  next
    case False
    obtain w2 where del: "delete_routes ?srv rec ing rs w1 = (Inr (), w2)"
      using delete_routes_mem [of init rec ing rs w1] by (metis prod.collapse)
    obtain w3 where app: "apply_routes ?srv rec ds w2 = (Inr (), w3)"
      using apply_routes_mem [OF assms(2), of init rec w2] by (metis prod.collapse)
    have run: "ApplyHTTPRoutesAtomic ?srv rec ing ds w = (Inr (), w3)"
      using False list del app by (auto simp: ApplyHTTPRoutesAtomic_def)
    have cur: "stored_in init w2 k ns n =
      (if k = KRoute \<and> (\<exists>r \<in> set rs. for_ingress ing r \<and> ns = hr_namespace r \<and> n = hr_name r)
       then None else stored_in init w k ns n)" for k ns n
      using delete_routes_mem [of init rec ing rs w1 k ns n] w1 del by auto
    have "stored_in init w2 k ns n = stored_in init w k ns n \<or>
       stored_in init w2 k ns n = None \<and> k = KRoute \<and> (\<exists>r. stored_in init w k ns n = Some (ORoute r) \<and> for_ingress ing r)" for k ns n
      unfolding cur using at by auto
    moreover have "stored_in init w2 KRoute (i_namespace ing) n = None"
      if "prefix (i_name ing) n" "stored_in init w KRoute (i_namespace ing) n = Some (ORoute r)" "for_ingress ing r" for n r
    proof -
      have "r \<in> set rs" "hr_namespace r = i_namespace ing" "hr_name r = n"
        using that stored_is [OF that(2)] by (auto simp: rs)
      then have "\<exists>q \<in> set rs. for_ingress ing q \<and> i_namespace ing = hr_namespace q \<and> n = hr_name q"
        using that(3) by metis
      then show ?thesis unfolding cur by simp
    qed
    ultimately show ?thesis
      using run app apply_routes_mem [OF assms(2), of init rec w2]
      by (intro exI [of _ w3] exI [of _ "stored_in init w2"]) (auto simp: atomic_post_def)
  qed
qed

text \<open>Named ports.\<close>

definition resolved_ref :: "server \<Rightarrow> string \<Rightarrow> ingress list \<Rightarrow> http_backend_ref \<Rightarrow> http_backend_ref \<Rightarrow> bool" where
  "resolved_ref srv ns sources ref ref' \<longleftrightarrow>
     (if br_port ref \<noteq> Some 0 then ref' = ref
      else ref' = ref\<lparr>br_port := Some 80\<rparr> \<or>
        (\<exists>log svc port. srv (Get KService ns (br_name ref) # log) = RObj (OService svc) \<and>
           port \<in> set (svc_ports svc) \<and> sp_name port = findPortNameInIngresses sources (br_name ref) \<and>
           ref' = ref\<lparr>br_port := Some (sp_number port)\<rparr>))"

lemma resolve_ref_resolved: "resolved_ref srv ns sources ref (fst (resolve_ref srv ns sources ref w))"
proof -
  have svc: "as_service x = Some s \<longleftrightarrow> x = OService s" for x s by (cases x) auto
  have port: "find P xs = Some p \<Longrightarrow> p \<in> set xs \<and> P p" for P and p :: service_port and xs
    by (induction xs) (auto split: if_splits)
  show ?thesis
  proof (cases "br_port ref = Some 0 \<and> findPortNameInIngresses sources (br_name ref) \<noteq> []")
    case True
    show ?thesis
    proof (cases "fst (resolveServicePort srv ns (br_name ref) (findPortNameInIngresses sources (br_name ref)) w)")
      case (Inl e)
      then show ?thesis using True by (auto simp: resolved_ref_def resolve_ref_def Let_def split: prod.splits sum.splits)
    next
      case (Inr p)
      then obtain s q where "srv (Get KService ns (br_name ref) # w_log w) = RObj (OService s)"
        "q \<in> set (svc_ports s)" "sp_name q = findPortNameInIngresses sources (br_name ref)" "sp_number q = p"
        by (auto simp: resolveServicePort_def do_call_def Let_def decode_def svc
            split: option.splits sum.splits reply.splits dest: port)
      moreover have "fst (resolve_ref srv ns sources ref w) = ref\<lparr>br_port := Some p\<rparr>"
        using True Inr by (auto simp: resolve_ref_def Let_def split: prod.splits sum.splits)
      ultimately show ?thesis using True unfolding resolved_ref_def by metis
    qed
  next
    case False
    then show ?thesis by (auto simp: resolved_ref_def resolve_ref_def)
  qed
qed

lemma map_world_all2:
  "(\<And>x w. P x (fst (f x w))) \<Longrightarrow> list_all2 P xs (fst (map_world f xs w))"
  by (induction xs arbitrary: w) (auto simp: Let_def case_prod_beta)

lemma SplitHTTPRoute_split:
  "concat (map hr_rules (SplitHTTPRouteIfNeeded r)) = hr_rules r \<and>
   (\<forall>p \<in> set (SplitHTTPRouteIfNeeded r). length (hr_rules p) \<le> 16 \<and> hr_hostnames p = hr_hostnames r \<and>
      hr_parentRefs p = hr_parentRefs r \<and> (hr_meta p)\<lparr>m_name := hr_name r\<rparr> = hr_meta r) \<and>
   distinct (map hr_name (SplitHTTPRouteIfNeeded r)) \<and>
   hr_name (hd (SplitHTTPRouteIfNeeded r)) = hr_name r"
proof (cases "length (hr_rules r) \<le> MaxHTTPRouteRules")
  case True
  then show ?thesis by (simp add: SplitHTTPRouteIfNeeded_def MaxHTTPRouteRules_def)
next
  case False
  then have "hr_rules r \<noteq> []" by auto
  then have "hr_name (hd (split_loop r (hr_rules r) 1)) = hr_name r"
    by (subst split_loop.simps) (simp add: Let_def)
  with False show ?thesis
    using split_loop_parts [of _ r "hr_rules r" 1] split_names_distinct [of 1 r "hr_rules r"]
    by (auto simp: SplitHTTPRouteIfNeeded_def split_loop_rules)
qed

section \<open>Properties\<close>

text \<open>
  C32. Splitting loses nothing and respects the Gateway API's limit: the rules of the parts, in
  order, are the rules of the route; each part has at most 16; a route within the limit is
  left alone; the parts have distinct names, the first the name of the route, and otherwise
  the same metadata, hostnames and parents.
\<close>

theorem SplitHTTPRoute_parts:
  "concat (map hr_rules (SplitHTTPRouteIfNeeded r)) = hr_rules r \<and>
   (\<forall>p \<in> set (SplitHTTPRouteIfNeeded r). length (hr_rules p) \<le> 16 \<and> hr_hostnames p = hr_hostnames r \<and>
      hr_parentRefs p = hr_parentRefs r \<and> (hr_meta p)\<lparr>m_name := hr_name r\<rparr> = hr_meta r) \<and>
   distinct (map hr_name (SplitHTTPRouteIfNeeded r)) \<and>
   hr_name (hd (SplitHTTPRouteIfNeeded r)) = hr_name r"
  by (rule SplitHTTPRoute_split)

theorem SplitHTTPRoute_parts_witness:
  "list_all (\<lambda>p. length (hr_rules p) \<le> 16) (SplitHTTPRouteIfNeeded
     \<lparr>hr_meta = empty_meta\<lparr>m_name := ''prod''\<rparr>, hr_hostnames = [], hr_parentRefs = [],
       hr_rules = replicate 20 \<lparr>rr_matches = [], rr_filters = [], rr_backendRefs = []\<rparr>\<rparr>)"
  unfolding list_all_iff
  using SplitHTTPRoute_parts [of "\<lparr>hr_meta = empty_meta\<lparr>m_name := ''prod''\<rparr>, hr_hostnames = [], hr_parentRefs = [],
       hr_rules = replicate 20 \<lparr>rr_matches = [], rr_filters = [], rr_backendRefs = []\<rparr>\<rparr>"]
  by blast


definition example_route :: http_route where
  "example_route = \<lparr>hr_meta = empty_meta\<lparr>m_name := ''prod'', m_namespace := ''shop'',
     m_annotations := [(ManagedByAnnotation, ManagedByValue), (SourceAnnotation, ''shop/prod'')]\<rparr>,
     hr_hostnames = [''app.domain.cc''], hr_parentRefs = [], hr_rules = []\<rparr>"

definition empty_world :: world where
  "empty_world = \<lparr>w_log = [], w_crdVersions = []\<rparr>"


text \<open>
  Resolving named ports touches nothing but placeholder ports, for every server: rules keep
  their matches and filters, a backend whose port is not the placeholder is unchanged, and a
  placeholder becomes 80 or the number of the Service port with the name the Ingresses give.
\<close>

theorem ResolveNamedPorts_only_placeholders:
  "let route' = fst (ResolveNamedPorts srv ing route extra w)
   in hr_meta route' = hr_meta route \<and> hr_hostnames route' = hr_hostnames route \<and>
      hr_parentRefs route' = hr_parentRefs route \<and>
      list_all2 (\<lambda>rule rule'. rr_matches rule' = rr_matches rule \<and> rr_filters rule' = rr_filters rule \<and>
          list_all2 (resolved_ref srv (i_namespace ing) (ing # extra)) (rr_backendRefs rule) (rr_backendRefs rule'))
        (hr_rules route) (hr_rules route')"
  unfolding ResolveNamedPorts_def Let_def case_prod_beta
  by (auto intro!: map_world_all2 resolve_ref_resolved)

end
