(* ===== verification/Reference_Grants.thy ===== *)
theory Reference_Grants
  imports Listeners HTTPRoute_Manager
begin

text \<open>
  The ReferenceGrant that lets the Gateway read the secrets of a namespace: the functions of
  \<open>internal/utils/referencegrant.go\<close>, which track Ingresses in its source annotation, and
  those of \<open>internal/controller/httproute_controller.go\<close>, which track HTTPRoutes.
\<close>

section \<open>Grants of the HTTPRoute controller\<close>

fun sources_loop :: "string list \<Rightarrow> string list" where
  "sources_loop [] = []"
| "sources_loop (part # parts) =
     (let trimmed = TrimSpace part
      in if trimmed \<noteq> [] then trimmed # sources_loop parts else sources_loop parts)"

definition getSourcesFromAnnotation :: "string \<Rightarrow> string list" where
  "getSourcesFromAnnotation annotation =
     (if annotation = [] then [] else sources_loop (Split '','' annotation))"

definition isNoMatchError :: "api_error \<Rightarrow> bool" where
  "isNoMatchError e \<longleftrightarrow> e = NotFound \<or> e = NoMatch"

definition rg_annotations :: "reference_grant \<Rightarrow> string gomap" where
  "rg_annotations g = m_annotations (rg_meta g)"

definition with_sources :: "string list \<Rightarrow> reference_grant \<Rightarrow> reference_grant" where
  "with_sources sources g = g\<lparr>rg_meta := (rg_meta g)\<lparr>m_annotations :=
     mset_key SourceAnnotation (Join '','' sources) (rg_annotations g)\<rparr>\<rparr>"

definition new_grant :: "route_reconciler \<Rightarrow> string \<Rightarrow> string \<Rightarrow> reference_grant" where
  "new_grant r namespace httpRouteKey =
     \<lparr>rg_meta = empty_meta\<lparr>m_name := ReferenceGrantName, m_namespace := namespace,
        m_annotations := [(ManagedByAnnotation, ManagedByValue), (SourceAnnotation, httpRouteKey)]\<rparr>,
      rg_from = [\<lparr>gf_group = ''gateway.networking.k8s.io'', gf_kind = ''Gateway'', gf_namespace = rr_gatewayNamespace r\<rparr>],
      rg_to = [\<lparr>gt_group = [], gt_kind = ''Secret''\<rparr>]\<rparr>"

text \<open>
  The function calls itself when its creation lost a race. The first argument bounds the
  number of calls: \<open>None\<close> is a run that needs more.
\<close>

fun ensureReferenceGrant ::
  "nat \<Rightarrow> server \<Rightarrow> route_reconciler \<Rightarrow> http_route \<Rightarrow> world \<Rightarrow> (unit go_result \<times> world) option" where
  "ensureReferenceGrant 0 srv r httpRoute w = None"
| "ensureReferenceGrant (Suc n) srv r httpRoute w =
     (let httpRouteKey = source_key (hr_namespace httpRoute) (hr_name httpRoute);
          (reply, w) = do_call srv (Get KGrant (hr_namespace httpRoute) ReferenceGrantName) w
      in case decode as_grant reply of
           Inl e \<Rightarrow>
             if e \<noteq> NotFound then Some (Inl (ApiError e), w)
             else let (reply, w) = do_call srv (Create (OGrant (new_grant r (hr_namespace httpRoute) httpRouteKey))) w
                  in (case write_error reply of
                        None \<Rightarrow> Some (Inr (), w)
                      | Some e \<Rightarrow>
                          if e = AlreadyExists then ensureReferenceGrant n srv r httpRoute w
                          else Some (Inl (ApiError e), w))
         | Inr refGrant \<Rightarrow>
             if \<not> IsManagedByUs (rg_annotations refGrant) then Some (Inr (), w)
             else let sources = getSourcesFromAnnotation (mget (rg_annotations refGrant) SourceAnnotation)
                  in if ContainsString sources httpRouteKey then Some (Inr (), w)
                     else let (reply, w) = do_call srv (Update (OGrant (with_sources (sort (sources @ [httpRouteKey])) refGrant))) w
                          in case write_error reply of
                               Some e \<Rightarrow> Some (Inl (ApiError e), w)
                             | None \<Rightarrow> Some (Inr (), w))"

definition delete_grant :: "server \<Rightarrow> string \<Rightarrow> world \<Rightarrow> api_error option \<times> world" where
  "delete_grant srv namespace w =
     (let (reply, w) = do_call srv (Delete KGrant namespace ReferenceGrantName False) w
      in (case write_error reply of
            Some e \<Rightarrow> if e = NotFound then None else Some e
          | None \<Rightarrow> None, w))"

definition cleanupReferenceGrant :: "server \<Rightarrow> string \<Rightarrow> string \<Rightarrow> world \<Rightarrow> unit go_result \<times> world" where
  "cleanupReferenceGrant srv namespace name w =
     (let (reply, w) = do_call srv (Get KGrant namespace ReferenceGrantName) w
      in case decode as_grant reply of
           Inl e \<Rightarrow> (if isNoMatchError e then Inr () else Inl (ApiError e), w)
         | Inr refGrant \<Rightarrow>
             if \<not> IsManagedByUs (rg_annotations refGrant) then (Inr (), w)
             else let sources = getSourcesFromAnnotation (mget (rg_annotations refGrant) SourceAnnotation);
                      newSources = RemoveString sources (source_key namespace name)
                  in if newSources = []
                     then (case delete_grant srv namespace w of
                             (Some e, w) \<Rightarrow> (Inl (ApiError e), w) | (None, w) \<Rightarrow> (Inr (), w))
                     else if length newSources \<noteq> length sources
                     then let (reply, w) = do_call srv (Update (OGrant (with_sources newSources refGrant))) w
                          in case write_error reply of
                               Some e \<Rightarrow> (Inl (ApiError e), w)
                             | None \<Rightarrow> (Inr (), w)
                     else (Inr (), w))"

section \<open>Grants of the Ingress side\<close>

definition CleanupReferenceGrantIfNeeded :: "server \<Rightarrow> string \<Rightarrow> string \<Rightarrow> world \<Rightarrow> unit go_result \<times> world" where
  "CleanupReferenceGrantIfNeeded srv ingressNamespace ingressName w =
     (let (reply, w) = do_call srv (Get KGrant ingressNamespace ReferenceGrantName) w
      in case decode as_grant reply of
           Inl e \<Rightarrow> (if e = NotFound then Inr () else Inl (ApiError e), w)
         | Inr refGrant \<Rightarrow>
             if \<not> IsManagedByUsWithIngress (rg_annotations refGrant) ingressNamespace ingressName then (Inr (), w)
             else let sources = splitSources (mget (rg_annotations refGrant) SourceAnnotation);
                      newSources = filter (\<lambda>source. source \<noteq> source_key ingressNamespace ingressName) sources
                  in if newSources = []
                     then (case delete_grant srv ingressNamespace w of
                             (Some e, w) \<Rightarrow> (Inl (Wrapped ''failed to delete ReferenceGrant'' (ApiError e)), w)
                           | (None, w) \<Rightarrow> (Inr (), w))
                     else let (reply, w) = do_call srv (Update (OGrant (with_sources newSources refGrant))) w
                          in case write_error reply of
                               Some e \<Rightarrow> (Inl (Wrapped ''failed to update ReferenceGrant'' (ApiError e)), w)
                             | None \<Rightarrow> (Inr (), w))"

text \<open>
  \<open>setRef\<close> is \<open>controllerutil.SetControllerReference\<close> of controller-runtime, absent when
  there is no scheme.
\<close>

definition own_grant ::
  "server \<Rightarrow> (http_route \<Rightarrow> reference_grant \<Rightarrow> reference_grant go_result) option \<Rightarrow> string \<Rightarrow> ingress list
    \<Rightarrow> reference_grant \<Rightarrow> world \<Rightarrow> reference_grant go_result \<times> world" where
  "own_grant srv setRef namespace ings refGrant w =
     (case (setRef, ings) of
        (Some f, [ing]) \<Rightarrow>
          (let (reply, w) = do_call srv (Get KRoute namespace (i_name ing)) w
           in case decode as_route reply of
                Inl e \<Rightarrow> (Inr refGrant, w)
              | Inr owner \<Rightarrow> (f owner refGrant, w))
      | _ \<Rightarrow> (Inr refGrant, w))"

definition ApplyReferenceGrant ::
  "server \<Rightarrow> (http_route \<Rightarrow> reference_grant \<Rightarrow> reference_grant go_result) option \<Rightarrow> translator_config \<Rightarrow> metric_vec option \<Rightarrow> string
    \<Rightarrow> world \<Rightarrow> unit go_result \<times> world" where
  "ApplyReferenceGrant srv setRef cfg rec ingressNamespace w =
     (let (reply, w) = do_call srv (ListAll KIngress ingressNamespace) w
      in case decode_list as_ingress reply of
           Inl e \<Rightarrow> (Inl (Wrapped ''failed to list Ingresses'' (ApiError e)), w)
         | Inr items \<Rightarrow>
             let ingressesWithTLS = filter (\<lambda>ing. i_tls ing \<noteq> []) items
             in case own_grant srv setRef ingressNamespace ingressesWithTLS
                       (CreateReferenceGrant cfg ingressNamespace ingressesWithTLS) w of
                  (Inl e, w) \<Rightarrow> (Inl e, w)
                | (Inr refGrant, w) \<Rightarrow>
                    let (reply, w) = do_call srv (Get KGrant ingressNamespace ReferenceGrantName) w
                    in case decode as_grant reply of
                         Inl e \<Rightarrow>
                           if e \<noteq> NotFound then (Inl (ApiError e), w)
                           else let (reply, w) = do_call srv (Create (OGrant refGrant)) w
                                in (case write_error reply of
                                      Some e \<Rightarrow> (Inl (Wrapped ''failed to create ReferenceGrant'' (ApiError e)), w)
                                    | None \<Rightarrow> (Inr (), record_metric rec ''create'' ingressNamespace ReferenceGrantName w))
                       | Inr existing \<Rightarrow>
                           if \<not> IsManagedByUs (rg_annotations existing) then (Inr (), w)
                           else let existingSources = splitSources (mget (rg_annotations existing) SourceAnnotation);
                                    newSources = splitSources (mget (rg_annotations refGrant) SourceAnnotation);
                                    hasCommonSource = list_ex (\<lambda>s. List.member existingSources s) newSources
                                in if \<not> hasCommonSource \<and> existingSources \<noteq> [] then (Inr (), w)
                                   else let existing = existing\<lparr>rg_from := rg_from refGrant, rg_to := rg_to refGrant,
                                              rg_meta := (rg_meta existing)\<lparr>m_annotations := rg_annotations refGrant\<rparr>\<rparr>;
                                            (reply, w) = do_call srv (Update (OGrant existing)) w
                                        in case write_error reply of
                                             Some e \<Rightarrow> (Inl (Wrapped ''failed to update ReferenceGrant'' (ApiError e)), w)
                                           | None \<Rightarrow> (Inr (), record_metric rec ''update'' ingressNamespace ReferenceGrantName w))"

fun apply_grants ::
  "server \<Rightarrow> (http_route \<Rightarrow> reference_grant \<Rightarrow> reference_grant go_result) option \<Rightarrow> translator_config \<Rightarrow> metric_vec option
    \<Rightarrow> string list \<Rightarrow> world \<Rightarrow> unit go_result \<times> world" where
  "apply_grants srv setRef cfg rec [] w = (Inr (), w)"
| "apply_grants srv setRef cfg rec (namespace # namespaces) w =
     (case ApplyReferenceGrant srv setRef cfg rec namespace w of
        (Inl e, w) \<Rightarrow> (Inl e, w)
      | (Inr _, w) \<Rightarrow> apply_grants srv setRef cfg rec namespaces w)"

text \<open>The argument \<open>ord\<close> is the iteration order in \<open>GetNamespacesWithTLS\<close>.\<close>

definition EnsureReferenceGrants ::
  "(string list \<Rightarrow> string list) \<Rightarrow> server \<Rightarrow> (http_route \<Rightarrow> reference_grant \<Rightarrow> reference_grant go_result) option
    \<Rightarrow> translator_config \<Rightarrow> metric_vec option \<Rightarrow> ingress list \<Rightarrow> world \<Rightarrow> unit go_result \<times> world" where
  "EnsureReferenceGrants ord srv setRef cfg rec ings w =
     apply_grants srv setRef cfg rec (GetNamespacesWithTLS ord cfg ings) w"

section \<open>Lemmas\<close>

lemma sources_loop_tokens: "sources_loop parts = filter (\<lambda>x. x \<noteq> []) (map TrimSpace parts)"
  by (induction parts) (auto simp: Let_def)

interpretation gs: source_codec getSourcesFromAnnotation
  by unfold_locales (simp add: getSourcesFromAnnotation_def sources_loop_tokens Split_single_None)

lemma getSources_split: "getSourcesFromAnnotation s = splitSources s"
  by (simp add: gs.split_tokens ss.split_tokens)

text \<open>The grant of a namespace in a store that keeps its writes.\<close>

definition grant_of :: "obj list \<Rightarrow> world \<Rightarrow> string \<Rightarrow> reference_grant option" where
  "grant_of init w ns = (case stored_in init w KGrant ns ReferenceGrantName of Some (OGrant g) \<Rightarrow> Some g | _ \<Rightarrow> None)"

definition grant_sources :: "reference_grant \<Rightarrow> string set" where
  "grant_sources g = set (splitSources (mget (rg_annotations g) SourceAnnotation))"

lemma grant_of_None: "grant_of init w ns = None \<longleftrightarrow> stored_in init w KGrant ns ReferenceGrantName = None"
  by (auto simp: grant_of_def split: option.splits obj.splits dest!: stored_is obj_is_cases(3))

lemma grant_of_Some:
  "grant_of init w ns = Some g \<longleftrightarrow> stored_in init w KGrant ns ReferenceGrantName = Some (OGrant g)"
  by (auto simp: grant_of_def split: option.splits obj.splits)

lemma with_sources_simps [simp]:
  "m_name (rg_meta (with_sources s g)) = m_name (rg_meta g)" "m_namespace (rg_meta (with_sources s g)) = m_namespace (rg_meta g)"
  "IsManagedByUs (rg_annotations (with_sources s g)) = IsManagedByUs (rg_annotations g)"
  by (simp_all add: with_sources_def rg_annotations_def IsManagedByUs_def)

lemma with_sources_sources: "\<forall>x \<in> set xs. wf_source x \<Longrightarrow> grant_sources (with_sources xs g) = set xs"
  by (simp add: grant_sources_def with_sources_def rg_annotations_def ss.split_Join)


text \<open>
  The abstract state of a namespace's grant: the routes that use it. The grant is there to be
  used by somebody, or it is not there.
\<close>

definition grant_users :: "obj list \<Rightarrow> world \<Rightarrow> string \<Rightarrow> string set" where
  "grant_users init w ns = (case grant_of init w ns of None \<Rightarrow> {} | Some g \<Rightarrow> grant_sources g)"

definition grant_ours :: "obj list \<Rightarrow> world \<Rightarrow> string \<Rightarrow> bool" where
  "grant_ours init w ns \<longleftrightarrow> (case grant_of init w ns of None \<Rightarrow> True | Some g \<Rightarrow> IsManagedByUs (rg_annotations g))"

lemma stored_with_sources:
  assumes "stored_in init w KGrant ns ReferenceGrantName = Some (OGrant g)"
  shows "list_ex (same_obj (OGrant (with_sources xs g))) (store_of init (w_log w))"
    and "m_namespace (rg_meta g) = ns" and "m_name (rg_meta g) = ReferenceGrantName"
  using assms stored_is [OF assms] by (auto simp: list_ex_same_obj)

lemma new_grant_simps [simp]:
  "m_namespace (rg_meta (new_grant r ns key)) = ns" "m_name (rg_meta (new_grant r ns key)) = ReferenceGrantName"
  "IsManagedByUs (rg_annotations (new_grant r ns key))"
  by (simp_all add: new_grant_def rg_annotations_def IsManagedByUs_def mget_def)

lemma new_grant_sources: "wf_source key \<Longrightarrow> grant_sources (new_grant r ns key) = {key}"
  using ss.split_Join [of "[key]"]
  by (simp add: grant_sources_def new_grant_def rg_annotations_def mget_def ManagedByAnnotation_def SourceAnnotation_def)

lemma ensureReferenceGrant_mem:
  assumes "hr_namespace route = ns" and "source_key ns (hr_name route) = key" and wf: "wf_source key"
    and ours: "grant_ours init w ns"
  shows "\<exists>w'. ensureReferenceGrant (Suc n) (mem_server init) r route w = Some (Inr (), w') \<and>
    grant_ours init w' ns \<and> grant_users init w' ns = insert key (grant_users init w ns) \<and>
    (\<forall>k ns' m. (k, ns', m) \<noteq> (KGrant, ns, ReferenceGrantName) \<longrightarrow>
       stored_in init w' k ns' m = stored_in init w k ns' m)"
proof (cases "grant_of init w ns")
  case None
  then have "stored_in init w KGrant ns ReferenceGrantName = None" by (simp add: grant_of_None)
  then show ?thesis
    using assms
    by (auto simp: do_call_def decode_def write_error_def Let_def list_ex_same_obj stored_Create
        grant_users_def grant_ours_def grant_of_def new_grant_sources)
next
  case (Some g)
  then have st: "stored_in init w KGrant ns ReferenceGrantName = Some (OGrant g)" by (simp add: grant_of_Some)
  let ?s = "splitSources (mget (rg_annotations g) SourceAnnotation)"
  have "grant_sources (with_sources (sort (?s @ [key])) g) = insert key (grant_sources g)"
    using wf ss.split_wf by (subst with_sources_sources) (auto simp: grant_sources_def)
  then show ?thesis
    using Some st assms stored_with_sources [OF st]
    by (auto simp: do_call_def decode_def write_error_def Let_def getSources_split stored_Update
        grant_users_def grant_ours_def grant_of_def grant_sources_def)
qed

lemma cleanupReferenceGrant_mem:
  assumes ours: "grant_ours init w ns"
  shows "\<exists>w'. cleanupReferenceGrant (mem_server init) ns name w = (Inr (), w') \<and>
    grant_ours init w' ns \<and> grant_users init w' ns = grant_users init w ns - {source_key ns name} \<and>
    (grant_of init w' ns = None \<longleftrightarrow> grant_users init w' ns = {}) \<and>
    (\<forall>k ns' m. (k, ns', m) \<noteq> (KGrant, ns, ReferenceGrantName) \<longrightarrow>
       stored_in init w' k ns' m = stored_in init w k ns' m)"
proof (cases "grant_of init w ns")
  case None
  then have "stored_in init w KGrant ns ReferenceGrantName = None" by (simp add: grant_of_None)
  then show ?thesis
    using assms by (auto simp: cleanupReferenceGrant_def do_call_def decode_def isNoMatchError_def Let_def
        grant_users_def grant_ours_def grant_of_def)
next
  case (Some g)
  then have st: "stored_in init w KGrant ns ReferenceGrantName = Some (OGrant g)" by (simp add: grant_of_Some)
  let ?s = "splitSources (mget (rg_annotations g) SourceAnnotation)" and ?key = "source_key ns name"
  let ?rest = "filter (\<lambda>x. x \<noteq> ?key) ?s"
  have rest: "grant_sources (with_sources ?rest g) = grant_sources g - {?key}"
    using ss.split_wf by (subst with_sources_sources) (auto simp: grant_sources_def)
  consider "?rest = []" | "?rest \<noteq> []" "length ?rest = length ?s" | "?rest \<noteq> []" "length ?rest \<noteq> length ?s" by blast
  then show ?thesis
  proof cases
    case 1
    then have "grant_sources g - {?key} = {}" by (auto simp: grant_sources_def filter_empty_conv)
    with 1 show ?thesis
      using Some st assms stored_with_sources [OF st]
      by (auto simp: cleanupReferenceGrant_def delete_grant_def do_call_def decode_def write_error_def Let_def
          getSources_split grant_users_def grant_ours_def grant_of_def stored_None_iff)
  next
    case 2
    then have "grant_sources g - {?key} = grant_sources g" and "grant_sources g \<noteq> {}"
      using length_filter_less [of _ ?s "\<lambda>x. x \<noteq> ?key"] by (fastforce simp: grant_sources_def)+
    with 2 show ?thesis
      using Some st assms
      by (auto simp: cleanupReferenceGrant_def do_call_def decode_def Let_def
          getSources_split grant_users_def grant_ours_def grant_of_def)
  next
    case 3
    then have "grant_sources g - {?key} \<noteq> {}" by (auto simp: grant_sources_def filter_empty_conv)
    with 3 show ?thesis
      using Some st assms rest stored_with_sources [OF st]
      by (auto simp: cleanupReferenceGrant_def do_call_def decode_def write_error_def Let_def
          getSources_split stored_Update grant_users_def grant_ours_def grant_of_def)
  qed
qed

text \<open>None of the writers touches a grant that is not ours, nor any other object.\<close>

lemma unmanaged_with:
  "unmanaged_at init w k ns n y \<Longrightarrow> stored_in init w' k ns n = stored_in init w k ns n \<Longrightarrow> unmanaged_at init w' k ns n y"
  by (simp add: unmanaged_at_def)

lemma grant_unmanaged:
  "unmanaged_at init w KGrant ns ReferenceGrantName y \<Longrightarrow> \<exists>g. y = OGrant g \<and> \<not> IsManagedByUs (rg_annotations g)"
  using stored_is obj_is_cases(3) by (fastforce simp: unmanaged_at_def rg_annotations_def)

lemma CleanupReferenceGrantIfNeeded_other:
  "(k, ns', n) \<noteq> (KGrant, ns, ReferenceGrantName) \<Longrightarrow>
   stored_in init (snd (CleanupReferenceGrantIfNeeded (mem_server init) ns name w)) k ns' n = stored_in init w k ns' n"
proof (cases "grant_of init w ns")
  case None
  then have "stored_in init w KGrant ns ReferenceGrantName = None" by (simp add: grant_of_None)
  then show ?thesis by (auto simp: CleanupReferenceGrantIfNeeded_def do_call_def decode_def Let_def)
next
  case (Some g)
  assume "(k, ns', n) \<noteq> (KGrant, ns, ReferenceGrantName)"
  moreover from Some have st: "stored_in init w KGrant ns ReferenceGrantName = Some (OGrant g)" by (simp add: grant_of_Some)
  ultimately show ?thesis
    using stored_with_sources [OF st]
    by (auto simp: CleanupReferenceGrantIfNeeded_def delete_grant_def do_call_def decode_def write_error_def Let_def stored_Update)
qed

interpretation cg: managed_writer "\<lambda>srv (ns, name) w. CleanupReferenceGrantIfNeeded srv ns name w"
proof (unfold_locales, clarsimp)
  fix init w k ns n y ns' name
  assume u: "unmanaged_at init w k ns n y"
  show "unmanaged_at init (snd (CleanupReferenceGrantIfNeeded (mem_server init) ns' name w)) k ns n y"
  proof (cases "(k, ns, n) = (KGrant, ns', ReferenceGrantName)")
    case True
    with u grant_unmanaged obtain g where "y = OGrant g" "\<not> IsManagedByUs (rg_annotations g)" by blast
    with True u show ?thesis
      by (auto simp: unmanaged_at_def CleanupReferenceGrantIfNeeded_def do_call_def decode_def Let_def
          IsManagedByUsWithIngress_def IsManagedByUs_def)
  qed (auto intro: unmanaged_with [OF u] CleanupReferenceGrantIfNeeded_other)
qed

text \<open>
  How often \<open>ensureReferenceGrant\<close> calls itself depends on the server. The documented
  behaviour it counts on: after a creation was refused because the grant exists, reading the
  grant finds it.
\<close>

definition reads_own_refusal :: "server \<Rightarrow> string \<Rightarrow> bool" where
  "reads_own_refusal srv ns \<longleftrightarrow> (\<forall>g log. obj_key (OGrant g) = (ns, ReferenceGrantName) \<longrightarrow>
     srv (Create (OGrant g) # log) = RErr AlreadyExists \<longrightarrow>
     srv (Get KGrant ns ReferenceGrantName # Create (OGrant g) # log) \<noteq> RErr NotFound)"

lemma mem_reads_own_refusal: "reads_own_refusal (mem_server init) ns"
  by (auto simp: reads_own_refusal_def list_ex_same_obj store_step.simps split: if_splits)

lemma decode_NotFound: "decode f r = Inl NotFound \<longleftrightarrow> r = RErr NotFound"
  by (auto simp: decode_def split: reply.splits option.splits)

lemma ensureReferenceGrant_found:
  assumes "srv (Get KGrant (hr_namespace route) ReferenceGrantName # w_log w) \<noteq> RErr NotFound"
  shows "\<exists>res. ensureReferenceGrant (Suc n) srv r route w = Some res"
  using assms decode_NotFound
  by (auto simp: do_call_def Let_def split: sum.splits option.splits)

lemma ensureReferenceGrant_two:
  assumes own: "reads_own_refusal srv (hr_namespace route)"
  shows "\<exists>res. ensureReferenceGrant 2 srv r route w = Some res"
proof (cases "srv (Get KGrant (hr_namespace route) ReferenceGrantName # w_log w) = RErr NotFound")
  case True
  let ?g = "new_grant r (hr_namespace route) (source_key (hr_namespace route) (hr_name route))"
  let ?l = "Create (OGrant ?g) # Get KGrant (hr_namespace route) ReferenceGrantName # w_log w"
  have "\<exists>res. ensureReferenceGrant (Suc 0) srv r route (w\<lparr>w_log := ?l\<rparr>) = Some res"
    if "srv ?l = RErr AlreadyExists"
    by (rule ensureReferenceGrant_found) (use own that in \<open>simp add: reads_own_refusal_def\<close>)
  with True show ?thesis
    unfolding numeral_2_eq_2 ensureReferenceGrant.simps(2) [of "Suc 0"]
    by (auto simp: do_call_def decode_def write_error_def Let_def simp del: ensureReferenceGrant.simps split: reply.splits)
next
  case False
  then show ?thesis unfolding numeral_2_eq_2 by (rule ensureReferenceGrant_found)
qed

section \<open>Properties\<close>

text \<open>
  C14. The HTTPRoute controller's grant refines a set of users. In a namespace where no grant is
  there or it is ours, against a store that keeps its writes: adding a route succeeds in one
  call and inserts the route into the set; removing it takes it out of the set, and the grant
  exists afterwards exactly if the set is not empty; no other object changes.
\<close>

theorem reference_grant_users:
  assumes "hr_namespace route = ns" and "hr_name route = name" and "wf_source (source_key ns name)"
    and "grant_ours init w ns"
  shows "(\<exists>w'. ensureReferenceGrant 1 (mem_server init) r route w = Some (Inr (), w') \<and>
      grant_ours init w' ns \<and> grant_users init w' ns = insert (source_key ns name) (grant_users init w ns) \<and>
      (\<forall>k ns' m. (k, ns', m) \<noteq> (KGrant, ns, ReferenceGrantName) \<longrightarrow>
         stored_in init w' k ns' m = stored_in init w k ns' m)) \<and>
    (\<exists>w'. cleanupReferenceGrant (mem_server init) ns name w = (Inr (), w') \<and>
      grant_ours init w' ns \<and> grant_users init w' ns = grant_users init w ns - {source_key ns name} \<and>
      (grant_of init w' ns = None \<longleftrightarrow> grant_users init w' ns = {}) \<and>
      (\<forall>k ns' m. (k, ns', m) \<noteq> (KGrant, ns, ReferenceGrantName) \<longrightarrow>
         stored_in init w' k ns' m = stored_in init w k ns' m))"
  using ensureReferenceGrant_mem [of route ns "source_key ns name" init w 0 r] cleanupReferenceGrant_mem [of init w ns name]
    assms by simp

definition example_reconciler :: route_reconciler where
  "example_reconciler = \<lparr>rr_gatewayNamespace = ''infra'', rr_gatewayClassName = ''nginx'',
     rr_hostnameRewriteFrom = [], rr_hostnameRewriteTo = [], rr_postProcessingMode = []\<rparr>"

theorem reference_grant_users_witness:
  "\<exists>w'. ensureReferenceGrant 1 (mem_server []) example_reconciler example_route empty_world = Some (Inr (), w') \<and>
     grant_users [] w' ''shop'' = {''shop/prod''}"
  using reference_grant_users [of example_route "''shop''" "''prod''" "[]" empty_world example_reconciler]
  by (auto simp: example_route_def source_key_def wf_source_def trimmed_def is_space_def grant_ours_def grant_users_def
      grant_of_def empty_world_def stored_def)

text \<open>
  C38. The recursion of \<open>ensureReferenceGrant\<close> ends when reading the grant after a refused
  creation finds it: two calls are enough, whatever else the server answers. Without that (a
  cache that lags behind, the object being deleted again and again) no number of calls is
  enough: the code has no bound of its own.
\<close>

theorem ensureReferenceGrant_terminates:
  "(reads_own_refusal srv (hr_namespace route) \<longrightarrow> (\<exists>res. ensureReferenceGrant 2 srv r route w = Some res)) \<and>
   ((\<forall>log. srv (Get KGrant (hr_namespace route) ReferenceGrantName # log) = RErr NotFound) \<and>
    (\<forall>g log. srv (Create (OGrant g) # log) = RErr AlreadyExists) \<longrightarrow>
      ensureReferenceGrant n srv r route w = None)"
proof (intro conjI impI)
  assume "reads_own_refusal srv (hr_namespace route)"
  then show "\<exists>res. ensureReferenceGrant 2 srv r route w = Some res" by (rule ensureReferenceGrant_two)
next
  assume "(\<forall>log. srv (Get KGrant (hr_namespace route) ReferenceGrantName # log) = RErr NotFound) \<and>
    (\<forall>g log. srv (Create (OGrant g) # log) = RErr AlreadyExists)"
  then show "ensureReferenceGrant n srv r route w = None"
    by (induction n arbitrary: w) (simp_all add: do_call_def decode_def write_error_def Let_def)
qed

theorem ensureReferenceGrant_terminates_witness:
  "\<exists>res. ensureReferenceGrant 2 (mem_server []) example_reconciler example_route empty_world = Some res"
  using ensureReferenceGrant_terminates [of "mem_server []" example_route example_reconciler empty_world]
    mem_reads_own_refusal by blast

end
