(* ===== verification/Debouncer.thy ===== *)
theory Debouncer
  imports Prelude
begin

text \<open>
  The debouncer of \<open>internal/controller/httproute_controller.go\<close>: Gateway updates are
  delayed, and a new request for a Gateway replaces the pending one. Its state is the map under
  the mutex and the timers of the Go runtime. A timer is armed, then its function has been
  started and waits for the mutex, then the update runs. \<open>timer.Stop()\<close> does nothing to
  a timer that has already fired, which is where requests and updates interleave. The steps are
  the critical sections of the code and the firing of a timer.
\<close>

section \<open>State and operations\<close>

record debouncer =
  db_pending :: "nat gomap"
  db_armed :: "(nat \<times> string) list"
  db_fired :: "(nat \<times> string) list"
  db_next :: nat

definition newGatewayUpdateDebouncer :: debouncer where
  "newGatewayUpdateDebouncer = \<lparr>db_pending = [], db_armed = [], db_fired = [], db_next = 0\<rparr>"

text \<open>\<open>timer.Stop()\<close> and \<open>time.AfterFunc\<close> of the standard library.\<close>

definition stop_timer :: "nat \<Rightarrow> debouncer \<Rightarrow> debouncer" where
  "stop_timer t d = d\<lparr>db_armed := filter (\<lambda>x. fst x \<noteq> t) (db_armed d)\<rparr>"

definition after_func :: "string \<Rightarrow> debouncer \<Rightarrow> nat \<times> debouncer" where
  "after_func gatewayName d =
     (db_next d, d\<lparr>db_armed := db_armed d @ [(db_next d, gatewayName)], db_next := Suc (db_next d)\<rparr>)"

definition scheduleGatewayUpdate :: "string \<Rightarrow> debouncer \<Rightarrow> debouncer" where
  "scheduleGatewayUpdate gatewayName d =
     (let d = (case map_of (db_pending d) gatewayName of Some timer \<Rightarrow> stop_timer timer d | None \<Rightarrow> d);
          (timer, d) = after_func gatewayName d
      in d\<lparr>db_pending := mset_key gatewayName timer (db_pending d)\<rparr>)"

text \<open>The runtime starts the function of an armed timer.\<close>

definition fire_timer :: "nat \<times> string \<Rightarrow> debouncer \<Rightarrow> debouncer" where
  "fire_timer x d = d\<lparr>db_armed := removeAll x (db_armed d), db_fired := db_fired d @ [x]\<rparr>"

text \<open>
  The critical section at the start of \<open>executeGatewayUpdate\<close>. What the update does
  afterwards, without the mutex, is in \<open>HTTPRoute_Controller\<close>.
\<close>

definition begin_execute :: "nat \<times> string \<Rightarrow> debouncer \<Rightarrow> debouncer" where
  "begin_execute x d = d\<lparr>db_pending := mdel_key (snd x) (db_pending d), db_fired := removeAll x (db_fired d)\<rparr>"

section \<open>Runs\<close>

text \<open>
  The steps of the runtime, and the runs of the whole system. The second component records the
  Gateways requested since an update for them last began: what the debouncer owes.
\<close>

type_synonym db_state = "debouncer \<times> string set"

inductive runtime_step :: "db_state \<Rightarrow> db_state \<Rightarrow> bool" where
  fire: "x \<in> set (db_armed d) \<Longrightarrow> runtime_step (d, owed) (fire_timer x d, owed)"
| run: "x \<in> set (db_fired d) \<Longrightarrow> runtime_step (d, owed) (begin_execute x d, owed - {snd x})"

inductive db_step :: "db_state \<Rightarrow> db_state \<Rightarrow> bool" where
  request: "db_step (d, owed) (scheduleGatewayUpdate g d, insert g owed)"
| runtime: "runtime_step s s' \<Longrightarrow> db_step s s'"

inductive db_reachable :: "db_state \<Rightarrow> bool" where
  start: "db_reachable (newGatewayUpdateDebouncer, {})"
| step: "db_reachable s \<Longrightarrow> db_step s s' \<Longrightarrow> db_reachable s'"

inductive_cases runtime_stepE: "runtime_step s s'"
inductive_cases db_stepE: "db_step s s'"

section \<open>Invariant\<close>

definition db_waiting :: "debouncer \<Rightarrow> (nat \<times> string) set" where
  "db_waiting d = set (db_armed d) \<union> set (db_fired d)"

text \<open>
  Timers are told apart by their number, the pending timer of a Gateway is waiting and is a
  timer of that Gateway, and every Gateway owed an update has a waiting timer.
\<close>

definition db_inv :: "db_state \<Rightarrow> bool" where
  "db_inv s \<longleftrightarrow> (case s of (d, owed) \<Rightarrow>
     (\<forall>x \<in> db_waiting d. fst x < db_next d) \<and>
     inj_on fst (db_waiting d) \<and>
     (\<forall>g t. map_of (db_pending d) g = Some t \<longrightarrow> (t, g) \<in> db_waiting d) \<and>
     owed \<subseteq> snd ` db_waiting d)"

lemma waiting_schedule:
  "db_waiting (scheduleGatewayUpdate g d) =
     insert (db_next d, g) (set (db_fired d) \<union> {x \<in> set (db_armed d). map_of (db_pending d) g \<noteq> Some (fst x)})"
  by (auto simp: db_waiting_def scheduleGatewayUpdate_def stop_timer_def after_func_def Let_def split: option.splits)

lemma pending_schedule:
  "map_of (db_pending (scheduleGatewayUpdate g d)) = (map_of (db_pending d))(g \<mapsto> db_next d)"
  "db_next (scheduleGatewayUpdate g d) = Suc (db_next d)"
  by (auto simp: scheduleGatewayUpdate_def stop_timer_def after_func_def Let_def update_conv' split: option.splits)

lemma waiting_fire: "x \<in> set (db_armed d) \<Longrightarrow> db_waiting (fire_timer x d) = db_waiting d"
  by (auto simp: db_waiting_def fire_timer_def)

lemma db_inv_request:
  assumes "db_inv (d, owed)"
  shows "db_inv (scheduleGatewayUpdate g d, insert g owed)"
proof -
  let ?d = "scheduleGatewayUpdate g d"
  have num: "\<forall>x \<in> db_waiting d. fst x < db_next d" and inj: "inj_on fst (db_waiting d)"
    and pend: "\<And>h t. map_of (db_pending d) h = Some t \<Longrightarrow> (t, h) \<in> db_waiting d"
    and owed: "owed \<subseteq> snd ` db_waiting d"
    using assms by (auto simp: db_inv_def)
  have sub: "db_waiting ?d \<subseteq> insert (db_next d, g) (db_waiting d)"
    unfolding waiting_schedule by (auto simp: db_waiting_def)
  have keep: "x \<in> db_waiting ?d" if "x \<in> db_waiting d" "snd x \<noteq> g" for x
  proof -
    have "map_of (db_pending d) g \<noteq> Some (fst x)"
      using that pend [of g "fst x"] inj by (metis fst_conv inj_onD snd_conv)
    then show ?thesis using that(1) unfolding waiting_schedule by (auto simp: db_waiting_def)
  qed
  have new: "(db_next d, g) \<in> db_waiting ?d" by (simp add: waiting_schedule)
  have "inj_on fst (insert (db_next d, g) (db_waiting d))" using inj num by (auto simp: inj_on_def)
  then have "inj_on fst (db_waiting ?d)" using sub by (rule inj_on_subset)
  moreover have "insert g owed \<subseteq> snd ` db_waiting ?d"
  proof
    fix h assume "h \<in> insert g owed"
    then consider "h = g" | x where "x \<in> db_waiting d" "snd x = h" "h \<noteq> g" using owed by blast
    then show "h \<in> snd ` db_waiting ?d" using keep new by cases (force+)
  qed
  moreover have "(t, h) \<in> db_waiting ?d" if "map_of (db_pending ?d) h = Some t" for h t
    using that pend [of h t] keep [of "(t, h)"] new by (auto simp: pending_schedule split: if_splits)
  ultimately show ?thesis
    using num sub by (auto simp: db_inv_def pending_schedule less_Suc_eq)
qed

lemma db_inv_runtime: "runtime_step s s' \<Longrightarrow> db_inv s \<Longrightarrow> db_inv s'"
proof (induction rule: runtime_step.induct)
  case (fire x d owed)
  then show ?case by (simp add: db_inv_def waiting_fire) (simp add: fire_timer_def)
next
  case (run x d owed)
  have sub: "db_waiting (begin_execute x d) \<subseteq> db_waiting d" by (auto simp: db_waiting_def begin_execute_def)
  have keep: "y \<in> db_waiting (begin_execute x d)" if "y \<in> db_waiting d" "snd y \<noteq> snd x" for y
    using that by (auto simp: db_waiting_def begin_execute_def)
  have "owed - {snd x} \<subseteq> snd ` db_waiting (begin_execute x d)"
    using run.prems keep by (force simp: db_inv_def)
  moreover have "(t, g) \<in> db_waiting (begin_execute x d)"
    if "map_of (db_pending (begin_execute x d)) g = Some t" for g t
    using that run.prems keep [of "(t, g)"] by (auto simp: db_inv_def begin_execute_def delete_conv' split: if_splits)
  moreover have "db_next (begin_execute x d) = db_next d" by (simp add: begin_execute_def)
  ultimately show ?case
    using run.prems sub inj_on_subset [OF _ sub] by (auto simp: db_inv_def)
qed

lemma db_inv_reachable: "db_reachable s \<Longrightarrow> db_inv s"
proof (induction rule: db_reachable.induct)
  case start
  show ?case by (simp add: db_inv_def newGatewayUpdateDebouncer_def db_waiting_def)
next
  case (step s s')
  then show ?case by (auto elim!: db_stepE intro: db_inv_request db_inv_runtime)
qed

lemma reachable_runtime: "runtime_step\<^sup>*\<^sup>* s s' \<Longrightarrow> db_reachable s \<Longrightarrow> db_reachable s'"
  by (induction rule: rtranclp_induct) (auto intro: db_reachable.step db_step.runtime)

text \<open>Every step of the runtime brings a timer closer to its end.\<close>

definition db_work :: "db_state \<Rightarrow> nat" where
  "db_work s = 2 * length (db_armed (fst s)) + length (db_fired (fst s))"

lemma runtime_work: "runtime_step s s' \<Longrightarrow> db_work s' < db_work s"
proof (induction rule: runtime_step.induct)
  case (fire x d owed)
  then show ?case using length_removeAll_less [of x "db_armed d"] by (simp add: db_work_def fire_timer_def)
next
  case (run x d owed)
  then show ?case using length_removeAll_less [of x "db_fired d"] by (simp add: db_work_def begin_execute_def)
qed

lemma runtime_stuck: "(\<nexists>s'. runtime_step (d, owed) s') \<longleftrightarrow> db_waiting d = {}"
proof
  assume stuck: "\<nexists>s'. runtime_step (d, owed) s'"
  show "db_waiting d = {}"
  proof (rule equals0I)
    fix x assume "x \<in> db_waiting d"
    then show False using stuck runtime_step.fire [of x d owed] runtime_step.run [of x d owed]
      unfolding db_waiting_def by blast
  qed
qed (auto simp: db_waiting_def elim: runtime_stepE)

section \<open>Properties\<close>

text \<open>
  C15. No requested Gateway update is lost, however requests, firing timers and starting updates
  interleave: in every reachable state a Gateway requested since its last update began has a
  timer waiting; the runtime's steps end; and when they have ended, with no request in between,
  every requested update has begun.
\<close>

theorem no_update_lost:
  assumes "db_reachable (d, owed)"
  shows "(\<forall>g \<in> owed. \<exists>t. (t, g) \<in> db_waiting d) \<and>
    wfp runtime_step\<inverse>\<inverse> \<and>
    (\<forall>d' owed'. runtime_step\<^sup>*\<^sup>* (d, owed) (d', owed') \<and> (\<nexists>s. runtime_step (d', owed') s) \<longrightarrow> owed' = {})"
proof (intro conjI allI impI)
  show "\<forall>g \<in> owed. \<exists>t. (t, g) \<in> db_waiting d"
    using db_inv_reachable [OF assms] by (fastforce simp: db_inv_def)
  show "wfp runtime_step\<inverse>\<inverse>"
    by (rule wfp_if_convertible_to_nat [of _ db_work]) (simp add: runtime_work)
next
  fix d' owed'
  assume *: "runtime_step\<^sup>*\<^sup>* (d, owed) (d', owed') \<and> (\<nexists>s. runtime_step (d', owed') s)"
  then have "db_inv (d', owed')" using reachable_runtime [OF _ assms] db_inv_reachable by blast
  with * show "owed' = {}" unfolding runtime_stuck by (auto simp: db_inv_def)
qed

text \<open>Three requests for one Gateway, the second after the first timer has fired.\<close>

definition example_requests :: debouncer where
  "example_requests = scheduleGatewayUpdate ''gw'' (fire_timer (0, ''gw'') (scheduleGatewayUpdate ''gw'' newGatewayUpdateDebouncer))"

lemma example_requests_reachable: "db_reachable (example_requests, {''gw''})"
proof -
  have "db_reachable (scheduleGatewayUpdate ''gw'' newGatewayUpdateDebouncer, {''gw''})"
    using db_reachable.start db_step.request [of newGatewayUpdateDebouncer "{}" "''gw''"] by (blast intro: db_reachable.step)
  then have "db_reachable (fire_timer (0, ''gw'') (scheduleGatewayUpdate ''gw'' newGatewayUpdateDebouncer), {''gw''})"
    by (rule db_reachable.step)
       (simp add: db_step.runtime runtime_step.fire scheduleGatewayUpdate_def after_func_def newGatewayUpdateDebouncer_def)
  then show ?thesis
    using db_step.request [of "fire_timer (0, ''gw'') (scheduleGatewayUpdate ''gw'' newGatewayUpdateDebouncer)" "{''gw''}" "''gw''"]
    unfolding example_requests_def by (auto intro: db_reachable.step)
qed

theorem no_update_lost_witness: "\<exists>t. (t, ''gw'') \<in> db_waiting example_requests"
  using no_update_lost [OF example_requests_reachable] by blast

text \<open>
  The update that begins with the fired timer forgets the pending one, so a third request does
  not stop it: two timers for one Gateway are armed at once.
\<close>

lemma debounce_race:
  "length (filter (\<lambda>x. snd x = ''gw'') (db_armed (scheduleGatewayUpdate ''gw'' (begin_execute (0, ''gw'') example_requests)))) = 2"
  by (simp add: example_requests_def scheduleGatewayUpdate_def after_func_def stop_timer_def fire_timer_def begin_execute_def
      newGatewayUpdateDebouncer_def)

end
