(* ===== verification/Post_Processing.thy ===== *)
theory Post_Processing
  imports Glob Utils_Basic
begin

text \<open>
  What \<open>internal/controller/ingress_controller.go\<close> does to the source Ingress once its
  route exists: disabling it by a dummy class, telling external-dns to leave it alone, or
  removing it, with the memory of the Ingresses the operator deleted itself. The Go functions
  change the Ingress they are given in place, so the model returns it.
\<close>

section \<open>Annotations and constants\<close>

definition IngressDisabledAnnotation :: string where
  "IngressDisabledAnnotation = ''ingress-doperator.fiction.si/disabled''"

definition IngressRemovedAnnotation :: string where
  "IngressRemovedAnnotation = ''ingress-doperator.fiction.si/removed''"

definition IgnoreIngressAnnotation :: string where
  "IgnoreIngressAnnotation = ''ingress-doperator.fiction.si/ignore-ingress''"

definition OriginalIngressClassAnnotation :: string where
  "OriginalIngressClassAnnotation = ''ingress-doperator.fiction.si/original-ingress-class''"

definition OriginalIngressClassNameAnnotation :: string where
  "OriginalIngressClassNameAnnotation = ''ingress-doperator.fiction.si/original-ingress-classname''"

definition ExternalDNSIngressHostnameSource :: string where
  "ExternalDNSIngressHostnameSource = ''external-dns.alpha.kubernetes.io/ingress-hostname-source''"

definition ExternalDNSGatewayHostnameSource :: string where
  "ExternalDNSGatewayHostnameSource = ''external-dns.alpha.kubernetes.io/gateway-hostname-source''"

definition ExternalDNSHostnameAnnotation :: string where
  "ExternalDNSHostnameAnnotation = ''external-dns.alpha.kubernetes.io/hostname''"

definition OriginalExternalDNSHostname :: string where
  "OriginalExternalDNSHostname = ''ingress-doperator.fiction.si/original-external-dns-hostname''"

definition OriginalExternalDNSIngressHostnameSource :: string where
  "OriginalExternalDNSIngressHostnameSource =
     ''ingress-doperator.fiction.si/original-external-dns-ingress-hostname-source''"

definition OriginalExternalDNSGatewayHostnameSource :: string where
  "OriginalExternalDNSGatewayHostnameSource =
     ''ingress-doperator.fiction.si/original-external-dns-gateway-hostname-source''"

definition ExternalDNSHostnameSourceAnnotationOnly :: string where
  "ExternalDNSHostnameSourceAnnotationOnly = ''annotation-only''"

definition FinalizerName :: string where
  "FinalizerName = ''ingress-doperator.fiction.si/finalizer''"

definition DisabledIngressClassName :: string where
  "DisabledIngressClassName = ''ingress-doperator-disabled''"

definition DisabledIngressClassController :: string where
  "DisabledIngressClassController = ''dummy.io/no-controller''"

definition IngressDisabledReasonNormal :: string where
  "IngressDisabledReasonNormal = ''normal''"

definition IngressDisabledReasonExternalDNS :: string where
  "IngressDisabledReasonExternalDNS = ''external-dns''"

text \<open>Times are nanoseconds, as \<open>time.Time\<close> counts them.\<close>

definition selfDeletedIngressTTL :: int where
  "selfDeletedIngressTTL = 10 * 60 * 10 ^ 9"

text \<open>The object a successful write leaves in memory: what the server answered.\<close>

definition after_write :: "(obj \<Rightarrow> 'a option) \<Rightarrow> reply \<Rightarrow> 'a \<Rightarrow> 'a" where
  "after_write as r x = (case r of RObj y \<Rightarrow> (case as y of Some z \<Rightarrow> z | None \<Rightarrow> x) | _ \<Rightarrow> x)"

definition with_annotations :: "string gomap \<Rightarrow> ingress \<Rightarrow> ingress" where
  "with_annotations a ing = ing\<lparr>i_meta := (i_meta ing)\<lparr>m_annotations := a\<rparr>\<rparr>"

section \<open>Ingresses the operator deleted itself\<close>

definition markSelfDeleted :: "int \<Rightarrow> ingress \<Rightarrow> int gomap \<Rightarrow> int gomap" where
  "markSelfDeleted now ing m = (if m_uid (i_meta ing) = [] then m else mset_key (m_uid (i_meta ing)) now m)"

text \<open>Expired entries are dropped on the way; the map is returned with the answer.\<close>

definition wasSelfDeleted :: "int \<Rightarrow> ingress \<Rightarrow> int gomap \<Rightarrow> bool \<times> int gomap" where
  "wasSelfDeleted now ing m =
     (if m_uid (i_meta ing) = [] then (False, m)
      else let cutoff = now - selfDeletedIngressTTL;
               m = filter (\<lambda>(uid, ts). \<not> ts < cutoff) m
           in case map_of m (m_uid (i_meta ing)) of
                None \<Rightarrow> (False, m)
              | Some ts \<Rightarrow> (ts > cutoff, m))"

section \<open>Disabling\<close>

definition removeFinalizer :: "server \<Rightarrow> ingress \<Rightarrow> world \<Rightarrow> unit go_result \<times> ingress \<times> world" where
  "removeFinalizer srv ing w =
     (if ContainsString (m_finalizers (i_meta ing)) FinalizerName
      then let ing = ing\<lparr>i_meta := (i_meta ing)\<lparr>m_finalizers :=
                       RemoveString (m_finalizers (i_meta ing)) FinalizerName\<rparr>\<rparr>;
               (r, w) = do_call srv (Update (OIngress ing)) w
           in case write_error r of
                Some e \<Rightarrow> (Inl (ApiError e), ing, w)
              | None \<Rightarrow> (Inr (), after_write as_ingress r ing, w)
      else (Inr (), ing, w))"

definition ensureDisabledIngressClass :: "server \<Rightarrow> world \<Rightarrow> unit go_result \<times> world" where
  "ensureDisabledIngressClass srv w =
     (let (r, w) = do_call srv (Get KIngressClass [] DisabledIngressClassName) w
      in case decode as_ingress_class r of
           Inr _ \<Rightarrow> (Inr (), w)
         | Inl e \<Rightarrow>
             if e \<noteq> NotFound then (Inl (ApiError e), w)
             else let (r, w) = do_call srv (Create (OIngressClass \<lparr>ic_name = DisabledIngressClassName,
                                  ic_controller = DisabledIngressClassController\<rparr>)) w
                  in case write_error r of
                       None \<Rightarrow> (Inr (), w)
                     | Some e \<Rightarrow> if e = AlreadyExists then (Inr (), w)
                                 else (Inl (Wrapped ''failed to create disabled IngressClass'' (ApiError e)), w))"

text \<open>At most two attempts: a conflict reads the Ingress again.\<close>

fun clear_status_loop :: "server \<Rightarrow> nat \<Rightarrow> ingress \<Rightarrow> world \<Rightarrow> unit go_result \<times> ingress \<times> world" where
  "clear_status_loop srv 0 ing w = (Inr (), ing, w)"
| "clear_status_loop srv (Suc n) ing w =
     (let (r, w) = do_call srv (UpdateStatus (OIngress (ing\<lparr>i_loadBalancer := []\<rparr>))) w
      in case write_error r of
           None \<Rightarrow> (Inr (), ing, w)
         | Some e \<Rightarrow>
             if e = Conflict
             then let (r, w) = do_call srv (Get KIngress (i_namespace ing) (i_name ing)) w
                  in case decode as_ingress r of
                       Inl e \<Rightarrow> (Inl (ApiError e), ing, w)
                     | Inr ing \<Rightarrow> clear_status_loop srv n ing w
             else (Inl (Wrapped ''failed to clear Ingress status.loadBalancer'' (ApiError e)), ing, w))"

definition clearIngressStatus :: "server \<Rightarrow> ingress \<Rightarrow> world \<Rightarrow> unit go_result \<times> ingress \<times> world" where
  "clearIngressStatus srv ing w =
     (if i_loadBalancer ing = [] then (Inr (), ing, w) else clear_status_loop srv 2 ing w)"

definition save_original :: "string \<Rightarrow> string \<Rightarrow> string gomap \<Rightarrow> string gomap" where
  "save_original k v a = (if mhas a k then a else mset_key k v a)"

definition save_class_name :: "ingress \<Rightarrow> string gomap" where
  "save_class_name ing =
     (case i_ingressClassName ing of
        Some c \<Rightarrow> if c \<noteq> ''true'' then save_original OriginalIngressClassNameAnnotation c (i_annotations ing)
                 else i_annotations ing
      | None \<Rightarrow> i_annotations ing)"

definition save_class_annotation :: "string gomap \<Rightarrow> string gomap" where
  "save_class_annotation a =
     (if mget a IngressClassAnnotation \<noteq> []
      then save_original OriginalIngressClassAnnotation (mget a IngressClassAnnotation) a else a)"

text \<open>The changes of \<open>disableIngress\<close> to the Ingress, and whether it has to be written.\<close>

definition disabled_ingress :: "ingress \<Rightarrow> ingress \<times> bool" where
  "disabled_ingress ing =
     (let a = save_class_annotation (save_class_name ing);
          m1 = (i_ingressClassName ing \<noteq> Some DisabledIngressClassName);
          m2 = (mget a IngressClassAnnotation \<noteq> DisabledIngressClassName);
          a = (if m2 then mset_key IngressClassAnnotation DisabledIngressClassName a else a);
          modified = (m1 \<or> m2);
          a = (if modified then mset_key IngressDisabledAnnotation IngressDisabledReasonNormal a else a)
      in (with_annotations a (ing\<lparr>i_ingressClassName := Some DisabledIngressClassName\<rparr>), modified))"

text \<open>The argument \<open>clearStatus\<close> is the field \<open>ClearIngressStatusOnDisable\<close>.\<close>

definition disableIngress :: "server \<Rightarrow> bool \<Rightarrow> ingress \<Rightarrow> world \<Rightarrow> unit go_result \<times> ingress \<times> world" where
  "disableIngress srv clearStatus ing w =
     (if mget (i_annotations ing) IngressDisabledAnnotation = IngressDisabledReasonNormal
      then (if clearStatus then clearIngressStatus srv ing w else (Inr (), ing, w))
      else case ensureDisabledIngressClass srv w of
             (Inl e, w) \<Rightarrow> (Inl e, ing, w)
           | (Inr _, w) \<Rightarrow>
               let (ing, modified) = disabled_ingress ing
               in if modified
                  then let (r, w) = do_call srv (Update (OIngress ing)) w
                       in case write_error r of
                            Some e \<Rightarrow> (Inl (Wrapped ''failed to update Ingress to disable it'' (ApiError e)), ing, w)
                          | None \<Rightarrow>
                              let ing = after_write as_ingress r ing
                              in if clearStatus then clearIngressStatus srv ing w else (Inr (), ing, w)
                  else if clearStatus then clearIngressStatus srv ing w else (Inr (), ing, w))"

section \<open>external-dns\<close>

definition external_dns_annotations :: "string gomap \<Rightarrow> string gomap \<times> bool" where
  "external_dns_annotations a =
     (let hostname = mget a ExternalDNSHostnameAnnotation;
          m1 = (hostname \<noteq> [] \<and> \<not> mhas a OriginalExternalDNSHostname);
          a = (if m1 then mset_key OriginalExternalDNSHostname hostname a else a);
          source = mget a ExternalDNSIngressHostnameSource;
          m2 = (mhas a ExternalDNSIngressHostnameSource \<and>
                \<not> mhas a OriginalExternalDNSIngressHostnameSource \<and>
                source \<noteq> ExternalDNSHostnameSourceAnnotationOnly);
          a = (if m2 then mset_key OriginalExternalDNSIngressHostnameSource source a else a);
          m3 = (mget a IngressDisabledAnnotation \<noteq> IngressDisabledReasonNormal \<and>
                mget a IngressDisabledAnnotation \<noteq> IngressDisabledReasonExternalDNS);
          a = (if m3 then mset_key IngressDisabledAnnotation IngressDisabledReasonExternalDNS a else a);
          m4 = (mget a ExternalDNSIngressHostnameSource \<noteq> ExternalDNSHostnameSourceAnnotationOnly);
          a = (if m4 then mset_key ExternalDNSIngressHostnameSource ExternalDNSHostnameSourceAnnotationOnly a else a)
      in (a, m1 \<or> m2 \<or> m3 \<or> m4))"

definition disableExternalDNS :: "server \<Rightarrow> ingress \<Rightarrow> world \<Rightarrow> unit go_result \<times> world" where
  "disableExternalDNS srv ing w =
     (let (r, w) = do_call srv (Get KIngress (i_namespace ing) (i_name ing)) w
      in case decode as_ingress r of
           Inl e \<Rightarrow>
             if e = NotFound then (Inr (), w)
             else (Inl (Wrapped ''failed to fetch Ingress'' (ApiError e)), w)
         | Inr latest \<Rightarrow>
             let (a, modified) = external_dns_annotations (i_annotations latest)
             in if \<not> modified then (Inr (), w)
                else let (r, w) = do_call srv (Update (OIngress (with_annotations a latest))) w
                     in case write_error r of
                          Some e \<Rightarrow> (Inl (Wrapped ''failed to update Ingress to disable external-dns'' (ApiError e)), w)
                        | None \<Rightarrow> (Inr (), w))"

section \<open>Removing\<close>

definition delete_source :: "server \<Rightarrow> ingress \<Rightarrow> world \<Rightarrow> unit go_result \<times> world" where
  "delete_source srv ing w =
     (let (r, w) = do_call srv (Delete KIngress (i_namespace ing) (i_name ing) True) w
      in case write_error r of
           None \<Rightarrow> (Inr (), w)
         | Some e \<Rightarrow> if e = NotFound then (Inr (), w)
                     else (Inl (Wrapped ''failed to delete source Ingress'' (ApiError e)), w))"

definition marked_removed :: "ingress \<Rightarrow> ingress" where
  "marked_removed ing =
     with_annotations (mset_key IgnoreIngressAnnotation ''true''
       (mset_key IngressRemovedAnnotation ''true'' (i_annotations ing))) ing"

definition removeIngress ::
  "server \<Rightarrow> int \<Rightarrow> ingress \<Rightarrow> int gomap \<Rightarrow> world \<Rightarrow> unit go_result \<times> ingress \<times> int gomap \<times> world" where
  "removeIngress srv now ing selfDeleted w =
     (if mget (i_annotations ing) IngressRemovedAnnotation = ''true''
      then let (r, w) = delete_source srv ing w in (r, ing, markSelfDeleted now ing selfDeleted, w)
      else let ing = marked_removed ing;
               (r, w) = do_call srv (Update (OIngress ing)) w
           in case write_error r of
                Some e \<Rightarrow> (Inl (Wrapped ''failed to mark Ingress for removal'' (ApiError e)), ing, selfDeleted, w)
              | None \<Rightarrow>
                  let ing = after_write as_ingress r ing;
                      (r, w) = delete_source srv ing w
                  in (r, ing, markSelfDeleted now ing selfDeleted, w))"

definition getGatewayNameForClass :: "string \<Rightarrow> string \<Rightarrow> string" where
  "getGatewayNameForClass gatewayName ingressClass =
     (if ingressClass = [] \<or> ingressClass = ''default'' then gatewayName else ingressClass)"

section \<open>Lemmas\<close>

lemmas key_defs =
  IngressDisabledAnnotation_def IngressRemovedAnnotation_def IgnoreIngressAnnotation_def
  OriginalIngressClassAnnotation_def OriginalIngressClassNameAnnotation_def IngressClassAnnotation_def
  ExternalDNSIngressHostnameSource_def ExternalDNSGatewayHostnameSource_def
  ExternalDNSHostnameAnnotation_def OriginalExternalDNSHostname_def
  OriginalExternalDNSIngressHostnameSource_def OriginalExternalDNSGatewayHostnameSource_def

lemma reason_neq [simp]:
  "IngressDisabledReasonNormal \<noteq> []" "IngressDisabledReasonExternalDNS \<noteq> []"
  "[] \<noteq> IngressDisabledReasonNormal" "[] \<noteq> IngressDisabledReasonExternalDNS"
  "IngressDisabledReasonNormal \<noteq> IngressDisabledReasonExternalDNS"
  "IngressDisabledReasonExternalDNS \<noteq> IngressDisabledReasonNormal"
  "DisabledIngressClassName \<noteq> []" "ExternalDNSHostnameSourceAnnotationOnly \<noteq> []"
  "[] \<noteq> DisabledIngressClassName" "[] \<noteq> ExternalDNSHostnameSourceAnnotationOnly"
  by (simp_all add: IngressDisabledReasonNormal_def IngressDisabledReasonExternalDNS_def
      DisabledIngressClassName_def ExternalDNSHostnameSourceAnnotationOnly_def)

lemma with_annotations_sel [simp]:
  "i_annotations (with_annotations a ing) = a" "i_name (with_annotations a ing) = i_name ing"
  "i_namespace (with_annotations a ing) = i_namespace ing" "m_uid (i_meta (with_annotations a ing)) = m_uid (i_meta ing)"
  "i_ingressClassName (with_annotations a ing) = i_ingressClassName ing"
  "i_loadBalancer (with_annotations a ing) = i_loadBalancer ing"
  by (simp_all add: with_annotations_def)

lemma map_of_filter_kept: "map_of m k = Some v \<Longrightarrow> P (k, v) \<Longrightarrow> map_of (filter P m) k = Some v"
  by (induction m) (auto split: if_splits)

lemma wasSelfDeleted_mark:
  assumes "m_uid (i_meta ing) \<noteq> []" and "t < now + selfDeletedIngressTTL"
  shows "fst (wasSelfDeleted t ing (markSelfDeleted now ing m))"
proof -
  have "map_of (filter (\<lambda>(uid, ts). \<not> ts < t - selfDeletedIngressTTL) (markSelfDeleted now ing m))
      (m_uid (i_meta ing)) = Some now"
    by (rule map_of_filter_kept) (use assms in \<open>auto simp: markSelfDeleted_def\<close>)
  then show ?thesis using assms by (auto simp: wasSelfDeleted_def Let_def)
qed

lemma delete_source_log:
  "w_log (snd (delete_source srv ing w)) = Delete KIngress (i_namespace ing) (i_name ing) True # w_log w"
  by (auto simp: delete_source_def do_call_def Let_def split: option.splits)

section \<open>Properties\<close>

text \<open>
  C33. Removing an Ingress, for every server: nothing is deleted before the server has accepted the
  marks that make every reconciler ignore the Ingress, the deletion leaves the dependents, and
  the operator then recognises the Ingress as deleted by itself for ten minutes.
\<close>

theorem removeIngress_order:
  "let (res, ing', m', w') = removeIngress srv now ing m w;
       marked = mget (i_annotations ing) IngressRemovedAnnotation = ''true'';
       upd = Update (OIngress (marked_removed ing));
       del = Delete KIngress (i_namespace ing') (i_name ing') True;
       refused = (\<exists>e. srv (upd # w_log w) = RErr e)
   in calls_since w w' = (if marked then [del] else if refused then [upd] else [upd, del]) \<and>
      (refused \<and> \<not> marked \<longrightarrow> m' = m \<and> isl res) \<and>
      (del \<in> set (calls_since w w') \<and> m_uid (i_meta ing') \<noteq> [] \<longrightarrow>
         (\<forall>t < now + selfDeletedIngressTTL. fst (wasSelfDeleted t ing' m')))"
proof (cases "mget (i_annotations ing) IngressRemovedAnnotation = ''true''")
  case True
  obtain r w' where d: "delete_source srv ing w = (r, w')" by (cases "delete_source srv ing w")
  then have log: "w_log w' = [Delete KIngress (i_namespace ing) (i_name ing) True] @ w_log w"
    using delete_source_log [of srv ing w] by simp
  show ?thesis
    using True d calls_since_append [of w' "[Delete KIngress (i_namespace ing) (i_name ing) True]" w] log
    by (auto simp: removeIngress_def Let_def wasSelfDeleted_mark)
next
  case False
  let ?upd = "Update (OIngress (marked_removed ing))"
  let ?w = "w\<lparr>w_log := ?upd # w_log w\<rparr>"
  show ?thesis
  proof (cases "write_error (srv (?upd # w_log w))")
    case None
    define ing' where "ing' = after_write as_ingress (srv (?upd # w_log w)) (marked_removed ing)"
    obtain r w' where d: "delete_source srv ing' ?w = (r, w')" by (cases "delete_source srv ing' ?w")
    let ?del = "Delete KIngress (i_namespace ing') (i_name ing') True"
    have run: "removeIngress srv now ing m w = (r, ing', markSelfDeleted now ing' m, w')"
      using False None d by (simp add: removeIngress_def do_call_def Let_def ing'_def)
    have "w_log w' = rev [?upd, ?del] @ w_log w"
      using delete_source_log [of srv ing' ?w] d by simp
    then have "calls_since w w' = [?upd, ?del]" by (rule calls_since_append)
    then show ?thesis using run False None by (auto simp: write_error_def wasSelfDeleted_mark)
  next
    case (Some e)
    then have "removeIngress srv now ing m w =
        (Inl (Wrapped ''failed to mark Ingress for removal'' (ApiError e)), marked_removed ing, m, ?w)"
      using False by (simp add: removeIngress_def do_call_def Let_def)
    moreover have "calls_since w ?w = [?upd]" by (rule calls_since_append) simp
    moreover have "srv (?upd # w_log w) = RErr e"
      using Some by (auto simp: write_error_def split: reply.splits)
    ultimately show ?thesis using False by auto
  qed
qed

theorem removeIngress_order_witness:
  "case removeIngress (mem_server [OIngress example_ingress]) 5 example_ingress [] \<lparr>w_log = [], w_crdVersions = []\<rparr> of
     (res, ing', m', w') \<Rightarrow>
       calls_since \<lparr>w_log = [], w_crdVersions = []\<rparr> w' =
         [Update (OIngress (marked_removed example_ingress)), Delete KIngress ''shop'' ''prod'' True]"
proof -
  let ?w = "\<lparr>w_log = [], w_crdVersions = []\<rparr> :: world"
  have srv: "mem_server [OIngress example_ingress] [Update (OIngress (marked_removed example_ingress))] =
      RObj (OIngress (marked_removed example_ingress))"
    by (simp add: same_obj_def marked_removed_def)
  have "mget (i_annotations example_ingress) IngressRemovedAnnotation \<noteq> ''true''"
    by (simp add: example_ingress_def empty_meta_def)
  moreover have "i_namespace example_ingress = ''shop''" "i_name example_ingress = ''prod''"
    by (simp_all add: example_ingress_def)
  moreover from calculation have "fst (snd (removeIngress (mem_server [OIngress example_ingress]) 5 example_ingress [] ?w)) =
      marked_removed example_ingress"
    using srv by (simp add: removeIngress_def do_call_def Let_def write_error_def after_write_def case_prod_beta)
  ultimately show ?thesis
    using removeIngress_order [of "mem_server [OIngress example_ingress]" 5 example_ingress "[]" ?w] srv
    by (simp add: Let_def case_prod_beta marked_removed_def del: mem_server_Cons)
qed

end
