(* ===== verification/HTTPRoute_Controller.thy ===== *)
theory HTTPRoute_Controller
  imports Reference_Grants Debouncer Post_Processing
begin

text \<open>
  The HTTPRoute controller, \<open>internal/controller/httproute_controller.go\<close>: the reconcile
  loop over managed routes, the source Ingress of a route, the certificates of a Gateway's
  listeners and the debounced update of a Gateway. The listener arithmetic is in
  \<open>Listeners\<close>, the grants are in \<open>Reference_Grants\<close>, the timers in
  \<open>Debouncer\<close>; the state of the controller is the world and the debouncer.
\<close>

section \<open>Routes, their Gateway and their Ingress\<close>

definition HTTPRouteFinalizerName :: string where
  "HTTPRouteFinalizerName = ''ingress-doperator.fiction.si/httproute-finalizer''"

definition IngressPostProcessingModeDisableExternalDNS :: string where
  "IngressPostProcessingModeDisableExternalDNS = ''disable-external-dns''"

definition getGatewayNameFromHTTPRoute :: "route_reconciler \<Rightarrow> http_route \<Rightarrow> string" where
  "getGatewayNameFromHTTPRoute r httpRoute =
     (case List.find (\<lambda>p. (case pr_namespace p of Some ns \<Rightarrow> ns | None \<Rightarrow> hr_namespace httpRoute) = rr_gatewayNamespace r)
             (hr_parentRefs httpRoute) of
        Some p \<Rightarrow> pr_name p
      | None \<Rightarrow> [])"

definition validateIngressForHTTPRoute :: "ingress \<Rightarrow> unit go_result" where
  "validateIngressForHTTPRoute ing = Inr ()"

definition fetch_source :: "server \<Rightarrow> string \<Rightarrow> string \<Rightarrow> string \<Rightarrow> world \<Rightarrow> (ingress go_result \<times> string) \<times> world" where
  "fetch_source srv ns name source w =
     (let (reply, w) = do_call srv (Get KIngress ns name) w
      in case decode as_ingress reply of
           Inl e \<Rightarrow>
             ((if e = NotFound then Inl (Message (''source Ingress '' @ source @ '' not found'')) else Inl (ApiError e), source), w)
         | Inr ing \<Rightarrow>
             (case validateIngressForHTTPRoute ing of
                Inl e \<Rightarrow> ((Inl e, source), w)
              | Inr _ \<Rightarrow> ((Inr ing, source), w)))"

definition resolveIngressForHTTPRoute :: "server \<Rightarrow> http_route \<Rightarrow> world \<Rightarrow> (ingress go_result \<times> string) \<times> world" where
  "resolveIngressForHTTPRoute srv httpRoute w =
     (case List.find (\<lambda>o'. or_kind o' = ''Ingress'' \<and> HasPrefix (or_apiVersion o') ''networking.k8s.io/'')
             (m_owners (hr_meta httpRoute)) of
        Some ownerRef \<Rightarrow>
          fetch_source srv (hr_namespace httpRoute) (or_name ownerRef)
            (source_key (hr_namespace httpRoute) (or_name ownerRef)) w
      | None \<Rightarrow>
          let source = mget (hr_annotations httpRoute) SourceAnnotation
          in if source = [] then ((Inl (Message ''missing Ingress ownerReference and source annotation''), []), w)
             else case SplitN2 ''/'' source of
                    [ns, name] \<Rightarrow>
                      if ns = [] \<or> name = [] then ((Inl (Message ''invalid source annotation''), source), w)
                      else fetch_source srv ns name source w
                  | _ \<Rightarrow> ((Inl (Message ''invalid source annotation''), source), w))"

definition createInitialGateway :: "route_reconciler \<Rightarrow> string \<Rightarrow> gateway" where
  "createInitialGateway r gatewayName =
     \<lparr>gw_meta = empty_meta\<lparr>m_name := gatewayName, m_namespace := rr_gatewayNamespace r,
        m_annotations := [(ManagedByAnnotation, ManagedByValue)]\<rparr>,
      gw_className = (if rr_gatewayClassName r = [] then ''nginx'' else rr_gatewayClassName r),
      gw_infrastructure = None, gw_listeners = []\<rparr>"

definition listHTTPRoutesForGateway ::
  "server \<Rightarrow> route_reconciler \<Rightarrow> string \<Rightarrow> string \<Rightarrow> world \<Rightarrow> http_route list go_result \<times> world" where
  "listHTTPRoutesForGateway srv r gatewayName excludeKey w =
     (let (reply, w) = do_call srv (ListAll KRoute []) w
      in case decode_list as_route reply of
           Inl e \<Rightarrow> (Inl (ApiError e), w)
         | Inr items \<Rightarrow>
             (Inr (filter (\<lambda>route. m_deletion (hr_meta route) = None \<and>
                (excludeKey = [] \<or> source_key (hr_namespace route) (hr_name route) \<noteq> excludeKey) \<and>
                getGatewayNameFromHTTPRoute r route = gatewayName) items), w))"

definition ManagedByIngressDoperatorPredicate :: "obj \<Rightarrow> bool" where
  "ManagedByIngressDoperatorPredicate x \<longleftrightarrow> map_of (obj_annotations x) ManagedByAnnotation = Some ManagedByValue"

section \<open>Certificates of a Gateway\<close>

record tls_candidate =
  tc_ingressKey :: string
  tc_ingressNamespace :: string
  tc_originalHost :: string
  tc_transformedHost :: string
  tc_tls :: ingress_tls

definition candidate_step ::
  "route_reconciler \<Rightarrow> http_route \<Rightarrow> ingress \<Rightarrow> ingress_rule \<Rightarrow> tls_candidate gomap \<Rightarrow> tls_candidate gomap" where
  "candidate_step r route ing rule best =
     (let transformed = TransformHostname (listener_config r) (ir_host rule)
      in if ir_host rule = [] then best
         else if transformed \<notin> set (hr_hostnames route) then best
         else case findTLSConfigForHost ing (ir_host rule) of
                None \<Rightarrow> best
              | Some tls \<Rightarrow>
                  if tls_secretName tls = [] then best
                  else let candidate = \<lparr>tc_ingressKey = source_key (i_namespace ing) (i_name ing),
                             tc_ingressNamespace = i_namespace ing, tc_originalHost = ir_host rule,
                             tc_transformedHost = transformed, tc_tls = tls\<rparr>
                       in case map_of best transformed of
                            Some existing \<Rightarrow>
                              if tc_ingressKey candidate < tc_ingressKey existing
                              then mset_key transformed candidate best else best
                          | None \<Rightarrow> mset_key transformed candidate best)"

text \<open>The candidates of all routes, with the hostnames whose Ingress could not be read.\<close>

fun collect_candidates ::
  "server \<Rightarrow> route_reconciler \<Rightarrow> http_route list \<Rightarrow> tls_candidate gomap \<times> string list \<Rightarrow> world
    \<Rightarrow> (tls_candidate gomap \<times> string list) \<times> world" where
  "collect_candidates srv r [] acc w = (acc, w)"
| "collect_candidates srv r (route # routes) acc w =
     (if \<not> isManagedByUs route then collect_candidates srv r routes acc w
      else case resolveIngressForHTTPRoute srv route w of
             ((Inl _, _), w) \<Rightarrow>
               collect_candidates srv r routes (fst acc, fold List.insert (hr_hostnames route) (snd acc)) w
           | ((Inr ing, _), w) \<Rightarrow>
               collect_candidates srv r routes (fold (candidate_step r route ing) (i_rules ing) (fst acc), snd acc) w)"

definition candidate_tls ::
  "route_reconciler \<Rightarrow> tls_candidate gomap \<Rightarrow> string list \<Rightarrow> string \<Rightarrow> listener_tls option \<times> string list" where
  "candidate_tls r best tlsUnknown hostname =
     (case map_of best hostname of
        None \<Rightarrow> (None, [])
      | Some c \<Rightarrow>
          if hostname \<in> set tlsUnknown then (None, [])
          else let (t, ms) = host_tls r (tc_ingressNamespace c) (tc_originalHost c) (tc_transformedHost c) (tc_tls c)
               in (Some t, ms))"

text \<open>The argument \<open>ord\<close> is the iteration order over the wanted state.\<close>

definition buildDesiredListenerTLS ::
  "((string \<times> string list) list \<Rightarrow> (string \<times> string list) list) \<Rightarrow> server \<Rightarrow> route_reconciler \<Rightarrow> listener_state
    \<Rightarrow> http_route list \<Rightarrow> world \<Rightarrow> (listener_tls option gomap \<times> string list \<times> string list) \<times> world" where
  "buildDesiredListenerTLS ord srv r desiredState routes w =
     (let ((best, tlsUnknown), w) = collect_candidates srv r routes ([], []) w;
          (desiredTLS, certMismatches) = fold (\<lambda>(hostname, _) (m, ms).
             let (t, ms') = candidate_tls r best tlsUnknown hostname in (mset_key hostname t m, ms @ ms'))
             (ord desiredState) ([], [])
      in ((desiredTLS, sort certMismatches, tlsUnknown), w))"

section \<open>Updating a Gateway\<close>

text \<open>The mismatch annotation follows the certificates in use.\<close>

definition set_mismatch :: "string list \<Rightarrow> gateway \<times> bool \<Rightarrow> gateway \<times> bool" where
  "set_mismatch certMismatches p =
     (let (gw, updated) = p; desiredMismatch = Join ''; '' certMismatches
      in if mget (gw_annotations gw) MismatchedCertAnnotation \<noteq> desiredMismatch
         then (gw\<lparr>gw_meta := (gw_meta gw)\<lparr>m_annotations :=
                 (if desiredMismatch = [] then mdel_key MismatchedCertAnnotation (gw_annotations gw)
                  else mset_key MismatchedCertAnnotation desiredMismatch (gw_annotations gw))\<rparr>\<rparr>, True)
         else (gw, updated))"

text \<open>
  One attempt answers \<open>None\<close> when the write met a conflict and is to be retried. The
  iteration orders are arguments: over the wanted state, once for the certificates and once
  for the listeners.
\<close>

type_synonym state_order = "(string \<times> string list) list \<Rightarrow> (string \<times> string list) list"

definition reconcile_attempt ::
  "state_order \<Rightarrow> state_order \<Rightarrow> server \<Rightarrow> route_reconciler \<Rightarrow> string \<Rightarrow> http_route list \<Rightarrow> world
    \<Rightarrow> bool go_result option \<times> world" where
  "reconcile_attempt ordT ordL srv r gatewayName routes w =
     (let (reply, w) = do_call srv (Get KGateway (rr_gatewayNamespace r) gatewayName) w
      in case decode as_gateway reply of
           Inl e \<Rightarrow> (Some (if e = NotFound then Inr False else Inl (ApiError e)), w)
         | Inr gw \<Rightarrow>
             (case CanUpdateResource srv as_gateway gw_annotations KGateway (rr_gatewayNamespace r) gatewayName w of
                (Inl e, w) \<Rightarrow> (Some (Inl (ApiError e)), w)
              | (Inr (False, _), w) \<Rightarrow> (Some (Inr False), w)
              | (Inr (True, reread), w) \<Rightarrow>
                  let gw = (case reread of Some g \<Rightarrow> g | None \<Rightarrow> gw);
                      desiredState = calculateDesiredListenerState routes;
                      ((desiredTLS, certMismatches, tlsUnknown), w) = buildDesiredListenerTLS ordT srv r desiredState routes w;
                      (gw, updated) = set_mismatch certMismatches
                        (reconcileListenersToDesiredState ordL gw desiredState desiredTLS tlsUnknown)
                  in if \<not> updated then (Some (Inr False), w)
                     else let (reply, w) = do_call srv (Update (OGateway gw)) w
                          in case write_error reply of
                               None \<Rightarrow> (Some (Inr True), w)
                             | Some e \<Rightarrow> (if e = Conflict then None else Some (Inl (ApiError e)), w)))"

fun reconcile_attempts ::
  "nat \<Rightarrow> state_order \<Rightarrow> state_order \<Rightarrow> server \<Rightarrow> route_reconciler \<Rightarrow> string \<Rightarrow> http_route list \<Rightarrow> world
    \<Rightarrow> bool go_result \<times> world" where
  "reconcile_attempts 0 ordT ordL srv r gatewayName routes w = (Inl (Message ''failed to update Gateway after retries''), w)"
| "reconcile_attempts (Suc n) ordT ordL srv r gatewayName routes w =
     (case reconcile_attempt ordT ordL srv r gatewayName routes w of
        (Some res, w) \<Rightarrow> (res, w)
      | (None, w) \<Rightarrow> reconcile_attempts n ordT ordL srv r gatewayName routes w)"

definition reconcileGatewayListeners ::
  "state_order \<Rightarrow> state_order \<Rightarrow> server \<Rightarrow> route_reconciler \<Rightarrow> string \<Rightarrow> http_route list \<Rightarrow> world
    \<Rightarrow> bool go_result \<times> world" where
  "reconcileGatewayListeners = reconcile_attempts 3"

text \<open>The source Ingresses of the routes, each once.\<close>

fun disable_sources :: "server \<Rightarrow> http_route list \<Rightarrow> string list \<Rightarrow> world \<Rightarrow> world" where
  "disable_sources srv [] processed w = w"
| "disable_sources srv (route # routes) processed w =
     (case resolveIngressForHTTPRoute srv route w of
        ((Inl _, _), w) \<Rightarrow> disable_sources srv routes processed w
      | ((Inr ing, _), w) \<Rightarrow>
          let ingressKey = source_key (i_namespace ing) (i_name ing)
          in if ingressKey \<in> set processed then disable_sources srv routes processed w
             else disable_sources srv routes (ingressKey # processed) (snd (disableExternalDNS srv ing w)))"

definition delete_if_empty :: "server \<Rightarrow> route_reconciler \<Rightarrow> string \<Rightarrow> world \<Rightarrow> world" where
  "delete_if_empty srv r gatewayName w =
     (let (reply, w) = do_call srv (Get KGateway (rr_gatewayNamespace r) gatewayName) w
      in case decode as_gateway reply of
           Inl e \<Rightarrow> w
         | Inr gw \<Rightarrow>
             if gw_listeners gw = []
             then snd (do_call srv (Delete KGateway (m_namespace (gw_meta gw)) (m_name (gw_meta gw)) False) w) else w)"

text \<open>The update itself, once its timer's entry is gone; errors are only logged.\<close>

definition executeGatewayUpdate ::
  "state_order \<Rightarrow> state_order \<Rightarrow> server \<Rightarrow> route_reconciler \<Rightarrow> string \<Rightarrow> world \<Rightarrow> world" where
  "executeGatewayUpdate ordT ordL srv r gatewayName w =
     (case listHTTPRoutesForGateway srv r gatewayName [] w of
        (Inl e, w) \<Rightarrow> w
      | (Inr routes, w) \<Rightarrow>
          (case reconcileGatewayListeners ordT ordL srv r gatewayName routes w of
             (Inl e, w) \<Rightarrow> w
           | (Inr updated, w) \<Rightarrow>
               let w = (if updated \<and> rr_postProcessingMode r = IngressPostProcessingModeDisableExternalDNS
                        then disable_sources srv routes [] w else w)
               in if updated then delete_if_empty srv r gatewayName w else w))"

section \<open>Reconciling a route\<close>

text \<open>
  A reconcile returns whether to requeue, or an error. \<^const>\<open>None\<close> is a run whose grant
  needed more than \<open>n\<close> calls of \<^const>\<open>ensureReferenceGrant\<close>.
\<close>

type_synonym reconciled = "bool go_result \<times> world \<times> debouncer"

text \<open>Creating a Gateway that was not there.\<close>

definition create_gateway ::
  "server \<Rightarrow> route_reconciler \<Rightarrow> gateway \<Rightarrow> ingress \<Rightarrow> world \<Rightarrow> bool go_result \<times> world" where
  "create_gateway srv r gw ing w =
     (let (reply, w) = do_call srv (Create (OGateway gw)) w
      in case write_error reply of
           Some e \<Rightarrow> (if e = AlreadyExists then Inr True else Inl (ApiError e), w)
         | None \<Rightarrow>
             let w = emit (Metric GatewayResourcesTotal ''create'' (m_namespace (gw_meta gw)) (m_name (gw_meta gw))) w
             in if rr_postProcessingMode r = IngressPostProcessingModeDisableExternalDNS
                then (Inr False, snd (disableExternalDNS srv ing w)) else (Inr False, w))"

text \<open>The Gateway of a route: whether it exists, and \<open>None\<close> when it is not ours.\<close>

definition find_gateway ::
  "server \<Rightarrow> route_reconciler \<Rightarrow> string \<Rightarrow> world \<Rightarrow> (bool \<times> gateway) option go_result \<times> world" where
  "find_gateway srv r gatewayName w =
     (let (reply, w) = do_call srv (Get KGateway (rr_gatewayNamespace r) gatewayName) w
      in case decode as_gateway reply of
           Inl e \<Rightarrow>
             (if e = NotFound then Inr (Some (False, createInitialGateway r gatewayName)) else Inl (ApiError e), w)
         | Inr gw \<Rightarrow>
             (case CanUpdateResource srv as_gateway gw_annotations KGateway (rr_gatewayNamespace r) gatewayName w of
                (Inl e, w) \<Rightarrow> (Inl (ApiError e), w)
              | (Inr (False, _), w) \<Rightarrow> (Inr None, w)
              | (Inr (True, reread), w) \<Rightarrow> (Inr (Some (True, case reread of Some g \<Rightarrow> g | None \<Rightarrow> gw)), w)))"

definition ensure_grant ::
  "nat \<Rightarrow> server \<Rightarrow> route_reconciler \<Rightarrow> http_route \<Rightarrow> world \<Rightarrow> world option" where
  "ensure_grant n srv r httpRoute w =
     (if hr_namespace httpRoute \<noteq> rr_gatewayNamespace r
      then map_option snd (ensureReferenceGrant n srv r httpRoute w) else Some w)"

definition handleHTTPRouteCreateOrUpdate ::
  "(string list \<Rightarrow> string list) \<Rightarrow> nat \<Rightarrow> server \<Rightarrow> route_reconciler \<Rightarrow> http_route \<Rightarrow> world \<Rightarrow> debouncer \<Rightarrow> reconciled option" where
  "handleHTTPRouteCreateOrUpdate ord n srv r httpRoute w d =
     (let gatewayName = getGatewayNameFromHTTPRoute r httpRoute
      in if gatewayName = [] then Some (Inr False, w, d)
         else case resolveIngressForHTTPRoute srv httpRoute w of
                ((Inl _, _), w) \<Rightarrow> Some (Inr False, w, d)
              | ((Inr ing, _), w) \<Rightarrow>
                  (case find_gateway srv r gatewayName w of
                     (Inl e, w) \<Rightarrow> Some (Inl e, w, d)
                   | (Inr None, w) \<Rightarrow> Some (Inr False, w, d)
                   | (Inr (Some (gatewayExists, gw)), w) \<Rightarrow>
                       (case ensure_grant n srv r httpRoute w of
                          None \<Rightarrow> None
                        | Some w \<Rightarrow>
                            let (gw, updated) = updateGatewayListeners ord r gw httpRoute ing
                            in Some (if gatewayExists
                                     then (Inr False, w, if updated then scheduleGatewayUpdate gatewayName d else d)
                                     else if updated \<and> gw_listeners gw \<noteq> []
                                     then (let (res, w) = create_gateway srv r gw ing w in (res, w, d))
                                     else (Inr False, w, d)))))"

definition handleHTTPRouteDelete ::
  "server \<Rightarrow> route_reconciler \<Rightarrow> http_route \<Rightarrow> world \<Rightarrow> debouncer \<Rightarrow> unit go_result \<times> world \<times> debouncer" where
  "handleHTTPRouteDelete srv r httpRoute w d =
     (let w = (if hr_namespace httpRoute \<noteq> rr_gatewayNamespace r
               then snd (cleanupReferenceGrant srv (hr_namespace httpRoute) (hr_name httpRoute) w) else w);
          gatewayName = getGatewayNameFromHTTPRoute r httpRoute
      in if gatewayName = [] then (Inr (), w, d)
         else let (reply, w) = do_call srv (Get KGateway (rr_gatewayNamespace r) gatewayName) w
              in case decode as_gateway reply of
                   Inl e \<Rightarrow> (if isNoMatchError e then Inr () else Inl (ApiError e), w, d)
                 | Inr gw \<Rightarrow>
                     (case CanUpdateResource srv as_gateway gw_annotations KGateway (rr_gatewayNamespace r) gatewayName w of
                        (Inl e, w) \<Rightarrow> (Inl (ApiError e), w, d)
                      | (Inr (canManage, _), w) \<Rightarrow>
                          (Inr (), w, if canManage then scheduleGatewayUpdate gatewayName d else d)))"

definition with_finalizers :: "string list \<Rightarrow> http_route \<Rightarrow> http_route" where
  "with_finalizers fs route = route\<lparr>hr_meta := (hr_meta route)\<lparr>m_finalizers := fs\<rparr>\<rparr>"

definition finalize_route ::
  "server \<Rightarrow> route_reconciler \<Rightarrow> http_route \<Rightarrow> world \<Rightarrow> debouncer \<Rightarrow> reconciled" where
  "finalize_route srv r httpRoute w d =
     (let (_, w, d) = handleHTTPRouteDelete srv r httpRoute w d;
          (reply, w) = do_call srv (Update (ORoute (with_finalizers
             (RemoveString (m_finalizers (hr_meta httpRoute)) HTTPRouteFinalizerName) httpRoute))) w
      in case write_error reply of
           Some e \<Rightarrow> (Inl (ApiError e), w, d)
         | None \<Rightarrow> (Inr False, w, d))"

definition add_finalizer :: "server \<Rightarrow> http_route \<Rightarrow> world \<Rightarrow> http_route go_result \<times> world" where
  "add_finalizer srv httpRoute w =
     (if ContainsString (m_finalizers (hr_meta httpRoute)) HTTPRouteFinalizerName then (Inr httpRoute, w)
      else let httpRoute = with_finalizers (m_finalizers (hr_meta httpRoute) @ [HTTPRouteFinalizerName]) httpRoute;
               (reply, w) = do_call srv (Update (ORoute httpRoute)) w
           in case write_error reply of
                Some e \<Rightarrow> (Inl (ApiError e), w)
              | None \<Rightarrow> (Inr (after_write as_route reply httpRoute), w))"

definition HTTPRoute_Reconcile ::
  "(string list \<Rightarrow> string list) \<Rightarrow> nat \<Rightarrow> server \<Rightarrow> route_reconciler \<Rightarrow> string \<Rightarrow> string \<Rightarrow> world \<Rightarrow> debouncer
    \<Rightarrow> reconciled option" where
  "HTTPRoute_Reconcile ord n srv r ns name w d =
     (let (reply, w) = do_call srv (Get KRoute ns name) w
      in case decode as_route reply of
           Inl e \<Rightarrow> Some (if e = NotFound then Inr False else Inl (ApiError e), w, d)
         | Inr httpRoute \<Rightarrow>
             if \<not> isManagedByUs httpRoute then Some (Inr False, w, d)
             else if m_deletion (hr_meta httpRoute) \<noteq> None
             then Some (if ContainsString (m_finalizers (hr_meta httpRoute)) HTTPRouteFinalizerName
                        then finalize_route srv r httpRoute w d else (Inr False, w, d))
             else case add_finalizer srv httpRoute w of
                    (Inl e, w) \<Rightarrow> Some (Inl e, w, d)
                  | (Inr httpRoute, w) \<Rightarrow> handleHTTPRouteCreateOrUpdate ord n srv r httpRoute w d)"

section \<open>Lemmas\<close>

text \<open>The source Ingress of a route in a store that keeps its writes.\<close>

definition ingress_in :: "obj list \<Rightarrow> world \<Rightarrow> string \<Rightarrow> string \<Rightarrow> ingress option" where
  "ingress_in init w ns name = Option.bind (stored_in init w KIngress ns name) as_ingress"

definition source_of :: "obj list \<Rightarrow> world \<Rightarrow> http_route \<Rightarrow> ingress option" where
  "source_of init w route =
     (case List.find (\<lambda>o'. or_kind o' = ''Ingress'' \<and> HasPrefix (or_apiVersion o') ''networking.k8s.io/'')
             (m_owners (hr_meta route)) of
        Some ref \<Rightarrow> ingress_in init w (hr_namespace route) (or_name ref)
      | None \<Rightarrow>
          (case Cut ''/'' (mget (hr_annotations route) SourceAnnotation) of
             Some (ns, name) \<Rightarrow> if ns = [] \<or> name = [] then None else ingress_in init w ns name
           | None \<Rightarrow> None))"

definition got :: "'a go_result \<Rightarrow> 'a option" where
  "got res = (case res of Inl _ \<Rightarrow> None | Inr x \<Rightarrow> Some x)"

lemma fetch_source_mem:
  "got (fst (fst (fetch_source (mem_server init) ns name source w))) = ingress_in init w ns name \<and>
   stored_in init (snd (fetch_source (mem_server init) ns name source w)) = stored_in init w"
proof (cases "stored_in init w KIngress ns name")
  case None
  then show ?thesis by (simp add: fetch_source_def do_call_def decode_def got_def ingress_in_def)
next
  case (Some x)
  then obtain i where "x = OIngress i" using stored_is obj_is_cases(5) by blast
  with Some show ?thesis
    by (simp add: fetch_source_def do_call_def decode_def got_def ingress_in_def validateIngressForHTTPRoute_def)
qed

lemma resolve_mem:
  "got (fst (fst (resolveIngressForHTTPRoute (mem_server init) route w))) = source_of init w route \<and>
   stored_in init (snd (resolveIngressForHTTPRoute (mem_server init) route w)) = stored_in init w"
  using fetch_source_mem
  by (auto simp: resolveIngressForHTTPRoute_def source_of_def Let_def SplitN2_def got_def
      split: option.splits prod.splits)

lemma source_of_cong:
  assumes "stored_in init w' = stored_in init w"
  shows "source_of init w' = source_of init w"
  unfolding source_of_def [abs_def] ingress_in_def assms by (rule refl)

text \<open>The candidates, as a fold over the routes whose source is known.\<close>

definition collect_step ::
  "route_reconciler \<Rightarrow> (http_route \<Rightarrow> ingress option) \<Rightarrow> http_route \<Rightarrow> tls_candidate gomap \<times> string list
    \<Rightarrow> tls_candidate gomap \<times> string list" where
  "collect_step r src route acc =
     (if \<not> isManagedByUs route then acc
      else case src route of
             None \<Rightarrow> (fst acc, fold List.insert (hr_hostnames route) (snd acc))
           | Some ing \<Rightarrow> (fold (candidate_step r route ing) (i_rules ing) (fst acc), snd acc))"

lemma collect_candidates_mem:
  "fst (collect_candidates (mem_server init) r routes acc w) = fold (collect_step r (source_of init w)) routes acc \<and>
   stored_in init (snd (collect_candidates (mem_server init) r routes acc w)) = stored_in init w"
proof (induction routes arbitrary: acc w)
  case (Cons route routes)
  obtain res key w' where run: "resolveIngressForHTTPRoute (mem_server init) route w = ((res, key), w')"
    by (metis prod.collapse)
  then have res: "got res = source_of init w route" and st: "stored_in init w' = stored_in init w"
    using resolve_mem [of init route w] by auto
  show ?case
  proof (cases res)
    case (Inl e)
    then have "source_of init w route = None" using res by (simp add: got_def)
    then show ?thesis
      using Cons run Inl st source_of_cong [OF st] collect_step_def [of r "source_of init w" route acc] by simp
  next
    case (Inr ing)
    then have "source_of init w route = Some ing" using res by (simp add: got_def)
    then show ?thesis
      using Cons run Inr st source_of_cong [OF st] collect_step_def [of r "source_of init w" route acc] by simp
  qed
qed simp

lemma collect_unknown:
  "set (snd (fold (collect_step r src) routes acc)) =
     set (snd acc) \<union> {h. \<exists>route \<in> set routes. isManagedByUs route \<and> src route = None \<and> h \<in> set (hr_hostnames route)}"
proof (induction routes arbitrary: acc)
  case (Cons route routes)
  have ins: "set (fold List.insert hs xs) = set hs \<union> set xs" for hs xs :: "string list"
    by (induction hs arbitrary: xs) auto
  show ?case
    using Cons [of "collect_step r src route acc"] by (auto simp: collect_step_def ins split: option.splits)
qed simp

text \<open>What a rule of an Ingress offers for a hostname of a route.\<close>

definition offers :: "route_reconciler \<Rightarrow> http_route \<Rightarrow> ingress \<Rightarrow> string \<Rightarrow> tls_candidate \<Rightarrow> bool" where
  "offers r route ing h c \<longleftrightarrow> (\<exists>rule \<in> set (i_rules ing). ir_host rule \<noteq> [] \<and>
     TransformHostname (listener_config r) (ir_host rule) = h \<and> h \<in> set (hr_hostnames route) \<and>
     (\<exists>tls. findTLSConfigForHost ing (ir_host rule) = Some tls \<and> tls_secretName tls \<noteq> [] \<and>
       c = \<lparr>tc_ingressKey = source_key (i_namespace ing) (i_name ing), tc_ingressNamespace = i_namespace ing,
            tc_originalHost = ir_host rule, tc_transformedHost = h, tc_tls = tls\<rparr>))"

definition offered :: "route_reconciler \<Rightarrow> (http_route \<Rightarrow> ingress option) \<Rightarrow> http_route list \<Rightarrow> string \<Rightarrow> tls_candidate set" where
  "offered r src routes h =
     {c. \<exists>route \<in> set routes. \<exists>ing. isManagedByUs route \<and> src route = Some ing \<and> offers r route ing h c}"

text \<open>The least candidate of a set, by the key of its Ingress.\<close>

definition least_of :: "tls_candidate set \<Rightarrow> tls_candidate option \<Rightarrow> bool" where
  "least_of C x \<longleftrightarrow> (case x of
     None \<Rightarrow> C = {} | Some c \<Rightarrow> c \<in> C \<and> (\<forall>c' \<in> C. tc_ingressKey c \<le> tc_ingressKey c'))"

lemma least_of_insert:
  assumes "least_of C x"
  shows "least_of (insert c C) (case x of None \<Rightarrow> Some c
    | Some e \<Rightarrow> if tc_ingressKey c < tc_ingressKey e then Some c else Some e)"
  using assms by (fastforce simp: least_of_def split: option.splits)

definition rule_offers :: "route_reconciler \<Rightarrow> http_route \<Rightarrow> ingress \<Rightarrow> ingress_rule \<Rightarrow> string \<Rightarrow> tls_candidate set" where
  "rule_offers r route ing rule h = {c. offers r route (ing\<lparr>i_rules := [rule]\<rparr>) h c}"

lemma findTLS_rules [simp]: "findTLSConfigForHost (ing\<lparr>i_rules := rs\<rparr>) = findTLSConfigForHost ing"
  by (simp add: fun_eq_iff findTLSConfigForHost_def)

lemma candidate_step_least:
  assumes "least_of C (map_of best h)"
  shows "least_of (rule_offers r route ing rule h \<union> C) (map_of (candidate_step r route ing rule best) h)"
proof (cases "\<exists>c. c \<in> rule_offers r route ing rule h")
  case True
  then obtain c where c: "rule_offers r route ing rule h = {c}"
    by (auto simp: rule_offers_def offers_def)
  have "map_of (candidate_step r route ing rule best) h = (case map_of best h of None \<Rightarrow> Some c
    | Some e \<Rightarrow> if tc_ingressKey c < tc_ingressKey e then Some c else Some e)"
    using arg_cong [OF c, of "\<lambda>S. c \<in> S"]
    by (auto simp: rule_offers_def offers_def candidate_step_def Let_def split: option.splits)
  then show ?thesis using least_of_insert [OF assms, of c] c by simp
next
  case False
  then have "map_of (candidate_step r route ing rule best) h = map_of best h"
    by (auto simp: rule_offers_def offers_def candidate_step_def Let_def update_conv' split: option.splits)
  moreover have "rule_offers r route ing rule h = {}" using False by blast
  ultimately show ?thesis using assms by simp
qed

lemma candidate_steps_least:
  "least_of C (map_of best h) \<Longrightarrow>
   least_of ((\<Union>rule \<in> set rules. rule_offers r route ing rule h) \<union> C)
     (map_of (fold (candidate_step r route ing) rules best) h)"
proof (induction rules arbitrary: best C)
  case (Cons rule rules)
  show ?case
    using Cons.IH [OF candidate_step_least [OF Cons.prems, of r route ing rule]] by (simp add: Un_ac)
qed simp

lemma offers_rules: "{c. offers r route ing h c} = (\<Union>rule \<in> set (i_rules ing). rule_offers r route ing rule h)"
  by (auto simp: rule_offers_def offers_def)

lemma collect_least:
  "least_of C (map_of (fst acc) h) \<Longrightarrow>
   least_of (offered r src routes h \<union> C) (map_of (fst (fold (collect_step r src) routes acc)) h)"
proof (induction routes arbitrary: acc C)
  case Nil
  then show ?case by (simp add: offered_def)
next
  case (Cons route routes)
  have split: "offered r src (route # routes) h = offered r src routes h \<union> offered r src [route] h"
    by (auto simp: offered_def)
  have "least_of (offered r src [route] h \<union> C) (map_of (fst (collect_step r src route acc)) h)"
    using Cons.prems candidate_steps_least [OF Cons.prems, where ing = "the (src route)" and r = r and route = route
        and rules = "i_rules (the (src route))"]
    by (auto simp: collect_step_def offered_def offers_rules [symmetric] split: option.splits)
  from Cons.IH [OF this] show ?case by (simp add: split Un_ac)
qed

definition tls_step ::
  "route_reconciler \<Rightarrow> tls_candidate gomap \<Rightarrow> string list \<Rightarrow> string \<times> string list
    \<Rightarrow> listener_tls option gomap \<times> string list \<Rightarrow> listener_tls option gomap \<times> string list" where
  "tls_step r best unk e p = (mset_key (fst e) (fst (candidate_tls r best unk (fst e))) (fst p),
     snd p @ snd (candidate_tls r best unk (fst e)))"

lemma tls_steps_at:
  "h \<in> fst ` set es \<Longrightarrow> tls_of (fst (fold (tls_step r best unk) es p)) h = fst (candidate_tls r best unk h)"
proof (induction es rule: rev_induct)
  case (snoc e es)
  then show ?case by (cases "fst e = h") (auto simp: tls_step_def tls_of_def update_conv')
qed simp

text \<open>The certificates built against a store, and the store afterwards.\<close>

abbreviation collected ::
  "obj list \<Rightarrow> world \<Rightarrow> route_reconciler \<Rightarrow> http_route list \<Rightarrow> tls_candidate gomap \<times> string list" where
  "collected init w r routes \<equiv> fold (collect_step r (source_of init w)) routes ([], [])"

abbreviation collected_tls ::
  "obj list \<Rightarrow> world \<Rightarrow> route_reconciler \<Rightarrow> http_route list \<Rightarrow> string \<Rightarrow> listener_tls option" where
  "collected_tls init w r routes h \<equiv>
     fst (candidate_tls r (fst (collected init w r routes)) (snd (collected init w r routes)) h)"

lemma buildDesiredListenerTLS_mem:
  assumes "is_order ordT"
  shows "\<exists>tls ms w'. buildDesiredListenerTLS ordT (mem_server init) r (calculateDesiredListenerState routes) routes w =
      ((tls, ms, snd (collected init w r routes)), w') \<and> stored_in init w' = stored_in init w \<and>
    (\<forall>h. mhas (calculateDesiredListenerState routes) h \<longrightarrow> tls_of tls h = collected_tls init w r routes h)"
proof -
  let ?st = "calculateDesiredListenerState routes"
  define acc where "acc = collected init w r routes"
  obtain w' where col: "collect_candidates (mem_server init) r routes ([], []) w = (acc, w')"
    and w': "stored_in init w' = stored_in init w"
    using collect_candidates_mem [of init r routes "([], [])" w] unfolding acc_def by (metis prod.collapse)
  have step: "(\<lambda>(hostname, _) (m, ms). let (t, ms') = candidate_tls r (fst acc) (snd acc) hostname
      in (mset_key hostname t m, ms @ ms')) = tls_step r (fst acc) (snd acc)"
    by (simp add: fun_eq_iff tls_step_def case_prod_beta Let_def)
  have "tls_of (fst (fold (tls_step r (fst acc) (snd acc)) (ordT ?st) ([], []))) h = fst (candidate_tls r (fst acc) (snd acc) h)"
    if "mhas ?st h" for h
    using that assms(1) by (intro tls_steps_at) (auto simp: mhas_iff image_iff)
  then show ?thesis
    unfolding acc_def [symmetric]
    using col w' step by (simp add: buildDesiredListenerTLS_def Let_def case_prod_beta)
qed

text \<open>
  What a Gateway owes its routes: listeners for their hostnames only; for each hostname whose
  sources can all be read a listener that lets in the namespaces of its routes and carries the
  certificate of the source with the least key, or none if no source has one.
\<close>

definition sources_known :: "(http_route \<Rightarrow> ingress option) \<Rightarrow> http_route list \<Rightarrow> string \<Rightarrow> bool" where
  "sources_known src routes h \<longleftrightarrow>
     \<not> (\<exists>route \<in> set routes. isManagedByUs route \<and> src route = None \<and> h \<in> set (hr_hostnames route))"

definition serves :: "route_reconciler \<Rightarrow> (http_route \<Rightarrow> ingress option) \<Rightarrow> http_route list \<Rightarrow> string \<Rightarrow> listener \<Rightarrow> bool" where
  "serves r src routes h l \<longleftrightarrow>
     allowed_namespaces l \<in> {None, Some (sorted_list_of_set (route_namespaces_for routes h))} \<and>
     (\<exists>x. least_of (offered r src routes h) x \<and>
        l_tls l = map_option (\<lambda>c. fst (host_tls r (tc_ingressNamespace c) (tc_originalHost c) h (tc_tls c))) x)"

definition gateway_matches :: "route_reconciler \<Rightarrow> (http_route \<Rightarrow> ingress option) \<Rightarrow> http_route list \<Rightarrow> gateway \<Rightarrow> bool" where
  "gateway_matches r src routes gw \<longleftrightarrow>
     (\<forall>l \<in> set (gw_listeners gw). \<exists>route \<in> set routes. host_of l \<in> set (hr_hostnames route)) \<and>
     (\<forall>route \<in> set routes. \<forall>h \<in> set (hr_hostnames route). sources_known src routes h \<longrightarrow>
        (\<exists>l. first_for (gw_listeners gw) h = Some l \<and> serves r src routes h l))"

lemma collected_tls_least:
  assumes "sources_known (source_of init w) routes h"
  shows "\<exists>x. least_of (offered r (source_of init w) routes h) x \<and> collected_tls init w r routes h =
    map_option (\<lambda>c. fst (host_tls r (tc_ingressNamespace c) (tc_originalHost c) h (tc_tls c))) x"
proof -
  let ?c = "collected init w r routes"
  have least: "least_of (offered r (source_of init w) routes h) (map_of (fst ?c) h)"
    using collect_least [of "{}" "([], [])" h r "source_of init w" routes] by (simp add: least_of_def)
  have unk: "h \<notin> set (snd ?c)" using assms by (simp add: collect_unknown sources_known_def)
  have "tc_transformedHost c = h" if "map_of (fst ?c) h = Some c" for c
    using least that by (auto simp: least_of_def offered_def offers_def)
  then have "collected_tls init w r routes h =
    map_option (\<lambda>c. fst (host_tls r (tc_ingressNamespace c) (tc_originalHost c) h (tc_tls c))) (map_of (fst ?c) h)"
    using unk by (auto simp: candidate_tls_def case_prod_beta Let_def split: option.splits)
  then show ?thesis using least by blast
qed

lemma reconciled_matches:
  assumes "is_order ordL" and "unk = snd (collected init w r routes)"
    and tls: "\<And>h. mhas (calculateDesiredListenerState routes) h \<Longrightarrow> tls_of tls h = collected_tls init w r routes h"
  shows "gateway_matches r (source_of init w) routes
    (fst (reconcileListenersToDesiredState ordL gw (calculateDesiredListenerState routes) tls unk))"
proof -
  define gw' where "gw' = fst (reconcileListenersToDesiredState ordL gw (calculateDesiredListenerState routes) tls unk)"
  have hosts: "\<forall>l \<in> set (gw_listeners gw'). \<exists>route \<in> set routes. host_of l \<in> set (hr_hostnames route)"
    and served: "\<And>route h. route \<in> set routes \<Longrightarrow> h \<in> set (hr_hostnames route) - set unk \<Longrightarrow>
      \<exists>l. first_for (gw_listeners gw') h = Some l \<and> l_tls l = tls_of tls h \<and>
         allowed_namespaces l \<in> {None, Some (sorted_list_of_set (route_namespaces_for routes h))}"
    using reconciled_listeners [OF assms(1) is_order_id, of routes gw tls unk]
    unfolding gw'_def Let_def case_prod_beta by blast+
  have "\<exists>l. first_for (gw_listeners gw') h = Some l \<and> serves r (source_of init w) routes h l"
    if h: "route \<in> set routes" "h \<in> set (hr_hostnames route)" and known: "sources_known (source_of init w) routes h" for route h
  proof -
    have "h \<notin> set unk" using known assms(2) by (simp add: collect_unknown sources_known_def)
    with served h obtain l where l: "first_for (gw_listeners gw') h = Some l" "l_tls l = tls_of tls h"
      "allowed_namespaces l \<in> {None, Some (sorted_list_of_set (route_namespaces_for routes h))}" by blast
    have "mhas (calculateDesiredListenerState routes) h" using h by (auto simp: desired_state_at)
    then have "l_tls l = collected_tls init w r routes h" using l(2) tls by simp
    moreover obtain x where "least_of (offered r (source_of init w) routes h) x"
      "collected_tls init w r routes h =
        map_option (\<lambda>c. fst (host_tls r (tc_ingressNamespace c) (tc_originalHost c) h (tc_tls c))) x"
      using collected_tls_least [OF known, of r] by blast
    ultimately have "serves r (source_of init w) routes h l"
      unfolding serves_def using l(3) by (intro conjI exI [of _ x]) simp_all
    with l(1) show ?thesis by blast
  qed
  then show ?thesis using hosts unfolding gateway_matches_def gw'_def [symmetric] by blast
qed

text \<open>One attempt, against a store that keeps its writes.\<close>

abbreviation gateway_at :: "obj list \<Rightarrow> world \<Rightarrow> route_reconciler \<Rightarrow> string \<Rightarrow> obj option" where
  "gateway_at init w r g \<equiv> stored_in init w KGateway (rr_gatewayNamespace r) g"

lemma set_mismatch_fields:
  "gw_listeners (fst (set_mismatch ms p)) = gw_listeners (fst p)"
  "m_name (gw_meta (fst (set_mismatch ms p))) = m_name (gw_meta (fst p))"
  "m_namespace (gw_meta (fst (set_mismatch ms p))) = m_namespace (gw_meta (fst p))"
  "\<not> snd (set_mismatch ms p) \<Longrightarrow> \<not> snd p"
  by (auto simp: set_mismatch_def Let_def case_prod_beta split: if_splits)

lemma reconcile_meta [simp]:
  "gw_meta (fst (reconcileListenersToDesiredState ord gw state tls unk)) = gw_meta gw"
  by (simp add: reconcileListenersToDesiredState_def Let_def case_prod_beta)

lemma matches_listeners: "gw_listeners gw = gw_listeners gw' \<Longrightarrow> gateway_matches r src routes gw = gateway_matches r src routes gw'"
  by (simp add: gateway_matches_def)

lemma reconcile_attempt_mem:
  assumes ord: "is_order ordT" "is_order ordL"
    and gw: "gateway_at init w r g = Some (OGateway gw)" and ours: "IsManagedByUs (gw_annotations gw)"
  shows "\<exists>updated gw' w'. reconcile_attempt ordT ordL (mem_server init) r g routes w = (Some (Inr updated), w') \<and>
    gateway_at init w' r g = Some (OGateway gw') \<and> gateway_matches r (source_of init w) routes gw' \<and>
    (\<forall>k ns n. (k, ns, n) \<noteq> (KGateway, rr_gatewayNamespace r, g) \<longrightarrow> stored_in init w' k ns n = stored_in init w k ns n)"
proof -
  let ?get = "Get KGateway (rr_gatewayNamespace r) g" and ?st = "calculateDesiredListenerState routes"
  define w1 where "w1 = w\<lparr>w_log := ?get # ?get # w_log w\<rparr>"
  have st1: "stored_in init w1 = stored_in init w" by (simp add: w1_def)
  obtain tls ms w2 where build: "buildDesiredListenerTLS ordT (mem_server init) r ?st routes w1 =
      ((tls, ms, snd (collected init w1 r routes)), w2)" and st2: "stored_in init w2 = stored_in init w1"
    and tls: "\<And>h. mhas ?st h \<Longrightarrow> tls_of tls h = collected_tls init w1 r routes h"
    using buildDesiredListenerTLS_mem [OF ord(1), of init r routes w1] by blast
  let ?unk = "snd (collected init w1 r routes)"
  define p where "p = reconcileListenersToDesiredState ordL gw ?st tls ?unk"
  define q where "q = set_mismatch ms p"
  have matches: "gateway_matches r (source_of init w) routes (fst q)"
    using reconciled_matches [where init = init and w = w1 and r = r and gw = gw and tls = tls and routes = routes, OF ord(2) refl] tls source_of_cong [OF st1]
      matches_listeners [of "fst q" "fst p"] by (simp add: q_def p_def set_mismatch_fields)
  have key: "m_namespace (gw_meta gw) = rr_gatewayNamespace r" "m_name (gw_meta gw) = g"
    using stored_is [OF gw] by auto
  have run: "reconcile_attempt ordT ordL (mem_server init) r g routes w =
    (if \<not> snd q then (Some (Inr False), w2)
     else let (reply, w) = do_call (mem_server init) (Update (OGateway (fst q))) w2
          in case write_error reply of None \<Rightarrow> (Some (Inr True), w)
             | Some e \<Rightarrow> (if e = Conflict then None else Some (Inl (ApiError e)), w))"
    using gw ours build
    by (simp add: reconcile_attempt_def CanUpdateResource_def do_call_def decode_def w1_def [symmetric] p_def q_def
        Let_def case_prod_beta)
  show ?thesis
  proof (cases "snd q")
    case True
    have key': "m_namespace (gw_meta (fst q)) = rr_gatewayNamespace r" "m_name (gw_meta (fst q)) = g"
      using key by (simp_all add: q_def p_def set_mismatch_fields)
    have "list_ex (same_obj (OGateway (fst q))) (store_of init (w_log w2))"
      using gw st1 st2 key' by (simp add: list_ex_same_obj)
    then show ?thesis
      using True run matches st1 st2 key' by (auto simp: do_call_def write_error_def stored_Update)
  next
    case False
    then have "gw_listeners (fst q) = gw_listeners gw"
      using set_mismatch_fields(4) [of ms p] reconcile_unchanged [of ordL gw ?st tls ?unk]
      by (simp add: q_def p_def set_mismatch_fields)
    then have "gateway_matches r (source_of init w) routes gw" using matches matches_listeners by blast
    then show ?thesis using False run gw st1 st2 by auto
  qed
qed

lemma disableExternalDNS_other:
  assumes "k \<noteq> KIngress"
  shows "stored_in init (snd (disableExternalDNS (mem_server init) ing w)) k ns n = stored_in init w k ns n"
proof (cases "stored_in init w KIngress (i_namespace ing) (i_name ing)")
  case None
  then show ?thesis by (simp add: disableExternalDNS_def do_call_def decode_def)
next
  case (Some x)
  then obtain i where x: "x = OIngress i" and key: "i_namespace i = i_namespace ing" "i_name i = i_name ing"
    using stored_is obj_is_cases(5) by fastforce
  have "list_ex (same_obj (OIngress (with_annotations a i))) (store_of init (w_log w))" for a
    using Some x key by (simp add: list_ex_same_obj with_annotations_def)
  then show ?thesis
    using assms Some x
    by (simp add: disableExternalDNS_def do_call_def decode_def write_error_def Let_def case_prod_beta stored_Update)
qed

lemma disable_sources_other:
  "k \<noteq> KIngress \<Longrightarrow> stored_in init (disable_sources (mem_server init) routes done w) k ns n = stored_in init w k ns n"
proof (induction routes arbitrary: "done" w)
  case (Cons route routes)
  obtain res key w' where run: "resolveIngressForHTTPRoute (mem_server init) route w = ((res, key), w')"
    by (metis prod.collapse)
  then have "stored_in init w' = stored_in init w" using resolve_mem [of init route w] by auto
  then show ?case
    using Cons run disableExternalDNS_other [OF Cons.prems] by (auto simp: Let_def split: sum.splits)
qed simp

text \<open>The routes of a Gateway in a store.\<close>

definition routes_of :: "obj list \<Rightarrow> world \<Rightarrow> route_reconciler \<Rightarrow> string \<Rightarrow> http_route list" where
  "routes_of init w r g = filter (\<lambda>route. m_deletion (hr_meta route) = None \<and> getGatewayNameFromHTTPRoute r route = g)
     (List.map_filter as_route (store_of init (w_log w)))"

lemma as_route_kind: "List.map_filter as_route (filter (\<lambda>x. obj_kind x = KRoute) xs) = List.map_filter as_route xs"
proof (induction xs)
  case (Cons x xs)
  then show ?case by (cases x) (auto simp: List.map_filter_simps)
qed (simp add: List.map_filter_simps)

lemma listHTTPRoutesForGateway_mem:
  "listHTTPRoutesForGateway (mem_server init) r g [] w =
     (Inr (routes_of init w r g), w\<lparr>w_log := ListAll KRoute [] # w_log w\<rparr>)"
  by (simp add: listHTTPRoutesForGateway_def do_call_def decode_list_def routes_of_def as_route_kind)

lemma delete_if_empty_mem:
  assumes "gateway_at init w r g = Some (OGateway gw)"
  shows "gateway_at init (delete_if_empty (mem_server init) r g w) r g =
      (if gw_listeners gw = [] then None else Some (OGateway gw))"
    and "(k, ns, n) \<noteq> (KGateway, rr_gatewayNamespace r, g) \<Longrightarrow>
      stored_in init (delete_if_empty (mem_server init) r g w) k ns n = stored_in init w k ns n"
  using assms stored_is [OF assms] by (auto simp: delete_if_empty_def do_call_def decode_def)

lemma executeGatewayUpdate_mem:
  assumes ord: "is_order ordT" "is_order ordL"
    and gw: "gateway_at init w r g = Some (OGateway gw)" and ours: "IsManagedByUs (gw_annotations gw)"
  shows "\<exists>gw'. gateway_matches r (source_of init w) (routes_of init w r g) gw' \<and>
    gateway_at init (executeGatewayUpdate ordT ordL (mem_server init) r g w) r g \<in>
      (if gw_listeners gw' = [] then {None, Some (OGateway gw')} else {Some (OGateway gw')}) \<and>
    (\<forall>k ns n. k \<noteq> KIngress \<and> (k, ns, n) \<noteq> (KGateway, rr_gatewayNamespace r, g) \<longrightarrow>
       stored_in init (executeGatewayUpdate ordT ordL (mem_server init) r g w) k ns n = stored_in init w k ns n)"
proof -
  let ?w1 = "w\<lparr>w_log := ListAll KRoute [] # w_log w\<rparr>" and ?rs = "routes_of init w r g"
  have st1: "stored_in init ?w1 = stored_in init w" by simp
  obtain updated gw' w2 where run: "reconcile_attempt ordT ordL (mem_server init) r g ?rs ?w1 = (Some (Inr updated), w2)"
    and gw': "gateway_at init w2 r g = Some (OGateway gw')"
    and matches: "gateway_matches r (source_of init ?w1) ?rs gw'"
    and other: "\<And>k ns n. (k, ns, n) \<noteq> (KGateway, rr_gatewayNamespace r, g) \<Longrightarrow> stored_in init w2 k ns n = stored_in init w k ns n"
    using reconcile_attempt_mem [OF ord, of init ?w1 r g gw ?rs] gw ours st1 by auto
  define w3 where "w3 = (if updated \<and> rr_postProcessingMode r = IngressPostProcessingModeDisableExternalDNS
    then disable_sources (mem_server init) ?rs [] w2 else w2)"
  have w3: "stored_in init w3 k ns n = stored_in init w2 k ns n" if "k \<noteq> KIngress" for k ns n
    using that by (simp add: w3_def disable_sources_other)
  have exec: "executeGatewayUpdate ordT ordL (mem_server init) r g w =
      (if updated then delete_if_empty (mem_server init) r g w3 else w3)"
    using run by (auto simp: executeGatewayUpdate_def listHTTPRoutesForGateway_mem reconcileGatewayListeners_def
        numeral_3_eq_3 w3_def Let_def)
  have "gateway_at init w3 r g = Some (OGateway gw')" using gw' w3 by simp
  note del = delete_if_empty_mem [OF this]
  show ?thesis
    using matches source_of_cong [OF st1] other w3 gw' del exec by (intro exI [of _ gw']) auto
qed

text \<open>What the clean-up of a grant may call.\<close>

fun grant_call :: "string \<Rightarrow> call \<Rightarrow> bool" where
  "grant_call ns (Update (OGrant g)) = True"
| "grant_call ns (Delete k ns' n b) = (k = KGrant \<and> ns' = ns \<and> n = ReferenceGrantName)"
| "grant_call ns c = (\<not> is_write c)"

lemma cleanup_calls:
  "\<exists>cs. w_log (snd (cleanupReferenceGrant srv ns name w)) = cs @ w_log w \<and> list_all (grant_call ns) cs"
proof -
  let ?get = "Get KGrant ns ReferenceGrantName"
  let ?del = "Delete KGrant ns ReferenceGrantName False"
  have "w_log (snd (cleanupReferenceGrant srv ns name w)) \<in>
      {[?get] @ w_log w, [?del, ?get] @ w_log w} \<union> range (\<lambda>g. [Update (OGrant g), ?get] @ w_log w)"
    by (auto simp: cleanupReferenceGrant_def delete_grant_def do_call_def Let_def split: sum.split option.split)
  moreover have "list_all (grant_call ns) [?get]" "list_all (grant_call ns) [?del, ?get]"
    "\<And>g. list_all (grant_call ns) [Update (OGrant g), ?get]" by simp_all
  ultimately show ?thesis by blast
qed

lemma handleHTTPRouteDelete_calls:
  "\<exists>cs. w_log (fst (snd (handleHTTPRouteDelete srv r route w d))) = cs @ w_log w \<and>
     list_all (grant_call (hr_namespace route)) cs"
proof -
  define w1 where "w1 = (if hr_namespace route \<noteq> rr_gatewayNamespace r
    then snd (cleanupReferenceGrant srv (hr_namespace route) (hr_name route) w) else w)"
  obtain cs where cs: "w_log w1 = cs @ w_log w" "list_all (grant_call (hr_namespace route)) cs"
    using cleanup_calls [of srv "hr_namespace route" "hr_name route" w] by (cases "hr_namespace route = rr_gatewayNamespace r")
      (auto simp: w1_def)
  let ?get = "Get KGateway (rr_gatewayNamespace r) (getGatewayNameFromHTTPRoute r route)"
  have "w_log (fst (snd (handleHTTPRouteDelete srv r route w d))) \<in> {w_log w1, ?get # w_log w1, ?get # ?get # w_log w1}"
    unfolding handleHTTPRouteDelete_def w1_def [symmetric] Let_def
    by (simp add: CanUpdateResource_def do_call_def Let_def split: sum.split)
  then consider "w_log (fst (snd (handleHTTPRouteDelete srv r route w d))) = cs @ w_log w"
    | "w_log (fst (snd (handleHTTPRouteDelete srv r route w d))) = (?get # cs) @ w_log w"
    | "w_log (fst (snd (handleHTTPRouteDelete srv r route w d))) = (?get # ?get # cs) @ w_log w"
    using cs(1) by auto
  then show ?thesis
    using cs(2) by cases (force intro: exI [of _ cs] exI [of _ "?get # cs"] exI [of _ "?get # ?get # cs"])+
qed

text \<open>A listener that already does what a route in a namespace needs.\<close>

definition covers :: "listener \<Rightarrow> string \<Rightarrow> bool" where
  "covers l ns \<longleftrightarrow> l_tls l \<noteq> None \<and> (\<exists>sel e. l_selector l = Some sel \<and>
     List.find is_namespace_expr (ls_matchExpressions sel) = Some e \<and> ns \<in> set (sr_values e))"

lemma change_expr_covered:
  "List.find is_namespace_expr es = Some e \<Longrightarrow> f (sr_values e) = None \<Longrightarrow> change_expr f es = (es, False)"
  by (induction es) (auto split: if_splits)

lemma covers_no_change: "covers l (hr_namespace route) \<Longrightarrow> \<not> snd (merge_upd route tls h (Some l))"
  by (auto simp: covers_def merge_upd_def addNamespaceToListener_def Let_def change_expr_covered set_selector_id)

lemma covered_no_update:
  assumes "\<And>h. h \<in> set (hr_hostnames route) \<Longrightarrow> \<exists>l. first_for (gw_listeners gw) h = Some l \<and> covers l (hr_namespace route)"
    and "snd (buildTLSForRouteFromIngress r route ing) = []"
  shows "updateGatewayListeners ord r gw route ing = (gw, False)"
proof -
  obtain tls where b: "buildTLSForRouteFromIngress r route ing = (tls, [])" using assms(2) by (metis prod.collapse)
  have "fold (merge_host route tls) (hr_hostnames route) (gw_listeners gw, False) = (gw_listeners gw, False)"
    by (rule mh.fold_noop) (use assms(1) covers_no_change in force)
  then show ?thesis by (simp add: updateGatewayListeners_def b)
qed

lemma ensureReferenceGrant_other:
  assumes "(k, ns', m) \<noteq> (KGrant, hr_namespace route, ReferenceGrantName)"
    and "ensureReferenceGrant (Suc n) (mem_server init) r route w = Some (res, w')"
  shows "stored_in init w' k ns' m = stored_in init w k ns' m"
proof (cases "grant_of init w (hr_namespace route)")
  case None
  then have "stored_in init w KGrant (hr_namespace route) ReferenceGrantName = None" by (simp add: grant_of_None)
  then show ?thesis
    using assms by (auto simp: do_call_def decode_def write_error_def Let_def list_ex_same_obj stored_Create)
next
  case (Some g)
  then have st: "stored_in init w KGrant (hr_namespace route) ReferenceGrantName = Some (OGrant g)" by (simp add: grant_of_Some)
  then show ?thesis
    using assms stored_with_sources [OF st]
    by (auto simp: do_call_def decode_def write_error_def Let_def stored_Update split: if_splits)
qed

lemma ensure_grant_mem:
  "\<exists>w'. ensure_grant 2 (mem_server init) r route w = Some w' \<and>
     (\<forall>k ns m. k \<noteq> KGrant \<longrightarrow> stored_in init w' k ns m = stored_in init w k ns m)"
  using ensureReferenceGrant_two [OF mem_reads_own_refusal, of init r route w] ensureReferenceGrant_other [of _ _ _ route 1 init r w]
  by (fastforce simp: ensure_grant_def numeral_2_eq_2)

section \<open>Properties\<close>


text \<open>A Gateway with a stale listener, a route for another hostname and its Ingress.\<close>

definition example_managed_gateway :: gateway where
  "example_managed_gateway = example_gateway\<lparr>gw_meta := (gw_meta example_gateway)\<lparr>
     m_annotations := [(ManagedByAnnotation, ManagedByValue)]\<rparr>\<rparr>"

definition example_parent_route :: http_route where
  "example_parent_route = example_route\<lparr>hr_parentRefs :=
     [\<lparr>pr_name = ''shared'', pr_namespace = Some ''gateway'', pr_sectionName = None\<rparr>]\<rparr>"

definition example_controller :: route_reconciler where
  "example_controller = \<lparr>rr_gatewayNamespace = ''gateway'', rr_gatewayClassName = ''nginx'',
     rr_hostnameRewriteFrom = [], rr_hostnameRewriteTo = [], rr_postProcessingMode = ''none''\<rparr>"

definition example_store :: "obj list" where
  "example_store = [OGateway example_managed_gateway, ORoute example_parent_route, OIngress example_ingress]"

lemma example_gateway_at:
  "gateway_at example_store empty_world example_controller ''shared'' = Some (OGateway example_managed_gateway)"
  by (simp add: example_store_def empty_world_def stored_def example_controller_def example_managed_gateway_def
      example_gateway_def)

lemma example_gateway_ours: "IsManagedByUs (gw_annotations example_managed_gateway)"
  by (simp add: example_managed_gateway_def IsManagedByUs_def mget_def)

lemma example_routes_of: "routes_of example_store empty_world example_controller ''shared'' = [example_parent_route]"
  by (simp add: routes_of_def example_store_def empty_world_def List.map_filter_simps example_parent_route_def
      example_route_def getGatewayNameFromHTTPRoute_def example_controller_def empty_meta_def)

lemma example_source_of: "source_of example_store empty_world example_parent_route = Some example_ingress"
  by (simp add: source_of_def example_parent_route_def example_route_def empty_meta_def mget_def ManagedByAnnotation_def
      SourceAnnotation_def ingress_in_def example_store_def empty_world_def stored_def example_ingress_def
      example_managed_gateway_def)


text \<open>
  C39. Deletion of a managed route, whatever the server answers to the clean-up: the last call
  writes the route without the operator's finalizer, every other write concerns the grant of the
  route's namespace, and the reconcile fails only if that last write fails. So no failure of the
  clean-up keeps a route from being deleted, and none is reported.
\<close>

theorem route_deletion_finalizes:
  assumes "srv (Get KRoute ns name # w_log w) = RObj (ORoute route)" and "isManagedByUs route"
    and "m_deletion (hr_meta route) \<noteq> None" and "HTTPRouteFinalizerName \<in> set (m_finalizers (hr_meta route))"
  shows "\<exists>cs w' d'.
    w_log w' = Update (ORoute (with_finalizers (filter (\<lambda>f. f \<noteq> HTTPRouteFinalizerName) (m_finalizers (hr_meta route))) route))
      # cs @ Get KRoute ns name # w_log w \<and>
    list_all (grant_call (hr_namespace route)) cs \<and>
    HTTPRoute_Reconcile ord n srv r ns name w d =
      Some (case write_error (srv (w_log w')) of None \<Rightarrow> Inr False | Some e \<Rightarrow> Inl (ApiError e), w', d')"
proof -
  let ?w = "w\<lparr>w_log := Get KRoute ns name # w_log w\<rparr>"
  obtain res w1 d1 where run: "handleHTTPRouteDelete srv r route ?w d = (res, w1, d1)"
    by (metis prod.collapse)
  then obtain cs where cs: "w_log w1 = cs @ w_log ?w" "list_all (grant_call (hr_namespace route)) cs"
    using handleHTTPRouteDelete_calls [of srv r route ?w d] by auto
  let ?upd = "Update (ORoute (with_finalizers (filter (\<lambda>f. f \<noteq> HTTPRouteFinalizerName) (m_finalizers (hr_meta route))) route))"
  have "HTTPRoute_Reconcile ord n srv r ns name w d = Some (finalize_route srv r route ?w d)"
    using assms by (simp add: HTTPRoute_Reconcile_def do_call_def decode_def)
  moreover have "finalize_route srv r route ?w d =
      (case write_error (srv (?upd # w_log w1)) of None \<Rightarrow> Inr False | Some e \<Rightarrow> Inl (ApiError e),
       w1\<lparr>w_log := ?upd # w_log w1\<rparr>, d1)"
    using run by (simp add: finalize_route_def do_call_def Let_def split: option.split)
  ultimately show ?thesis
    using cs by (intro exI [of _ cs] exI [of _ "w1\<lparr>w_log := ?upd # w_log w1\<rparr>"] exI [of _ d1]) simp
qed

definition example_deleted_route :: http_route where
  "example_deleted_route = example_parent_route\<lparr>hr_meta := (hr_meta example_parent_route)\<lparr>
     m_deletion := Some 1, m_finalizers := [HTTPRouteFinalizerName]\<rparr>\<rparr>"

theorem route_deletion_finalizes_witness:
  "\<exists>w' d'. HTTPRoute_Reconcile (\<lambda>xs. xs) 1 (\<lambda>log. case log of Get KRoute _ _ # _ \<Rightarrow> RObj (ORoute example_deleted_route)
       | Update (ORoute _) # _ \<Rightarrow> ROk | _ \<Rightarrow> RErr (OtherError ''down''))
     example_controller ''shop'' ''prod'' empty_world newGatewayUpdateDebouncer = Some (Inr False, w', d')"
proof -
  let ?srv = "\<lambda>log. case log of Get KRoute _ _ # _ \<Rightarrow> RObj (ORoute example_deleted_route)
       | Update (ORoute _) # _ \<Rightarrow> ROk | _ \<Rightarrow> RErr (OtherError ''down'')"
  have "isManagedByUs example_deleted_route" "m_deletion (hr_meta example_deleted_route) \<noteq> None"
    "HTTPRouteFinalizerName \<in> set (m_finalizers (hr_meta example_deleted_route))"
    by (simp_all add: isManagedByUs_def example_deleted_route_def example_parent_route_def example_route_def)
  then show ?thesis
    using route_deletion_finalizes [of ?srv "''shop''" "''prod''" empty_world example_deleted_route "\<lambda>xs. xs" 1
        example_controller newGatewayUpdateDebouncer]
    by (auto simp: write_error_def)
qed

text \<open>
  A route whose hostnames the Gateway already serves asks for no update, whatever listeners the
  Gateway has besides: the reconcile of the route leaves the Gateway and the debouncer as they
  are. In particular the listener of a hostname that was taken out of a route stays until a
  route of the Gateway adds something or is deleted.
\<close>

theorem covered_route_requests_nothing:
  assumes gw: "gateway_at init w r g = Some (OGateway gw)" "IsManagedByUs (gw_annotations gw)" "g \<noteq> []"
    and route: "getGatewayNameFromHTTPRoute r route = g" "source_of init w route = Some ing"
    and covered: "\<And>h. h \<in> set (hr_hostnames route) \<Longrightarrow>
      \<exists>l. first_for (gw_listeners gw) h = Some l \<and> covers l (hr_namespace route)"
    and match: "snd (buildTLSForRouteFromIngress r route ing) = []"
  shows "\<exists>w'. handleHTTPRouteCreateOrUpdate ord 2 (mem_server init) r route w d = Some (Inr False, w', d) \<and>
    gateway_at init w' r g = Some (OGateway gw)"
proof -
  obtain key w1 where res: "resolveIngressForHTTPRoute (mem_server init) route w = ((Inr ing, key), w1)"
    and st1: "stored_in init w1 = stored_in init w"
    using resolve_mem [of init route w] route(2)
    by (cases "resolveIngressForHTTPRoute (mem_server init) route w") (auto simp: got_def split: sum.splits)
  let ?get = "Get KGateway (rr_gatewayNamespace r) g"
  let ?w2 = "w1\<lparr>w_log := ?get # ?get # w_log w1\<rparr>"
  have find: "find_gateway (mem_server init) r g w1 = (Inr (Some (True, gw)), ?w2)"
    using gw st1 by (simp add: find_gateway_def CanUpdateResource_def do_call_def decode_def)
  obtain w3 where w3: "ensure_grant 2 (mem_server init) r route ?w2 = Some w3" "gateway_at init w3 r g = gateway_at init ?w2 r g"
    using ensure_grant_mem [of init r route ?w2] by auto
  show ?thesis
    using res find w3 st1 gw route covered_no_update [OF covered match, of ord]
    by (simp add: handleHTTPRouteCreateOrUpdate_def)
qed

text \<open>A Gateway that serves the route and has a listener left from before.\<close>

definition example_covered_gateway :: gateway where
  "example_covered_gateway = example_managed_gateway\<lparr>gw_listeners :=
     [createListenerWithNamespaces ''old.domain.cc'' [''shop''] None,
      createListenerWithNamespaces ''app.domain.cc'' [''shop''] (Some (terminate_tls ''app-tls'' ''shop''))]\<rparr>"

theorem covered_route_requests_nothing_witness:
  "\<exists>w'. handleHTTPRouteCreateOrUpdate (\<lambda>xs. xs) 2 (mem_server [OGateway example_covered_gateway, OIngress example_ingress])
       example_controller example_parent_route empty_world newGatewayUpdateDebouncer
     = Some (Inr False, w', newGatewayUpdateDebouncer)"
proof -
  let ?init = "[OGateway example_covered_gateway, OIngress example_ingress]"
  note defs = example_covered_gateway_def example_managed_gateway_def example_gateway_def example_controller_def
    example_parent_route_def example_route_def example_ingress_def empty_world_def stored_def
  have gw: "gateway_at ?init empty_world example_controller ''shared'' = Some (OGateway example_covered_gateway)"
    "IsManagedByUs (gw_annotations example_covered_gateway)"
    by (simp_all add: defs IsManagedByUs_def mget_def)
  have route: "getGatewayNameFromHTTPRoute example_controller example_parent_route = ''shared''"
    "source_of ?init empty_world example_parent_route = Some example_ingress"
    by (simp_all add: defs getGatewayNameFromHTTPRoute_def source_of_def empty_meta_def mget_def ManagedByAnnotation_def
        SourceAnnotation_def ingress_in_def)
  have covered: "\<exists>l. first_for (gw_listeners example_covered_gateway) h = Some l \<and> covers l (hr_namespace example_parent_route)"
    if "h \<in> set (hr_hostnames example_parent_route)" for h
    using that by (simp add: defs createListenerWithNamespaces_def covers_def l_selector_def namespace_expr_def is_namespace_expr_def)
  have "TransformHostname (listener_config example_controller) ''app.domain.cc'' = ''app.domain.cc''"
    by (simp add: TransformHostname_def listener_config_def example_controller_def empty_config_def)
  then have "snd (buildTLSForRouteFromIngress example_controller example_parent_route example_ingress) = []"
    by (simp add: buildTLSForRouteFromIngress_def example_ingress_def example_parent_route_def example_route_def tls_rule_step_def
        findTLSConfigForHost_def host_tls_def Let_def)
  then show ?thesis
    using covered_route_requests_nothing [OF gw _ route covered] by (metis list.distinct(1))
qed

end
