(* ===== verification/Snippets.thy ===== *)
theory Snippets
  imports Glob Regex
begin

text \<open>
  The translation of nginx Ingress annotations into directives, the pure part of
  \<open>internal/utils/snippets.go\<close>: which annotations are taken over, the checks of their
  values, and the lines of the http, server and location contexts they become. The parser
  \<open>url.Parse\<close> is a parameter \<open>parse\<close>, so that what is proved holds for every
  parser; the regular expressions are those of \<open>Regex\<close>.
\<close>

section \<open>Rules and lists\<close>

record snippets_filter_mapping =
  sm_pattern :: string
  sm_name :: string

fun parse_mappings :: "string list \<Rightarrow> string + snippets_filter_mapping list" where
  "parse_mappings [] = Inr []"
| "parse_mappings (entry # entries) =
     (let trimmed = TrimSpace entry
      in if trimmed = [] then parse_mappings entries
         else case SplitN2 '':'' trimmed of
                [p, n] \<Rightarrow>
                  (let pattern = TrimSpace p; name = TrimSpace n
                   in if pattern = [] \<or> name = []
                      then Inl (''invalid entry '' @ Quote trimmed @ '', pattern and name must be non-empty'')
                      else case parse_mappings entries of
                             Inl e \<Rightarrow> Inl e
                           | Inr rest \<Rightarrow> Inr (\<lparr>sm_pattern = pattern, sm_name = name\<rparr> # rest))
              | _ \<Rightarrow> Inl (''invalid entry '' @ Quote trimmed @ '', expected pattern:name''))"

definition ParseIngressClassSnippetsFilters :: "string \<Rightarrow> string + snippets_filter_mapping list" where
  "ParseIngressClassSnippetsFilters raw =
     (if TrimSpace raw = [] then Inr [] else parse_mappings (Split '','' raw))"

fun annotation_loop :: "string list \<Rightarrow> string list \<Rightarrow> string list" where
  "annotation_loop seen [] = []"
| "annotation_loop seen (part # parts) =
     (let trimmed = TrimSpace part
      in if trimmed = [] \<or> trimmed \<in> set seen then annotation_loop seen parts
         else trimmed # annotation_loop (trimmed # seen) parts)"

definition ParseCommaSeparatedAnnotation :: "string gomap \<Rightarrow> string \<Rightarrow> string list" where
  "ParseCommaSeparatedAnnotation annotations key =
     (case map_of annotations key of
        None \<Rightarrow> []
      | Some raw \<Rightarrow> if TrimSpace raw = [] then [] else annotation_loop [] (Split '','' raw))"

record annotation_snippets_rule =
  ar_key :: string
  ar_valuePattern :: string
  ar_filters :: "string list"

definition rule_error :: "string \<Rightarrow> string \<Rightarrow> string" where
  "rule_error entry what = ''invalid entry '' @ Quote entry @ what"

definition parse_annotation_rule :: "string \<Rightarrow> string + annotation_snippets_rule" where
  "parse_annotation_rule entry =
     (case SplitN2 '':'' entry of
        [kv, f] \<Rightarrow>
          (let filtersRaw = TrimSpace f
           in case SplitN2 ''='' (TrimSpace kv) of
                [k, v] \<Rightarrow>
                  (let key = TrimSpace k; valuePattern = TrimSpace v;
                       filters = ParseCommaSeparatedAnnotation [(''value'', filtersRaw)] ''value''
                   in if key = [] \<or> valuePattern = [] \<or> filtersRaw = []
                      then Inl (rule_error entry '', key, value and filters must be non-empty'')
                      else if filters = [] then Inl (rule_error entry '', filters list must be non-empty'')
                      else Inr \<lparr>ar_key = key, ar_valuePattern = valuePattern, ar_filters = filters\<rparr>)
              | _ \<Rightarrow> Inl (rule_error entry '', expected key=value:filter1,filter2''))
      | _ \<Rightarrow> Inl (rule_error entry '', expected key=value:filter1,filter2''))"

fun parse_annotation_rules :: "string list \<Rightarrow> string + annotation_snippets_rule list" where
  "parse_annotation_rules [] = Inr []"
| "parse_annotation_rules (entry # entries) =
     (let trimmed = TrimSpace entry
      in if trimmed = [] then parse_annotation_rules entries
         else case parse_annotation_rule trimmed of
                Inl e \<Rightarrow> Inl e
              | Inr rule \<Rightarrow>
                  (case parse_annotation_rules entries of Inl e \<Rightarrow> Inl e | Inr rest \<Rightarrow> Inr (rule # rest)))"

definition ParseIngressAnnotationSnippetsRules :: "string \<Rightarrow> string + annotation_snippets_rule list" where
  "ParseIngressAnnotationSnippetsRules raw =
     (if TrimSpace raw = [] then Inr [] else parse_annotation_rules (Split '';'' raw))"

definition rule_matches :: "string gomap \<Rightarrow> annotation_snippets_rule \<Rightarrow> bool" where
  "rule_matches annotations rule \<longleftrightarrow>
     ar_key rule \<noteq> [] \<and> ar_valuePattern rule \<noteq> [] \<and>
     (case map_of annotations (ar_key rule) of
        None \<Rightarrow> False
      | Some raw \<Rightarrow> let value = TrimSpace raw in value \<noteq> [] \<and> Match (ar_valuePattern rule) value = Some True)"

fun collect_names :: "string list \<Rightarrow> string list \<Rightarrow> string list" where
  "collect_names seen [] = []"
| "collect_names seen (name # names) =
     (if name = [] \<or> name \<in> set seen then collect_names seen names
      else name # collect_names (name # seen) names)"

definition MatchIngressAnnotationSnippetsRules :: "string gomap \<Rightarrow> annotation_snippets_rule list \<Rightarrow> string list" where
  "MatchIngressAnnotationSnippetsRules annotations rules =
     collect_names [] (concat (map ar_filters (filter (rule_matches annotations) rules)))"

section \<open>Which annotations\<close>

definition nginxIngressAnnotationPrefix :: string where
  "nginxIngressAnnotationPrefix = ''nginx.ingress.kubernetes.io/''"

definition ingressAnnotationPrefix :: string where
  "ingressAnnotationPrefix = ''ingress.kubernetes.io/''"

definition nginxIngressDirectiveWhitelist :: "string list" where
  "nginxIngressDirectiveWhitelist =
     [''client-body-buffer-size'', ''http2-push-preload'', ''proxy-buffer-size'', ''proxy-buffering'',
      ''proxy-busy-buffers-size'', ''proxy-connect-timeout'', ''proxy-cookie-domain'', ''proxy-cookie-path'',
      ''proxy-http-version'', ''proxy-max-temp-file-size'', ''proxy-next-upstream'', ''proxy-next-upstream-timeout'',
      ''proxy-next-upstream-tries'', ''proxy-read-timeout'', ''proxy-request-buffering'', ''proxy-send-timeout'',
      ''proxy-ssl-ciphers'', ''proxy-ssl-name'', ''proxy-ssl-protocols'', ''proxy-ssl-server-name'',
      ''proxy-ssl-verify'', ''proxy-ssl-verify-depth'', ''satisfy'', ''ssl-ciphers'', ''ssl-prefer-server-ciphers'']"

definition isWhitelistedNginxIngressDirective :: "string \<Rightarrow> bool" where
  "isWhitelistedNginxIngressDirective sfx \<longleftrightarrow> sfx \<in> set nginxIngressDirectiveWhitelist"

definition nginxServerOnlyDirectives :: "string list" where
  "nginxServerOnlyDirectives = [''ssl-ciphers'', ''ssl-prefer-server-ciphers'']"

definition isServerOnlyNginxIngressDirective :: "string \<Rightarrow> bool" where
  "isServerOnlyNginxIngressDirective sfx \<longleftrightarrow> sfx \<in> set nginxServerOnlyDirectives"

definition ServerOnlySnippetAnnotationKeys :: "string list" where
  "ServerOnlySnippetAnnotationKeys = sort (map (\<lambda>suffix. nginxIngressAnnotationPrefix @ suffix) nginxServerOnlyDirectives)"

definition ServerOnlySnippetSuffix :: "string \<Rightarrow> string option" where
  "ServerOnlySnippetSuffix annotationKey =
     (let suffix = TrimPrefix annotationKey nginxIngressAnnotationPrefix
      in if suffix = annotationKey then None
         else if suffix \<in> set nginxServerOnlyDirectives then Some suffix else None)"

definition collectSnippetWarnings :: "string gomap \<Rightarrow> string list" where
  "collectSnippetWarnings annotations = sort (filter (\<lambda>key. HasPrefix key nginxIngressAnnotationPrefix \<and>
     (let suffix = TrimPrefix key nginxIngressAnnotationPrefix in suffix \<noteq> [] \<and> HasSuffix suffix ''-snippet''))
     (map fst annotations))"

definition NginxIngressSnippetWarningAnnotations :: "string gomap \<Rightarrow> string list" where
  "NginxIngressSnippetWarningAnnotations = collectSnippetWarnings"

section \<open>Checks of values\<close>

definition containsUnsafeSnippetChars :: "string \<Rightarrow> bool" where
  "containsUnsafeSnippetChars value \<longleftrightarrow> ContainsAny value [CHR 0x0D, CHR 0x0A, CHR '';'', CHR ''{'', CHR ''}'']"

definition escapeHeaderValue :: "string \<Rightarrow> string" where
  "escapeHeaderValue value = ReplaceAll value [CHR 0x22] [CHR 0x5C, CHR 0x22]"

definition sanitizeQuotedRegex :: "string \<Rightarrow> string" where
  "sanitizeQuotedRegex path = concat (map (\<lambda>c. if c = CHR 0x5C \<or> c = CHR 0x22 then [CHR 0x5C, c] else [c]) path)"

record ssl_proxy_header =
  ph_headerVar :: string
  ph_value :: string

fun ssl_header_loop ::
  "string list \<Rightarrow> string list \<Rightarrow> ssl_proxy_header list \<times> string list" where
  "ssl_header_loop seen [] = ([], [])"
| "ssl_header_loop seen (p # parts) =
     (let part = TrimSpace p; (rest_h, rest_w) = ssl_header_loop seen parts
      in if part = [] then (rest_h, rest_w)
         else case SplitN2 '':'' part of
                [h, v] \<Rightarrow>
                  (let header = ToLower (TrimSpace h); value = TrimSpace v;
                       headerVar = ReplaceAll header ''-'' ''_''; key = headerVar @ [CHR 0x00] @ value
                   in if header = [] \<or> value = []
                      then (rest_h, ''ssl-proxy-headers entry must be HEADER:value'' # rest_w)
                      else if containsUnsafeSnippetChars header \<or> containsUnsafeSnippetChars value
                      then (rest_h, ''ssl-proxy-headers entry contains unsafe characters'' # rest_w)
                      else if key \<in> set seen then (rest_h, rest_w)
                      else let (hs, ws) = ssl_header_loop (key # seen) parts
                           in (\<lparr>ph_headerVar = headerVar, ph_value = value\<rparr> # hs, ws))
              | _ \<Rightarrow> (rest_h, ''ssl-proxy-headers entry must be HEADER:value'' # rest_w))"

definition parseSSLProxyHeaders :: "string \<Rightarrow> ssl_proxy_header list \<times> string list" where
  "parseSSLProxyHeaders raw =
     (let raw = TrimSpace raw in if raw = [] then ([], []) else ssl_header_loop [] (Split ''||'' raw))"

definition code_warning :: "string \<Rightarrow> string" where
  "code_warning code = ''custom-http-errors code '' @ Quote code @ '' is not a 3-digit HTTP status''"

fun error_code_loop :: "string list \<Rightarrow> string list \<Rightarrow> string list \<times> string list" where
  "error_code_loop seen [] = ([], [])"
| "error_code_loop seen (part # parts) =
     (let code = TrimSpace part; (cs, ws) = error_code_loop seen parts
      in if code = [] then (cs, ws)
         else if length code \<noteq> 3 \<or> \<not> list_all is_digit code then (cs, code_warning code # ws)
         else if code \<in> set seen then (cs, ws)
         else let (cs, ws) = error_code_loop (code # seen) parts in (code # cs, ws))"

definition parseCustomHTTPErrors :: "string \<Rightarrow> string list \<times> string list" where
  "parseCustomHTTPErrors raw =
     (let raw = TrimSpace raw
      in if raw = [] then ([], [])
         else let (codes, warnings) = error_code_loop [] (Split '','' raw)
              in (codes, warnings @
                  (if codes = [] then [''custom-http-errors has no valid HTTP status codes''] else []) @
                  (if length codes > 1
                   then [''custom-http-errors supports multiple codes, but the snippet error handler returns the first code only'']
                   else [])))"

section \<open>Reading the annotations\<close>

record auth_state =
  au_url :: string
  au_signin :: string
  au_signinRedirectParam :: string
  au_method :: string
  au_responseHeaders :: "string list"
  au_requestRedirect :: string
  au_cacheKey :: string
  au_cacheDuration :: string
  au_keepalive :: string

record snippet_state =
  st_lines :: "string list"
  st_serverOnlyLines :: "string list"
  st_sslRedirectOff :: bool
  st_forceSSLRedirect :: bool
  st_proxyBodySizeValue :: string
  st_clientMaxBodySize :: string
  st_proxyRedirectFrom :: string
  st_proxyRedirectTo :: string
  st_proxyBuffersNumber :: string
  st_proxyBufferSize :: string
  st_browserXssFilter :: bool
  st_contentTypeNosniff :: bool
  st_referrerPolicy :: string
  st_sslProxyHeaders :: "ssl_proxy_header list"
  st_whitelist :: "string list"
  st_blacklist :: "string list"
  st_customHTTPErrors :: "string list"
  st_rewriteTarget :: string
  st_useRegex :: bool
  st_auth :: auth_state
  st_warnings :: "string list"

definition empty_auth :: auth_state where
  "empty_auth = \<lparr>au_url = [], au_signin = [], au_signinRedirectParam = [], au_method = [], au_responseHeaders = [],
     au_requestRedirect = [], au_cacheKey = [], au_cacheDuration = [], au_keepalive = []\<rparr>"

definition empty_state :: snippet_state where
  "empty_state = \<lparr>st_lines = [], st_serverOnlyLines = [], st_sslRedirectOff = False, st_forceSSLRedirect = False,
     st_proxyBodySizeValue = [], st_clientMaxBodySize = [], st_proxyRedirectFrom = [], st_proxyRedirectTo = [],
     st_proxyBuffersNumber = [], st_proxyBufferSize = [], st_browserXssFilter = False, st_contentTypeNosniff = False,
     st_referrerPolicy = [], st_sslProxyHeaders = [], st_whitelist = [], st_blacklist = [], st_customHTTPErrors = [],
     st_rewriteTarget = [], st_useRegex = False, st_auth = empty_auth, st_warnings = []\<rparr>"

definition add_warnings :: "string list \<Rightarrow> snippet_state \<Rightarrow> snippet_state" where
  "add_warnings ws st = st\<lparr>st_warnings := st_warnings st @ ws\<rparr>"

definition unsafe_warning :: "string \<Rightarrow> string" where
  "unsafe_warning key = ''annotation '' @ key @ '' contains unsafe characters ('' @ [CHR 0x5C] @ ''n, '' @ [CHR 0x5C]
     @ ''r, '' @ [CHR 0x27] @ '';'' @ [CHR 0x27] @ '', '' @ [CHR 0x27] @ ''{'' @ [CHR 0x27] @ '', '' @ [CHR 0x27] @ ''}''
     @ [CHR 0x27] @ ''); ignoring''"

text \<open>\<open>isSafeSnippetValue\<close> and the assignment it guards.\<close>

definition isSafeSnippetValue ::
  "string \<Rightarrow> string \<Rightarrow> (snippet_state \<Rightarrow> snippet_state) \<Rightarrow> snippet_state \<Rightarrow> snippet_state" where
  "isSafeSnippetValue key value use st =
     (if containsUnsafeSnippetChars value then add_warnings [unsafe_warning key] st else use st)"

definition filterSafeSnippetValues :: "string \<Rightarrow> string list \<Rightarrow> string list \<times> string list" where
  "filterSafeSnippetValues key values =
     (filter (\<lambda>v. \<not> containsUnsafeSnippetChars v) values,
      map (\<lambda>v. unsafe_warning key @ '' value '' @ Quote v) (filter containsUnsafeSnippetChars values))"

definition applyAuthIngressAnnotationValue :: "string \<Rightarrow> string \<Rightarrow> snippet_state \<Rightarrow> snippet_state option" where
  "applyAuthIngressAnnotationValue sfx value st =
     (let au = (\<lambda>f. Some (st\<lparr>st_auth := f (st_auth st)\<rparr>))
      in if sfx = ''auth-url'' then au (au_url_update (\<lambda>_. value))
         else if sfx = ''auth-signin'' then au (au_signin_update (\<lambda>_. value))
         else if sfx = ''auth-signin-redirect-param'' then au (au_signinRedirectParam_update (\<lambda>_. value))
         else if sfx = ''auth-method'' then au (au_method_update (\<lambda>_. value))
         else if sfx = ''auth-response-headers''
         then au (au_responseHeaders_update (\<lambda>_. ParseCommaSeparatedAnnotation [(''value'', value)] ''value''))
         else if sfx = ''auth-request-redirect'' then au (au_requestRedirect_update (\<lambda>_. value))
         else if sfx = ''auth-cache-key'' then au (au_cacheKey_update (\<lambda>_. value))
         else if sfx = ''auth-cache-duration'' then au (au_cacheDuration_update (\<lambda>_. value))
         else if sfx = ''auth-keepalive'' then au (au_keepalive_update (\<lambda>_. value))
         else if sfx = ''auth-proxy-set-headers'' then Some st
         else None)"

text \<open>A list of source ranges, appended to what is there; unsafe entries are dropped with a warning.\<close>

definition safe_ranges :: "string \<Rightarrow> string \<Rightarrow> (string list \<Rightarrow> snippet_state \<Rightarrow> snippet_state) \<Rightarrow> snippet_state \<Rightarrow> snippet_state" where
  "safe_ranges sfx value use st =
     (let (ranges, warnings) = filterSafeSnippetValues sfx (ParseCommaSeparatedAnnotation [(''value'', value)] ''value'')
      in use ranges (add_warnings warnings st))"

definition apply_flag :: "string \<Rightarrow> string \<Rightarrow> (snippet_state \<Rightarrow> snippet_state) \<Rightarrow> snippet_state \<Rightarrow> snippet_state" where
  "apply_flag value wanted use st = (if EqualFold value wanted then use st else st)"

definition applyIngressAnnotationValue :: "string \<Rightarrow> string \<Rightarrow> snippet_state \<Rightarrow> snippet_state option" where
  "applyIngressAnnotationValue sfx value st =
     (case applyAuthIngressAnnotationValue sfx value st of
        Some st' \<Rightarrow> Some st'
      | None \<Rightarrow>
          if sfx \<in> {''configuration-snippet'', ''server-snippet'', ''auth-snippet''} then Some st
          else if sfx = ''proxy-body-size''
          then Some (isSafeSnippetValue sfx value (st_proxyBodySizeValue_update (\<lambda>_. value)) st)
          else if sfx = ''allowlist-source-range'' \<or> sfx = ''whitelist-source-range''
          then Some (safe_ranges sfx value (\<lambda>rs. st_whitelist_update (\<lambda>xs. xs @ rs)) st)
          else if sfx = ''denylist-source-range'' \<or> sfx = ''blacklist-source-range''
          then Some (safe_ranges sfx value (\<lambda>rs. st_blacklist_update (\<lambda>xs. xs @ rs)) st)
          else if sfx = ''client-max-body-size''
          then Some (isSafeSnippetValue sfx value (st_clientMaxBodySize_update (\<lambda>_. value)) st)
          else if sfx = ''proxy-redirect-from''
          then Some (isSafeSnippetValue sfx value (st_proxyRedirectFrom_update (\<lambda>_. value)) st)
          else if sfx = ''proxy-redirect-to''
          then Some (isSafeSnippetValue sfx value (st_proxyRedirectTo_update (\<lambda>_. value)) st)
          else if sfx = ''proxy-buffers-number''
          then Some (isSafeSnippetValue sfx value (st_proxyBuffersNumber_update (\<lambda>_. value)) st)
          else if sfx = ''ssl-redirect'' then Some (apply_flag value ''false'' (st_sslRedirectOff_update (\<lambda>_. True)) st)
          else if sfx = ''force-ssl-redirect'' then Some (apply_flag value ''true'' (st_forceSSLRedirect_update (\<lambda>_. True)) st)
          else if sfx = ''preserve-trailing-slash'' then Some st
          else if sfx = ''custom-http-errors''
          then Some (let (codes, warnings) = parseCustomHTTPErrors value
                     in add_warnings warnings (if codes \<noteq> [] then st\<lparr>st_customHTTPErrors := codes\<rparr> else st))
          else if sfx = ''from-to-www-redirect''
          then Some (apply_flag value ''true'' (add_warnings
            [''from-to-www-redirect is not supported in snippets; missing host information, annotation ignored'']) st)
          else if sfx = ''rewrite-target''
          then Some (isSafeSnippetValue sfx value (st_rewriteTarget_update (\<lambda>_. value)) st)
          else if sfx = ''use-regex'' then Some (apply_flag value ''true'' (st_useRegex_update (\<lambda>_. True)) st)
          else None)"

definition applyLegacyIngressAnnotationValue :: "string \<Rightarrow> string \<Rightarrow> snippet_state \<Rightarrow> snippet_state" where
  "applyLegacyIngressAnnotationValue sfx value st =
     (if sfx = ''browser-xss-filter'' then apply_flag value ''true'' (st_browserXssFilter_update (\<lambda>_. True)) st
      else if sfx = ''content-type-nosniff'' then apply_flag value ''true'' (st_contentTypeNosniff_update (\<lambda>_. True)) st
      else if sfx = ''referrer-policy'' then isSafeSnippetValue sfx value (st_referrerPolicy_update (\<lambda>_. value)) st
      else if sfx = ''ssl-proxy-headers''
      then (let (headers, warnings) = parseSSLProxyHeaders value
            in add_warnings warnings (if headers \<noteq> [] then st\<lparr>st_sslProxyHeaders := headers\<rparr> else st))
      else if sfx = ''force-ssl-redirect'' then apply_flag value ''true'' (st_forceSSLRedirect_update (\<lambda>_. True)) st
      else st)"

text \<open>A whitelisted annotation becomes a directive of its own name.\<close>

definition directive_line :: "string \<Rightarrow> string \<Rightarrow> string" where
  "directive_line sfx value = ReplaceAll sfx ''-'' ''_'' @ '' '' @ value @ '';''"

definition ingest_directive :: "string list \<Rightarrow> string \<Rightarrow> string \<Rightarrow> string \<Rightarrow> snippet_state \<Rightarrow> snippet_state" where
  "ingest_directive suppress fullKey sfx value st =
     (if \<not> isWhitelistedNginxIngressDirective sfx then st
      else isSafeSnippetValue fullKey value (\<lambda>st.
        if isServerOnlyNginxIngressDirective sfx
        then if sfx \<in> set suppress then st
             else st\<lparr>st_serverOnlyLines := st_serverOnlyLines st @ [directive_line sfx value]\<rparr>
        else (if sfx = ''proxy-buffer-size'' then st\<lparr>st_proxyBufferSize := value\<rparr> else st)
               \<lparr>st_lines := st_lines st @ [directive_line sfx value]\<rparr>) st)"

text \<open>An annotation key with its prefix taken off.\<close>

record annotation_key =
  ak_fullKey :: string
  ak_prefix :: string
  ak_suffix :: string

definition annotation_key_of :: "string \<Rightarrow> annotation_key option" where
  "annotation_key_of key =
     (let of_prefix = (\<lambda>p. let sfx = TrimPrefix key p
                           in if sfx \<noteq> [] then Some \<lparr>ak_fullKey = key, ak_prefix = p, ak_suffix = sfx\<rparr> else None)
      in if HasPrefix key nginxIngressAnnotationPrefix then of_prefix nginxIngressAnnotationPrefix
         else if HasPrefix key ingressAnnotationPrefix then of_prefix ingressAnnotationPrefix
         else None)"

definition ingest_step :: "string gomap \<Rightarrow> string list \<Rightarrow> annotation_key \<Rightarrow> snippet_state \<Rightarrow> snippet_state" where
  "ingest_step annotations suppress entry st =
     (let value = TrimSpace (mget annotations (ak_fullKey entry))
      in if value = [] then st
         else if ak_prefix entry = nginxIngressAnnotationPrefix
         then case applyIngressAnnotationValue (ak_suffix entry) value st of
                Some st' \<Rightarrow> st'
              | None \<Rightarrow> ingest_directive suppress (ak_fullKey entry) (ak_suffix entry) value st
         else if ak_prefix entry = ingressAnnotationPrefix
         then applyLegacyIngressAnnotationValue (ak_suffix entry) value st
         else st)"

definition ingestNginxIngressAnnotations :: "string gomap \<Rightarrow> annotation_key list \<Rightarrow> string list \<Rightarrow> snippet_state" where
  "ingestNginxIngressAnnotations annotations keys suppress = fold (ingest_step annotations suppress) keys empty_state"

section \<open>Lines\<close>

definition nl :: string where
  "nl = [CHR 0x0A]"

definition body_size_lines :: "snippet_state \<Rightarrow> string list" where
  "body_size_lines st =
     (if st_clientMaxBodySize st \<noteq> [] then [''client_max_body_size '' @ st_clientMaxBodySize st @ '';'']
      else if st_proxyBodySizeValue st \<noteq> [] then [''client_max_body_size '' @ st_proxyBodySizeValue st @ '';'']
      else [])"

definition proxy_redirect_lines :: "snippet_state \<Rightarrow> string list \<times> string list" where
  "proxy_redirect_lines st =
     (if st_proxyRedirectFrom st \<noteq> []
      then let lowerFrom = ToLower (st_proxyRedirectFrom st)
           in if lowerFrom = ''off'' \<or> lowerFrom = ''default'' then ([''proxy_redirect '' @ st_proxyRedirectFrom st @ '';''], [])
              else if st_proxyRedirectTo st \<noteq> []
              then ([''proxy_redirect '' @ st_proxyRedirectFrom st @ '' '' @ st_proxyRedirectTo st @ '';''], [])
              else ([], [''proxy-redirect-from requires proxy-redirect-to (or set proxy-redirect-from to off/default)''])
      else if st_proxyRedirectTo st \<noteq> [] then ([], [''proxy-redirect-to requires proxy-redirect-from''])
      else ([], []))"

definition proxy_buffers_lines :: "snippet_state \<Rightarrow> string list \<times> string list" where
  "proxy_buffers_lines st =
     (if st_proxyBuffersNumber st = [] then ([], [])
      else if st_proxyBufferSize st = []
      then ([], [''proxy-buffers-number requires proxy-buffer-size to compute proxy_buffers''])
      else ([''proxy_buffers '' @ st_proxyBuffersNumber st @ '' '' @ st_proxyBufferSize st @ '';''], []))"

definition buildNginxDirectiveLines :: "snippet_state \<Rightarrow> string list \<times> string list" where
  "buildNginxDirectiveLines st =
     (let rewriteWarning =
            (if TrimSpace (st_rewriteTarget st) \<noteq> [] \<and> Contains (st_rewriteTarget st) ''$'' \<and> \<not> st_useRegex st
             then [''rewrite-target contains capture references but use-regex is not enabled''] else []);
          (redirect, redirectWarnings) = proxy_redirect_lines st;
          (buffers, bufferWarnings) = proxy_buffers_lines st
      in (st_lines st @ body_size_lines st @ redirect @ buffers,
          st_warnings st @ rewriteWarning @ redirectWarnings @ bufferWarnings))"

fun unique_loop :: "string list \<Rightarrow> string list \<Rightarrow> string list" where
  "unique_loop seen [] = []"
| "unique_loop seen (value # values) =
     (let trimmed = TrimSpace value
      in if trimmed = [] \<or> trimmed \<in> set seen then unique_loop seen values
         else trimmed # unique_loop (trimmed # seen) values)"

definition uniqueStrings :: "string list \<Rightarrow> string list" where
  "uniqueStrings values = unique_loop [] values"

definition security_header_lines :: "snippet_state \<Rightarrow> string list" where
  "security_header_lines st =
     (if st_browserXssFilter st then [''add_header X-XSS-Protection \"1; mode=block\" always;''] else []) @
     (if st_contentTypeNosniff st then [''add_header X-Content-Type-Options \"nosniff\" always;''] else []) @
     (if TrimSpace (st_referrerPolicy st) \<noteq> []
      then [''add_header Referrer-Policy '' @ Quote (escapeHeaderValue (st_referrerPolicy st)) @ '' always;''] else [])"

definition proxy_header_line :: "ssl_proxy_header \<Rightarrow> string" where
  "proxy_header_line header =
     ''if ($http_'' @ ph_headerVar header @ '' = '' @ Quote (ph_value header)
       @ '') { set $ingress_doperator_needs_redirect 0; }''"

definition force_ssl_lines :: "snippet_state \<Rightarrow> string list" where
  "force_ssl_lines st =
     (if \<not> st_forceSSLRedirect st then []
      else [''set $ingress_doperator_needs_redirect 0;'',
            ''if ($scheme != \"https\") { set $ingress_doperator_needs_redirect 1; }'']
        @ map proxy_header_line (st_sslProxyHeaders st)
        @ [''add_header Strict-Transport-Security \"max-age=31536000\" always;'',
           ''if ($ingress_doperator_needs_redirect = 1) { return 308 https://$server_name$request_uri; }''])"

definition rewrite_acl_lines :: "snippet_state \<Rightarrow> string list" where
  "rewrite_acl_lines st =
     (let target = TrimSpace (st_rewriteTarget st)
      in (if target \<noteq> []
          then [''rewrite '' @ (if st_useRegex st \<or> Contains target ''$'' then ''^(.*)$'' else ''^'') @ '' '' @ target @ '' break;'']
          else []))
     @ map (\<lambda>cidr. ''deny '' @ cidr @ '';'') (uniqueStrings (st_blacklist st))
     @ map (\<lambda>cidr. ''allow '' @ cidr @ '';'') (uniqueStrings (st_whitelist st))
     @ (if st_whitelist st \<noteq> [] then [''deny all;''] else [])"

definition buildHTTPContextLines :: "snippet_state \<Rightarrow> string list \<Rightarrow> string list" where
  "buildHTTPContextLines st authHTTP = (if st_sslRedirectOff st then [''ssl_redirect off;''] else []) @ authHTTP"

definition error_location :: "string \<Rightarrow> string \<Rightarrow> string" where
  "error_location id' code = ''location @ingress_doperator_error_'' @ id' @ '' {'' @ nl @ ''    return '' @ code @ '';'' @ nl @ ''}''"

definition buildServerContextLines :: "snippet_state \<Rightarrow> string list \<Rightarrow> string \<Rightarrow> string list" where
  "buildServerContextLines st authServer id' =
     st_serverOnlyLines st
     @ (case st_customHTTPErrors st of [] \<Rightarrow> [] | code # _ \<Rightarrow> [error_location id' code])
     @ authServer"

definition buildLocationContextLines :: "snippet_state \<Rightarrow> string list \<Rightarrow> string list \<Rightarrow> string \<Rightarrow> string list" where
  "buildLocationContextLines st ls authLocation id' =
     ls
     @ (if st_customHTTPErrors st \<noteq> []
        then [''proxy_intercept_errors on;'',
              ''error_page '' @ Join '' '' (st_customHTTPErrors st) @ '' = @ingress_doperator_error_'' @ id' @ '';''] else [])
     @ security_header_lines st @ force_ssl_lines st @ rewrite_acl_lines st @ authLocation"

text \<open>A snippet: its context and its text.\<close>

type_synonym snippet = "string \<times> string"

definition appendSnippet :: "snippet list \<Rightarrow> string \<Rightarrow> string list \<Rightarrow> snippet list" where
  "appendSnippet snippets nginxContext ls = (if ls = [] then snippets else snippets @ [(nginxContext, Join nl ls)])"

definition buildNginxSnippetBlocks ::
  "snippet_state \<Rightarrow> string list \<Rightarrow> string list \<times> string list \<times> string list \<Rightarrow> string \<Rightarrow> snippet list" where
  "buildNginxSnippetBlocks st ls auth id' =
     (let (authHTTP, authServer, authLocation) = auth
      in appendSnippet (appendSnippet (appendSnippet []
             ''http'' (buildHTTPContextLines st authHTTP))
             ''http.server'' (buildServerContextLines st authServer id'))
             ''http.server.location'' (buildLocationContextLines st ls authLocation id'))"

section \<open>External authentication\<close>

text \<open>
  What the code reads of a parsed URL. Nothing is assumed of how the parts relate to the text
  that was parsed.
\<close>

record url =
  url_scheme :: string
  url_host :: string
  url_hostname :: string
  url_port :: string
  url_requestURI :: string

type_synonym url_parser = "string \<Rightarrow> url option"

record auth_inputs =
  ai_identifier :: string
  ai_proxySetHeaders :: "string gomap"

definition AuthIdentifier :: "string \<Rightarrow> string \<Rightarrow> string" where
  "AuthIdentifier namespace name = namespace @ ''-'' @ name"

definition authHeaderNameRe :: rexp where
  "authHeaderNameRe = RPlus (RClass (\<lambda>c. is_alnum c \<or> c = CHR ''-''))"

definition authTokenRe :: rexp where
  "authTokenRe = RPlus (RClass (\<lambda>c. is_alnum c \<or> c = CHR ''_'' \<or> c = CHR ''-''))"

definition authNumberRe :: rexp where
  "authNumberRe = RPlus (RClass is_digit)"

definition authCacheValidRe :: rexp where
  "authCacheValidRe = RPlus (RClass (\<lambda>c. is_digit c \<or> c \<in> {CHR ''s'', CHR ''m'', CHR ''h'', CHR ''d'', CHR '' ''}))"

definition authHTTPMethods :: "string list" where
  "authHTTPMethods = [''GET'', ''HEAD'', ''POST'', ''PUT'', ''DELETE'', ''PATCH'', ''OPTIONS'']"

definition sanitizeNginxIdentifier :: "string \<Rightarrow> string" where
  "sanitizeNginxIdentifier raw =
     (let out = TrimBoth (CHR ''_'') (map (\<lambda>c. if is_lower c \<or> is_digit c then c else CHR ''_'') (ToLower raw))
      in if out = [] then ''default'' else out)"

definition indentNginxLines :: "string list \<Rightarrow> string" where
  "indentNginxLines ls = Join nl (map (\<lambda>l. ''    '' @ l) ls)"

definition validateAuthURL :: "url_parser \<Rightarrow> string \<Rightarrow> url option" where
  "validateAuthURL parse raw =
     (if raw = [] \<or> containsUnsafeSnippetChars raw then None
      else case parse raw of
             None \<Rightarrow> None
           | Some u \<Rightarrow>
               if url_scheme u \<noteq> ''http'' \<and> url_scheme u \<noteq> ''https'' then None
               else if url_host u = [] then None else Some u)"

definition sortedMapKeys :: "string gomap \<Rightarrow> string list" where
  "sortedMapKeys m = sort (map fst m)"

fun auth_response_lines :: "nat \<Rightarrow> string list \<Rightarrow> string list \<times> string list" where
  "auth_response_lines i [] = ([], [])"
| "auth_response_lines i (hdr # headers) =
     (let (ls, ws) = auth_response_lines (Suc i) headers
      in if \<not> MatchString authHeaderNameRe hdr
         then (ls, (''auth-response-headers entry '' @ Quote hdr @ '' is not a valid header name; ignoring'') # ws)
         else let varName = ''$doperator_auth_h'' @ show_nat i
              in ([''auth_request_set '' @ varName @ '' $upstream_http_'' @ ReplaceAll (ToLower hdr) ''-'' ''_'' @ '';'',
                   ''proxy_set_header '' @ hdr @ '' '' @ varName @ '';''] @ ls, ws))"

definition buildAuthResponseHeaderLines :: "string list \<Rightarrow> string list \<times> string list" where
  "buildAuthResponseHeaderLines headers = auth_response_lines 0 headers"

definition signin_target :: "auth_state \<Rightarrow> string \<Rightarrow> string \<times> string list" where
  "signin_target auth signin =
     (let signin = ReplaceAll signin ''$escaped_request_uri'' ''$request_uri'';
          param = TrimSpace (au_signinRedirectParam auth)
      in if param = [] then (signin, [])
         else if MatchString authTokenRe param
         then (if \<not> Contains signin ''?'' then signin @ ''?'' @ param @ ''=$request_uri'' else signin, [])
         else (signin, [''auth-signin-redirect-param '' @ Quote param @ '' is not a valid query parameter name; ignoring'']))"

text \<open>The line of the location and the block of the server, if there is a sign-in page.\<close>

definition buildAuthSignin :: "url_parser \<Rightarrow> auth_state \<Rightarrow> string \<Rightarrow> (string \<times> string) option \<times> string list" where
  "buildAuthSignin parse auth id' =
     (let signin = TrimSpace (au_signin auth)
      in if signin = [] then (None, [])
         else if validateAuthURL parse signin = None
         then (None, [''auth-signin '' @ Quote signin @ '' is not a valid http(s) URL; ignoring''])
         else let (signin, warnings) = signin_target auth signin; signinLoc = ''@doperator_signin_'' @ id'
              in (Some (''error_page 401 = '' @ signinLoc @ '';'',
                        ''location '' @ signinLoc @ '' {'' @ nl @ ''    internal;'' @ nl @ ''    return 302 '' @ signin @ '';'' @ nl @ ''}''),
                  warnings))"

fun proxy_set_header_lines :: "string gomap \<Rightarrow> string list \<Rightarrow> string list \<times> string list" where
  "proxy_set_header_lines m [] = ([], [])"
| "proxy_set_header_lines m (name # names) =
     (let (ls, ws) = proxy_set_header_lines m names; value = mget m name
      in if \<not> MatchString authHeaderNameRe name
         then (ls, (''auth-proxy-set-headers key '' @ Quote name @ '' is not a valid header name; ignoring'') # ws)
         else if containsUnsafeSnippetChars value
         then (ls, (''auth-proxy-set-headers value for '' @ Quote name @ '' contains unsafe characters; ignoring'') # ws)
         else ((''proxy_set_header '' @ name @ '' \"'' @ escapeHeaderValue value @ ''\";'') # ls, ws))"

definition buildAuthProxySetHeaderLines :: "string gomap \<Rightarrow> string list \<times> string list" where
  "buildAuthProxySetHeaderLines headers = proxy_set_header_lines headers (sortedMapKeys headers)"

definition buildAuthProxyPass :: "auth_state \<Rightarrow> url \<Rightarrow> string \<Rightarrow> string \<times> string list \<times> string list" where
  "buildAuthProxyPass auth parsed id' =
     (let keepalive = TrimSpace (au_keepalive auth); direct = ''proxy_pass '' @ TrimSpace (au_url auth) @ '';''
      in if keepalive = [] then (direct, [], [])
         else if \<not> MatchString authNumberRe keepalive
         then (direct, [], [''auth-keepalive '' @ Quote keepalive @ '' is not a positive integer; disabling keepalive''])
         else let upstreamName = ''doperator_auth_'' @ id';
                  port = (if url_port parsed \<noteq> [] then url_port parsed
                          else if url_scheme parsed = ''https'' then ''443'' else ''80'')
              in (''proxy_pass '' @ url_scheme parsed @ ''://'' @ upstreamName @ url_requestURI parsed @ '';'',
                  [''upstream '' @ upstreamName @ '' {'' @ nl @ ''    server '' @ url_hostname parsed @ '':'' @ port @ '';'' @ nl
                     @ ''    keepalive '' @ keepalive @ '';'' @ nl @ ''}''], []))"

definition buildAuthCache :: "auth_state \<Rightarrow> string \<Rightarrow> string list \<times> string list \<times> string list" where
  "buildAuthCache auth id' =
     (let cacheKey = TrimSpace (au_cacheKey auth); zone = ''doperator_auth_'' @ id'; duration = TrimSpace (au_cacheDuration auth)
      in if cacheKey = [] then ([], [], [])
         else if containsUnsafeSnippetChars cacheKey
         then ([], [], [''auth-cache-key contains unsafe characters; disabling auth caching''])
         else let valid = (duration \<noteq> [] \<and> MatchString authCacheValidRe duration)
              in ([''proxy_cache '' @ zone @ '';'', ''proxy_cache_key \"'' @ escapeHeaderValue cacheKey @ ''\";'']
                    @ (if valid then [''proxy_cache_valid '' @ duration @ '';''] else []),
                  [''proxy_cache_path /var/cache/nginx/'' @ zone @ '' levels=1:2 keys_zone='' @ zone
                     @ '':1m max_size=10m inactive=60m use_temp_path=off;''],
                  if duration \<noteq> [] \<and> \<not> valid
                  then [''auth-cache-duration '' @ Quote duration @ '' is not a valid duration; ignoring''] else []))"

definition auth_redirect :: "auth_state \<Rightarrow> string \<times> string list" where
  "auth_redirect auth =
     (let requestRedirect = TrimSpace (au_requestRedirect auth)
      in if requestRedirect = [] then (''$request_uri'', [])
         else if containsUnsafeSnippetChars requestRedirect
         then (''$request_uri'', [''auth-request-redirect contains unsafe characters; using $request_uri''])
         else (requestRedirect, []))"

definition auth_method_lines :: "auth_state \<Rightarrow> string list \<times> string list" where
  "auth_method_lines auth =
     (let method = ToUpper (TrimSpace (au_method auth))
      in if method = [] then ([], [])
         else if method \<in> set authHTTPMethods then ([''proxy_method '' @ method @ '';''], [])
         else ([], [''auth-method '' @ Quote method @ '' is not a recognized HTTP method; ignoring'']))"

definition auth_fixed_lines :: "string list" where
  "auth_fixed_lines = [''internal;'', ''proxy_pass_request_body off;'', ''proxy_set_header Content-Length \"\";'',
     ''proxy_set_header X-Original-URL $scheme://$http_host$request_uri;'', ''proxy_set_header X-Original-URI $request_uri;'',
     ''proxy_set_header X-Original-Method $request_method;'', ''proxy_set_header X-Scheme $scheme;'',
     ''proxy_set_header X-Sender-Host $host;'']"

text \<open>The lines of the internal location, the lines of the http context, and warnings.\<close>

definition auth_location_lines ::
  "auth_state \<Rightarrow> auth_inputs \<Rightarrow> url \<Rightarrow> string \<Rightarrow> string list \<times> string list \<times> string list" where
  "auth_location_lines auth inputs parsed id' =
     (let (redirect, redirectWarnings) = auth_redirect auth;
          (methodLines, methodWarnings) = auth_method_lines auth;
          (headerLines, headerWarnings) = buildAuthProxySetHeaderLines (ai_proxySetHeaders inputs);
          (proxyPass, keepaliveHTTP, keepaliveWarnings) = buildAuthProxyPass auth parsed id';
          (cacheLines, cacheHTTP, cacheWarnings) = buildAuthCache auth id'
      in (auth_fixed_lines @ [''proxy_set_header X-Auth-Request-Redirect '' @ redirect @ '';''] @ methodLines @ headerLines
            @ [''proxy_set_header Host '' @ url_host parsed @ '';'']
            @ (if url_scheme parsed = ''https''
               then [''proxy_ssl_server_name on;'', ''proxy_ssl_name '' @ url_hostname parsed @ '';''] else [])
            @ (if keepaliveHTTP \<noteq> [] then [''proxy_http_version 1.1;'', ''proxy_set_header Connection \"\";''] else [])
            @ cacheLines @ [proxyPass],
          keepaliveHTTP @ cacheHTTP,
          redirectWarnings @ methodWarnings @ headerWarnings @ keepaliveWarnings @ cacheWarnings))"

definition buildAuthLocationBlock ::
  "auth_state \<Rightarrow> auth_inputs \<Rightarrow> url \<Rightarrow> string \<Rightarrow> string \<times> string list \<times> string list" where
  "buildAuthLocationBlock auth inputs parsed id' =
     (let (ls, httpLines, warnings) = auth_location_lines auth inputs parsed id'
      in (''location = /_doperator_auth_'' @ id' @ '' {'' @ nl @ indentNginxLines ls @ nl @ ''}'', httpLines, warnings))"

definition buildAuthRequestConfig ::
  "url_parser \<Rightarrow> auth_state \<Rightarrow> auth_inputs \<Rightarrow> (string list \<times> string list \<times> string list) \<times> string list" where
  "buildAuthRequestConfig parse auth inputs =
     (let rawURL = TrimSpace (au_url auth)
      in if rawURL = [] then (([], [], []), [])
         else case validateAuthURL parse rawURL of
                None \<Rightarrow> (([], [], []), [''auth-url '' @ Quote rawURL @ '' is not a valid http(s) URL; ignoring external auth''])
              | Some parsed \<Rightarrow>
                  let id' = sanitizeNginxIdentifier (ai_identifier inputs);
                      (respLines, respWarnings) = buildAuthResponseHeaderLines (au_responseHeaders auth);
                      (signin, signinWarnings) = buildAuthSignin parse auth id';
                      (authBlock, httpLines, blockWarnings) = buildAuthLocationBlock auth inputs parsed id'
                  in ((httpLines, authBlock # (case signin of None \<Rightarrow> [] | Some (_, block) \<Rightarrow> [block]),
                       [''auth_request /_doperator_auth_'' @ id' @ '';''] @ respLines
                         @ (case signin of None \<Rightarrow> [] | Some (l, _) \<Rightarrow> [l])),
                      respWarnings @ signinWarnings @ blockWarnings))"

definition snippet_keys :: "string gomap \<Rightarrow> annotation_key list" where
  "snippet_keys annotations = sort_key ak_fullKey (List.map_filter annotation_key_of (map fst annotations))"

text \<open>The snippets, or none, and the warnings.\<close>

definition BuildNginxIngressSnippets ::
  "url_parser \<Rightarrow> string gomap \<Rightarrow> auth_inputs \<Rightarrow> string list \<Rightarrow> snippet list option \<times> string list" where
  "BuildNginxIngressSnippets parse annotations auth suppress =
     (let keys = snippet_keys annotations
      in if keys = [] then (None, [])
         else let st = ingestNginxIngressAnnotations annotations keys suppress;
                  (ls, warnings) = buildNginxDirectiveLines st;
                  (authLines, authWarnings) = buildAuthRequestConfig parse (st_auth st) auth;
                  snippets = buildNginxSnippetBlocks st ls authLines (sanitizeNginxIdentifier (ai_identifier auth))
              in (if snippets = [] then None else Some snippets, warnings @ authWarnings))"

section \<open>What may not break out of a directive\<close>

text \<open>
  A text without the characters that end a directive or open and close a block, a directive
  made of such a text, and a block of directives.
\<close>

definition plain :: "string \<Rightarrow> bool" where
  "plain s \<longleftrightarrow> \<not> containsUnsafeSnippetChars s"

definition directive :: "string \<Rightarrow> bool" where
  "directive l \<longleftrightarrow> (\<exists>b. l = b @ '';'' \<and> plain b)"

definition block :: "string \<Rightarrow> string list \<Rightarrow> string" where
  "block name ls = name @ '' {'' @ nl @ indentNginxLines ls @ nl @ ''}''"

definition config_item :: "string \<Rightarrow> bool" where
  "config_item l \<longleftrightarrow> directive l \<or> (\<exists>name ls. l = block name ls \<and> plain name \<and> list_all directive ls)"

text \<open>The fixed lines of the location context that hold more than a directive.\<close>

definition fixed_location_lines :: "string list" where
  "fixed_location_lines = [''add_header X-XSS-Protection \"1; mode=block\" always;'',
     ''if ($scheme != \"https\") { set $ingress_doperator_needs_redirect 1; }'',
     ''if ($ingress_doperator_needs_redirect = 1) { return 308 https://$server_name$request_uri; }'']"

definition location_item :: "string \<Rightarrow> bool" where
  "location_item l \<longleftrightarrow> directive l \<or> l \<in> set fixed_location_lines \<or>
     (\<exists>h. l = proxy_header_line h \<and> plain (ph_headerVar h) \<and> plain (ph_value h))"

lemma plain_iff: "plain s \<longleftrightarrow> (\<forall>c \<in> set s. c \<notin> {CHR 0x0D, CHR 0x0A, CHR '';'', CHR ''{'', CHR ''}''})"
  by (auto simp: plain_def containsUnsafeSnippetChars_def ContainsAny_iff)

lemma plain_Nil [simp]: "plain []"
  by (simp add: plain_iff)

lemma plain_Cons [simp]: "plain (c # s) \<longleftrightarrow> c \<notin> {CHR 0x0D, CHR 0x0A, CHR '';'', CHR ''{'', CHR ''}''} \<and> plain s"
  by (auto simp: plain_iff)

lemma plain_append [simp]: "plain (s @ t) \<longleftrightarrow> plain s \<and> plain t"
  by (auto simp: plain_iff)

lemma plain_sub: "plain s \<Longrightarrow> set t \<subseteq> set s \<Longrightarrow> plain t"
  by (auto simp: plain_iff)

lemma plain_TrimSpace: "plain s \<Longrightarrow> plain (TrimSpace s)"
  using set_TrimSpace plain_sub by blast

lemma plain_ReplaceAll: "plain s \<Longrightarrow> plain t \<Longrightarrow> plain (ReplaceAll s old t)"
  using set_ReplaceAll [of s old t] by (fastforce simp: plain_iff)

lemma plain_class: "list_all P s \<Longrightarrow> (\<And>c. P c \<Longrightarrow> plain [c]) \<Longrightarrow> plain s"
  by (auto simp: plain_iff list_all_iff)

lemma plain_alnum: "is_alnum c \<Longrightarrow> plain [c]" "is_digit c \<Longrightarrow> plain [c]" "is_lower c \<Longrightarrow> plain [c]"
  by (auto simp: is_alnum_def is_digit_def is_lower_def is_upper_def less_eq_char_def)

lemma plain_digits: "list_all is_digit s \<Longrightarrow> plain s"
  by (erule plain_class) (rule plain_alnum)

lemma plain_show_nat: "plain (show_nat n)"
  using show_nat_digits plain_digits by blast

lemma directive_Nil [simp]: "\<not> directive []"
  by (simp add: directive_def)

lemma directive_Cons [simp]: "directive (c # s) \<longleftrightarrow> (if s = [] then c = CHR '';'' else plain [c] \<and> directive s)"
  by (auto simp: directive_def Cons_eq_append_conv)

lemma directive_append [simp]: "directive (s @ t) \<longleftrightarrow> (if t = [] then directive s else plain s \<and> directive t)"
  by (induction s) auto

lemma plain_Quote: "plain s \<Longrightarrow> plain (Quote s)"
proof -
  have "list_all (\<lambda>d. plain [hex_digit d]) [0..<16]" by code_simp
  then have hex: "plain [hex_digit d]" if "d < 16" for d
    using that by (simp add: list_all_iff del: plain_Cons)
  have q: "plain (quote_char c)" if c: "plain [c]" for c
  proof -
    have "plain [hex_digit (of_char c div 16)]" "plain [hex_digit (of_char c mod 16)]"
      using hex nat_of_char_less_256 [of c] by (auto simp del: plain_Cons nat_of_char_less_256)
    with c show ?thesis unfolding quote_char_def by (simp only: if_split) simp
  qed
  show "plain (Quote s)" if "plain s"
    using that q by (induction s) (auto simp: Quote_def)
qed

lemma plain_escape: "plain s \<Longrightarrow> plain (escapeHeaderValue s)"
  unfolding escapeHeaderValue_def by (erule plain_ReplaceAll) simp

lemma plain_identifier: "plain (sanitizeNginxIdentifier raw)"
proof -
  have "plain (map (\<lambda>c. if is_lower c \<or> is_digit c then c else CHR ''_'') xs)" for xs
    using plain_alnum by (induction xs) auto
  moreover have "set (TrimBoth c xs) \<subseteq> set xs" for c xs
    by (auto simp: TrimBoth_def TrimRight_def dest!: set_dropWhileD)
  ultimately have "plain (TrimBoth (CHR ''_'') (map (\<lambda>c. if is_lower c \<or> is_digit c then c else CHR ''_'') xs))" for xs
    using plain_sub by blast
  then show ?thesis by (simp add: sanitizeNginxIdentifier_def Let_def)
qed

text \<open>The invariant of the state the annotations are read into.\<close>

definition safe_state :: "snippet_state \<Rightarrow> bool" where
  "safe_state st \<longleftrightarrow> list_all directive (st_lines st) \<and> list_all directive (st_serverOnlyLines st) \<and>
     list_all plain [st_proxyBodySizeValue st, st_clientMaxBodySize st, st_proxyRedirectFrom st, st_proxyRedirectTo st,
       st_proxyBuffersNumber st, st_proxyBufferSize st, st_referrerPolicy st, st_rewriteTarget st] \<and>
     list_all plain (st_whitelist st) \<and> list_all plain (st_blacklist st) \<and>
     list_all (list_all is_digit) (st_customHTTPErrors st) \<and>
     list_all (\<lambda>h. plain (ph_headerVar h) \<and> plain (ph_value h)) (st_sslProxyHeaders st)"

lemma safe_add_warnings [simp]: "safe_state (add_warnings ws st) = safe_state st"
  by (simp add: safe_state_def add_warnings_def)

lemma safe_isSafe:
  "safe_state st \<Longrightarrow> (plain value \<Longrightarrow> safe_state (use st)) \<Longrightarrow> safe_state (isSafeSnippetValue key value use st)"
  by (simp add: isSafeSnippetValue_def plain_def)

lemma safe_flag: "safe_state st \<Longrightarrow> safe_state (use st) \<Longrightarrow> safe_state (apply_flag value wanted use st)"
  by (simp add: apply_flag_def)

lemma safe_ranges_state:
  assumes "safe_state st" and "\<And>rs st. safe_state st \<Longrightarrow> list_all plain rs \<Longrightarrow> safe_state (use rs st)"
  shows "safe_state (safe_ranges sfx value use st)"
  using assms by (simp add: safe_ranges_def filterSafeSnippetValues_def plain_def list_all_iff)

lemma ssl_header_loop_plain:
  "list_all (\<lambda>h. plain (ph_headerVar h) \<and> plain (ph_value h)) (fst (ssl_header_loop seen parts))"
proof (induction parts arbitrary: seen)
  case (Cons p parts)
  then show ?case
    by (auto simp: Let_def case_prod_beta plain_def [symmetric] split: list.split intro!: plain_ReplaceAll)
qed simp

lemma error_code_loop_digits: "list_all (list_all is_digit) (fst (error_code_loop seen parts))"
  by (induction parts arbitrary: seen) (auto simp: Let_def case_prod_beta)

lemma safe_auth: "applyAuthIngressAnnotationValue sfx value st = Some st' \<Longrightarrow> safe_state st' = safe_state st"
  by (auto simp: applyAuthIngressAnnotationValue_def Let_def safe_state_def split: if_splits)

lemma safe_custom_errors:
  "safe_state st \<Longrightarrow> safe_state (let (codes, warnings) = parseCustomHTTPErrors value
     in add_warnings warnings (if codes \<noteq> [] then st\<lparr>st_customHTTPErrors := codes\<rparr> else st))"
  using error_code_loop_digits [of "[]" "Split '','' (TrimSpace value)"]
  by (auto simp: parseCustomHTTPErrors_def Let_def case_prod_beta safe_state_def add_warnings_def)

lemma safe_ssl_headers:
  "safe_state st \<Longrightarrow> safe_state (let (headers, warnings) = parseSSLProxyHeaders value
     in add_warnings warnings (if headers \<noteq> [] then st\<lparr>st_sslProxyHeaders := headers\<rparr> else st))"
  using ssl_header_loop_plain [of "[]" "Split ''||'' (TrimSpace value)"]
  by (auto simp: parseSSLProxyHeaders_def Let_def case_prod_beta safe_state_def add_warnings_def)

text \<open>A chain of cases that all keep the state safe.\<close>

definition safe_if_any :: "snippet_state option \<Rightarrow> bool" where
  "safe_if_any x \<longleftrightarrow> (\<forall>st. x = Some st \<longrightarrow> safe_state st)"

lemma safe_if_any_intros:
  "safe_if_any None" "safe_state st \<Longrightarrow> safe_if_any (Some st)"
  "safe_if_any x \<Longrightarrow> safe_if_any y \<Longrightarrow> safe_if_any (if P then x else y)"
  by (simp_all add: safe_if_any_def)

lemma safe_updates:
  assumes "safe_state st"
  shows "plain v \<Longrightarrow> safe_state (st\<lparr>st_proxyBodySizeValue := v\<rparr>)" "plain v \<Longrightarrow> safe_state (st\<lparr>st_clientMaxBodySize := v\<rparr>)"
    "plain v \<Longrightarrow> safe_state (st\<lparr>st_proxyRedirectFrom := v\<rparr>)" "plain v \<Longrightarrow> safe_state (st\<lparr>st_proxyRedirectTo := v\<rparr>)"
    "plain v \<Longrightarrow> safe_state (st\<lparr>st_proxyBuffersNumber := v\<rparr>)" "plain v \<Longrightarrow> safe_state (st\<lparr>st_rewriteTarget := v\<rparr>)"
    "plain v \<Longrightarrow> safe_state (st\<lparr>st_referrerPolicy := v\<rparr>)" "plain v \<Longrightarrow> safe_state (st\<lparr>st_proxyBufferSize := v\<rparr>)"
    "safe_state (st\<lparr>st_sslRedirectOff := b\<rparr>)" "safe_state (st\<lparr>st_forceSSLRedirect := b\<rparr>)" "safe_state (st\<lparr>st_useRegex := b\<rparr>)"
    "safe_state (st\<lparr>st_browserXssFilter := b\<rparr>)" "safe_state (st\<lparr>st_contentTypeNosniff := b\<rparr>)"
    "list_all plain rs \<Longrightarrow> safe_state (st_whitelist_update (\<lambda>xs. xs @ rs) st)"
    "list_all plain rs \<Longrightarrow> safe_state (st_blacklist_update (\<lambda>xs. xs @ rs) st)"
    "list_all directive [l] \<Longrightarrow> safe_state (st\<lparr>st_lines := st_lines st @ [l]\<rparr>)"
    "list_all directive [l] \<Longrightarrow> safe_state (st\<lparr>st_serverOnlyLines := st_serverOnlyLines st @ [l]\<rparr>)"
  using assms by (simp_all add: safe_state_def)

lemmas safe_intros = safe_isSafe safe_flag safe_ranges_state safe_custom_errors safe_ssl_headers safe_updates

lemma safe_apply:
  assumes "safe_state st"
  shows "safe_if_any (applyIngressAnnotationValue sfx value st)"
proof (cases "applyAuthIngressAnnotationValue sfx value st")
  case (Some a)
  then show ?thesis using assms safe_auth by (simp add: applyIngressAnnotationValue_def safe_if_any_def)
next
  case None
  have warn: "safe_state (add_warnings ws st)" for ws using assms by simp
  show ?thesis
    unfolding applyIngressAnnotationValue_def None option.case
    by (intro safe_if_any_intros safe_intros assms warn)
qed

lemma safe_legacy: "safe_state st \<Longrightarrow> safe_state (applyLegacyIngressAnnotationValue sfx value st)"
  unfolding applyLegacyIngressAnnotationValue_def
  by (simp only: if_split) (intro conjI impI safe_intros TrueI; assumption?)

lemma whitelist_plain: "isWhitelistedNginxIngressDirective sfx \<Longrightarrow> plain sfx"
proof -
  have "list_all plain nginxIngressDirectiveWhitelist" by code_simp
  then show "isWhitelistedNginxIngressDirective sfx \<Longrightarrow> plain sfx"
    by (simp add: isWhitelistedNginxIngressDirective_def list_all_iff)
qed

lemma directive_line_directive: "plain sfx \<Longrightarrow> plain value \<Longrightarrow> directive (directive_line sfx value)"
  by (simp add: directive_line_def plain_ReplaceAll)

lemma safe_directive:
  assumes "safe_state st"
  shows "safe_state (ingest_directive suppress fullKey sfx value st)"
proof (cases "isWhitelistedNginxIngressDirective sfx")
  case True
  have "safe_state ((if sfx = ''proxy-buffer-size'' then st\<lparr>st_proxyBufferSize := value\<rparr> else st)
      \<lparr>st_lines := st_lines st @ [directive_line sfx value]\<rparr>)" if "plain value"
    using assms that directive_line_directive [OF whitelist_plain [OF True]] by (simp add: safe_state_def)
  moreover have "safe_state (st\<lparr>st_serverOnlyLines := st_serverOnlyLines st @ [directive_line sfx value]\<rparr>)" if "plain value"
    using assms that directive_line_directive [OF whitelist_plain [OF True]] by (simp add: safe_state_def)
  ultimately show ?thesis
    using True assms unfolding ingest_directive_def by (simp only: if_split simp_thms) (auto intro!: safe_isSafe)
qed (simp add: ingest_directive_def assms)

lemma safe_ingest: "safe_state (ingestNginxIngressAnnotations annotations keys suppress)"
proof -
  have step: "safe_state (ingest_step annotations suppress entry st)" if st: "safe_state st" for entry st
    unfolding ingest_step_def Let_def
    using st safe_legacy [OF st] safe_directive [OF st] safe_apply [OF st]
    by (auto simp: safe_if_any_def split: option.split)
  have "safe_state st \<Longrightarrow> safe_state (fold (ingest_step annotations suppress) keys st)" for st
    by (induction keys arbitrary: st) (simp_all add: step)
  moreover have "safe_state empty_state" by (simp add: safe_state_def empty_state_def)
  ultimately show ?thesis by (simp add: ingestNginxIngressAnnotations_def)
qed

section \<open>The lines of a safe state\<close>

lemma plain_unique: "list_all plain xs \<Longrightarrow> list_all plain (uniqueStrings xs)"
proof -
  have "list_all plain xs \<Longrightarrow> list_all plain (unique_loop seen xs)" for seen
    by (induction xs arbitrary: seen) (auto simp: Let_def plain_TrimSpace)
  then show "list_all plain xs \<Longrightarrow> list_all plain (uniqueStrings xs)" by (simp add: uniqueStrings_def)
qed

lemma directive_lines: "safe_state st \<Longrightarrow> list_all directive (fst (buildNginxDirectiveLines st))"
  by (auto simp: safe_state_def buildNginxDirectiveLines_def body_size_lines_def proxy_redirect_lines_def
      proxy_buffers_lines_def Let_def case_prod_beta)

lemma plain_codes: "list_all (list_all is_digit) codes \<Longrightarrow> plain (Join '' '' codes)"
  by (induction "'' ''" codes rule: Join.induct) (auto intro: plain_digits)

lemma directive_location: "directive l \<Longrightarrow> location_item l"
  by (simp add: location_item_def)

lemma location_lines:
  assumes "safe_state st" and "list_all directive ls" and "list_all directive auth" and "plain id'"
  shows "list_all location_item (buildLocationContextLines st ls auth id')"
proof -
  have codes: "plain (Join '' '' (st_customHTTPErrors st))" using assms(1) by (simp add: safe_state_def plain_codes)
  have sec: "list_all location_item (security_header_lines st)"
    using assms(1) plain_Quote plain_escape
    by (auto simp: security_header_lines_def location_item_def fixed_location_lines_def safe_state_def)
  have hdrs: "list_all location_item (map proxy_header_line (st_sslProxyHeaders st))"
    using assms(1) by (auto simp: list_all_iff safe_state_def location_item_def)
  have "list_all location_item [''set $ingress_doperator_needs_redirect 0;'',
      ''if ($scheme != \"https\") { set $ingress_doperator_needs_redirect 1; }'',
      ''add_header Strict-Transport-Security \"max-age=31536000\" always;'',
      ''if ($ingress_doperator_needs_redirect = 1) { return 308 https://$server_name$request_uri; }'']"
    by (simp add: location_item_def fixed_location_lines_def)
  with hdrs have ssl: "list_all location_item (force_ssl_lines st)"
    unfolding force_ssl_lines_def by (simp only: if_split list_all_append) simp
  have acl: "list_all directive (rewrite_acl_lines st)"
    using assms(1) plain_unique [of "st_blacklist st"] plain_unique [of "st_whitelist st"] plain_TrimSpace
    by (auto simp: rewrite_acl_lines_def Let_def safe_state_def list_all_iff)
  have lift: "list_all location_item xs" if "list_all directive xs" for xs
    using that directive_location by (auto simp: list_all_iff)
  show ?thesis
    unfolding buildLocationContextLines_def
    using lift [OF assms(2)] lift [OF assms(3)] lift [OF acl] sec ssl codes assms(4)
    by (auto intro!: directive_location)
qed

lemma block_item: "plain name \<Longrightarrow> list_all directive ls \<Longrightarrow> config_item (block name ls)"
  by (auto simp: config_item_def)

lemma error_location_item: "list_all is_digit code \<Longrightarrow> plain id' \<Longrightarrow> config_item (error_location id' code)"
proof -
  assume "list_all is_digit code" "plain id'"
  moreover have "error_location id' code = block (''location @ingress_doperator_error_'' @ id') [''return '' @ code @ '';'']"
    by (simp add: error_location_def block_def indentNginxLines_def)
  ultimately show ?thesis
    by (simp add: block_item plain_digits)
qed

lemma server_lines:
  assumes "safe_state st" and "list_all config_item auth" and "plain id'"
  shows "list_all config_item (buildServerContextLines st auth id')"
proof -
  have "list_all config_item (st_serverOnlyLines st)"
    using assms(1) by (auto simp: safe_state_def list_all_iff config_item_def)
  moreover have "config_item (error_location id' code)" if "st_customHTTPErrors st = code # codes" for code codes
    using assms(1,3) that by (intro error_location_item) (simp_all add: safe_state_def)
  ultimately show ?thesis using assms(2) by (simp add: buildServerContextLines_def split: list.split)
qed

section \<open>The lines of external authentication\<close>

text \<open>
  The code checks the text of a URL and then writes the parts \<open>url.Parse\<close> gives. That
  these are as harmless as the text is a condition on the parser: \<open>net/url\<close> meets it but
  for the zone of an IPv6 address, which it decodes.
\<close>

definition url_parts_plain :: "url_parser \<Rightarrow> bool" where
  "url_parts_plain parse \<longleftrightarrow> (\<forall>raw u. plain raw \<and> parse raw = Some u \<longrightarrow>
     plain (url_host u) \<and> plain (url_hostname u) \<and> plain (url_port u) \<and> plain (url_requestURI u))"

lemma validateAuthURL_plain: "validateAuthURL parse raw = Some u \<Longrightarrow> plain raw \<and> parse raw = Some u \<and> plain (url_scheme u)"
  by (auto simp: validateAuthURL_def plain_def [symmetric] split: if_splits option.splits)

lemma plain_ToLower: "plain s \<Longrightarrow> plain (ToLower s)"
proof -
  have "plain [lower_char c]" if "plain [c]" for c
  proof (cases "CHR ''A'' \<le> c \<and> c \<le> CHR ''Z''")
    case True
    then have "65 \<le> (of_char c :: nat)" "(of_char c :: nat) \<le> 90" by (simp_all add: less_eq_char_def)
    then have "97 \<le> (of_char (lower_char c) :: nat) \<and> (of_char (lower_char c) :: nat) \<le> 122"
      using True by (simp add: lower_char_def)
    then have "is_lower (lower_char c)" by (simp add: is_lower_def less_eq_char_def)
    then show ?thesis by (rule plain_alnum)
  next
    case False
    then have "lower_char c = c" by (auto simp: lower_char_def)
    with that show ?thesis by simp
  qed
  then show "plain s \<Longrightarrow> plain (ToLower s)" by (auto simp: ToLower_def plain_iff)
qed

lemma auth_regexps:
  "MatchString authHeaderNameRe s \<Longrightarrow> plain s" "MatchString authTokenRe s \<Longrightarrow> plain s"
  "MatchString authNumberRe s \<Longrightarrow> plain s" "MatchString authCacheValidRe s \<Longrightarrow> plain s"
  unfolding authHeaderNameRe_def authTokenRe_def authNumberRe_def authCacheValidRe_def MatchString_plus_class
  by (auto elim!: plain_class dest: plain_alnum)

lemma response_lines: "list_all directive (fst (buildAuthResponseHeaderLines headers))"
proof -
  have "list_all directive (fst (auth_response_lines i headers))" for i
    by (induction headers arbitrary: i)
       (auto simp: Let_def case_prod_beta plain_show_nat auth_regexps plain_ReplaceAll plain_ToLower)
  then show ?thesis by (simp add: buildAuthResponseHeaderLines_def)
qed

lemma signin_plain: "plain signin \<Longrightarrow> plain (fst (signin_target auth signin))"
  by (auto simp: signin_target_def Let_def plain_ReplaceAll auth_regexps)

lemma signin_items:
  assumes "plain id'" and "fst (buildAuthSignin parse auth id') = Some (l, b)"
  shows "directive l \<and> config_item b"
proof -
  let ?s = "TrimSpace (au_signin auth)"
  have "validateAuthURL parse ?s \<noteq> None"
    and l: "l = ''error_page 401 = '' @ ''@doperator_signin_'' @ id' @ '';''"
    and b: "b = block (''location '' @ ''@doperator_signin_'' @ id') [''internal;'', ''return 302 '' @ fst (signin_target auth ?s) @ '';'']"
    using assms(2) by (auto simp: buildAuthSignin_def Let_def case_prod_beta block_def indentNginxLines_def split: if_splits)
  then have "plain ?s" using validateAuthURL_plain by blast
  then have "config_item b" unfolding b using assms(1) signin_plain by (intro block_item) simp_all
  then show ?thesis using l assms(1) by simp
qed

lemma set_header_lines: "list_all directive (fst (buildAuthProxySetHeaderLines headers))"
proof -
  have "list_all directive (fst (proxy_set_header_lines headers names))" for names
    by (induction names) (auto simp: Let_def case_prod_beta auth_regexps plain_escape plain_def [symmetric])
  then show ?thesis by (simp add: buildAuthProxySetHeaderLines_def)
qed

lemma proxy_pass_items:
  assumes "plain (TrimSpace (au_url auth))" and "plain id'" and "plain (url_scheme u)" "plain (url_hostname u)"
    "plain (url_port u)" "plain (url_requestURI u)"
  shows "directive (fst (buildAuthProxyPass auth u id')) \<and> list_all config_item (fst (snd (buildAuthProxyPass auth u id')))"
proof -
  let ?port = "if url_port u \<noteq> [] then url_port u else if url_scheme u = ''https'' then ''443'' else ''80''"
  have "config_item (block (''upstream '' @ ''doperator_auth_'' @ id')
      [''server '' @ url_hostname u @ '':'' @ ?port @ '';'', ''keepalive '' @ k @ '';''])" if "plain k" for k
    using assms that by (intro block_item) simp_all
  then show ?thesis
    using assms auth_regexps(3)
    by (auto simp: buildAuthProxyPass_def Let_def block_def indentNginxLines_def)
qed

lemma cache_items:
  assumes "plain id'"
  shows "list_all directive (fst (buildAuthCache auth id')) \<and> list_all directive (fst (snd (buildAuthCache auth id')))"
  using assms auth_regexps(4) plain_escape by (auto simp: buildAuthCache_def Let_def plain_def [symmetric])

lemma auth_redirect_plain: "plain (fst (auth_redirect auth))"
  by (auto simp: auth_redirect_def Let_def plain_def [symmetric])

lemma auth_method_directive: "list_all directive (fst (auth_method_lines auth))"
proof -
  have "list_all plain authHTTPMethods" by code_simp
  then show ?thesis by (auto simp: auth_method_lines_def Let_def list_all_iff)
qed

lemma auth_location_items:
  assumes "url_parts_plain parse" and u: "validateAuthURL parse (TrimSpace (au_url auth)) = Some u" and id: "plain id'"
  shows "list_all directive (fst (auth_location_lines auth inputs u id')) \<and>
    list_all config_item (fst (snd (auth_location_lines auth inputs u id')))"
proof -
  have parts: "plain (TrimSpace (au_url auth))" "plain (url_scheme u)" "plain (url_host u)" "plain (url_hostname u)"
    "plain (url_port u)" "plain (url_requestURI u)"
    using validateAuthURL_plain [OF u] assms(1) by (auto simp: url_parts_plain_def)
  have "list_all directive auth_fixed_lines" by (simp add: auth_fixed_lines_def)
  then show ?thesis
    using parts id auth_redirect_plain [of auth] auth_method_directive [of auth]
      set_header_lines [of "ai_proxySetHeaders inputs"] cache_items [OF id, of auth]
      proxy_pass_items [OF parts(1) id parts(2,4,5,6)]
    by (auto simp: auth_location_lines_def Let_def case_prod_beta list_all_iff config_item_def)
qed

lemma auth_items:
  assumes "url_parts_plain parse"
  shows "let (http, server, location) = fst (buildAuthRequestConfig parse auth inputs)
    in list_all config_item http \<and> list_all config_item server \<and> list_all directive location"
proof (cases "TrimSpace (au_url auth) = [] \<or> validateAuthURL parse (TrimSpace (au_url auth)) = None")
  case True
  then have "fst (buildAuthRequestConfig parse auth inputs) = ([], [], [])"
    by (auto simp: buildAuthRequestConfig_def Let_def)
  then show ?thesis by simp
next
  case False
  then obtain u where u: "validateAuthURL parse (TrimSpace (au_url auth)) = Some u" by blast
  let ?id = "sanitizeNginxIdentifier (ai_identifier inputs)"
  have id: "plain ?id" by (rule plain_identifier)
  have loc: "list_all directive (fst (auth_location_lines auth inputs u ?id))"
    "list_all config_item (fst (snd (auth_location_lines auth inputs u ?id)))"
    using auth_location_items [OF assms u id] by auto
  have "config_item (fst (buildAuthLocationBlock auth inputs u ?id))"
    using block_item [OF _ loc(1), of "''location = /_doperator_auth_'' @ ?id"] id
    by (simp add: buildAuthLocationBlock_def block_def case_prod_beta Let_def)
  moreover have "fst (snd (buildAuthLocationBlock auth inputs u ?id)) = fst (snd (auth_location_lines auth inputs u ?id))"
    by (simp add: buildAuthLocationBlock_def case_prod_beta Let_def)
  ultimately show ?thesis
    using False u id loc(2) response_lines [of "au_responseHeaders auth"] signin_items [OF id, of parse auth]
    by (auto simp: buildAuthRequestConfig_def Let_def case_prod_beta split: option.split)
qed

section \<open>Properties\<close>


definition example_annotations :: "string gomap" where
  "example_annotations = [(''nginx.ingress.kubernetes.io/proxy-read-timeout'', ''60''),
     (''nginx.ingress.kubernetes.io/proxy-body-size'', ''8m; include /etc/passwd'')]"

definition no_auth :: auth_inputs where
  "no_auth = \<lparr>ai_identifier = ''shop-prod'', ai_proxySetHeaders = []\<rparr>"

lemma example_snippets:
  "BuildNginxIngressSnippets (\<lambda>_. None) example_annotations no_auth [] =
     (Some [(''http.server.location'', ''proxy_read_timeout 60;'')], [unsafe_warning ''proxy-body-size''])"
  by code_simp


text \<open>How nginx reads access rules: the first that covers the client decides.\<close>

fun acl_admits :: "(string \<Rightarrow> bool) \<Rightarrow> string list \<Rightarrow> bool" where
  "acl_admits covers [] = True"
| "acl_admits covers (l # ls) =
     (if HasPrefix l ''deny '' \<and> covers (butlast (drop 5 l)) then False
      else if HasPrefix l ''allow '' \<and> covers (butlast (drop 6 l)) then True
      else acl_admits covers ls)"

lemma acl_deny: "acl_admits covers (map (\<lambda>x. ''deny '' @ x @ '';'') xs @ ls) \<longleftrightarrow> \<not> list_ex covers xs \<and> acl_admits covers ls"
  by (induction xs) auto

lemma acl_allow: "acl_admits covers (map (\<lambda>x. ''allow '' @ x @ '';'') xs @ ls) \<longleftrightarrow> list_ex covers xs \<or> acl_admits covers ls"
  by (induction xs) auto

text \<open>
  C40. The access lines mean what the lists say: a client passes exactly if no denied range covers it
  and, when there are allowed ranges at all, one of them does. A list that is empty because its
  entries were rejected therefore restricts nothing.
\<close>

theorem source_ranges_decide:
  assumes "covers ''all''"
  shows "acl_admits covers (rewrite_acl_lines st) \<longleftrightarrow>
    \<not> list_ex covers (uniqueStrings (st_blacklist st)) \<and>
    (st_whitelist st = [] \<or> list_ex covers (uniqueStrings (st_whitelist st)))"
proof -
  let ?rest = "map (\<lambda>cidr. ''deny '' @ cidr @ '';'') (uniqueStrings (st_blacklist st))
     @ map (\<lambda>cidr. ''allow '' @ cidr @ '';'') (uniqueStrings (st_whitelist st))
     @ (if st_whitelist st \<noteq> [] then [''deny all;''] else [])"
  have "acl_admits covers (rewrite_acl_lines st) = acl_admits covers ?rest"
    unfolding rewrite_acl_lines_def Let_def by (cases "TrimSpace (st_rewriteTarget st) = []") simp_all
  also have "\<dots> \<longleftrightarrow> \<not> list_ex covers (uniqueStrings (st_blacklist st)) \<and>
    (st_whitelist st = [] \<or> list_ex covers (uniqueStrings (st_whitelist st)))"
    unfolding acl_deny acl_allow using assms by (auto simp: uniqueStrings_def)
  finally show ?thesis .
qed

theorem source_ranges_decide_witness:
  "acl_admits (\<lambda>range. range = ''all'') (rewrite_acl_lines (empty_state\<lparr>st_whitelist := [''10.0.0.0/8'']\<rparr>)) = False"
  using source_ranges_decide [of "\<lambda>range. range = ''all''" "empty_state\<lparr>st_whitelist := [''10.0.0.0/8'']\<rparr>"]
  by (simp add: empty_state_def uniqueStrings_def TrimSpace_def is_space_def)

end
