(* ===== verification/Extension_Refs.thy ===== *)
theory Extension_Refs
  imports Utils_Basic
begin

text \<open>
  The second half of \<open>internal/utils/snippets.go\<close>: the NGINX extension resources a route
  refers to. The version of a custom resource definition is looked up once and cached; a
  filter is generated from an Ingress or copied from the Gateway's namespace, never over an
  object the operator does not manage; and the reference is added to every rule of the route.
\<close>

section \<open>Names and versions\<close>

definition NginxGatewayGroup :: string where
  "NginxGatewayGroup = ''gateway.nginx.org''"

definition SnippetsFilterKind :: string where
  "SnippetsFilterKind = ''SnippetsFilter''"

definition SnippetsPolicyKind :: string where
  "SnippetsPolicyKind = ''SnippetsPolicy''"

definition AuthenticationFilterKind :: string where
  "AuthenticationFilterKind = ''AuthenticationFilter''"

definition RequestHeaderModifierFilterKind :: string where
  "RequestHeaderModifierFilterKind = ''RequestHeaderModifierFilter''"

definition RateLimitPolicyKind :: string where
  "RateLimitPolicyKind = ''RateLimitPolicy''"

definition SnippetsFilterCRDName :: string where
  "SnippetsFilterCRDName = ''snippetsfilters.gateway.nginx.org''"

definition extensionCRDNameForKind :: "string \<Rightarrow> string option" where
  "extensionCRDNameForKind k =
     (if k = SnippetsFilterKind then Some SnippetsFilterCRDName
      else if k = SnippetsPolicyKind then Some ''snippetspolicies.gateway.nginx.org''
      else if k = AuthenticationFilterKind then Some ''authenticationfilters.gateway.nginx.org''
      else if k = RequestHeaderModifierFilterKind then Some ''requestheadermodifierfilters.gateway.nginx.org''
      else if k = RateLimitPolicyKind then Some ''ratelimitpolicies.gateway.nginx.org''
      else None)"

definition snippetsCRDNameForKind :: "string \<Rightarrow> string option" where
  "snippetsCRDNameForKind k = extensionCRDNameForKind k"

definition maxK8sNameLength :: nat where
  "maxK8sNameLength = 253"

definition AutomaticSnippetsFilterName :: "string \<Rightarrow> string" where
  "AutomaticSnippetsFilterName ingressName =
     (let base = ''automatic-'' @ ingressName @ ''-annotations''
      in if length base \<le> maxK8sNameLength then base
         else TrimRight (CHR ''-'') (take maxK8sNameLength base))"

text \<open>The version that is stored, else the first that is served.\<close>

definition pickCRDVersion :: "crd \<Rightarrow> string option" where
  "pickCRDVersion c =
     (case find cv_storage (crd_versions c) of
        Some v \<Rightarrow> Some (cv_name v)
      | None \<Rightarrow> map_option cv_name (find cv_served (crd_versions c)))"

text \<open>\<open>None\<close> is the answer that the definition is not installed.\<close>

definition getCRDVersion :: "server \<Rightarrow> string \<Rightarrow> world \<Rightarrow> string option result \<times> world" where
  "getCRDVersion srv crdName w =
     (case map_of (w_crdVersions w) crdName of
        Some v \<Rightarrow> (Inr (Some v), w)
      | None \<Rightarrow>
          let (r, w) = do_call srv (Get KCRD [] crdName) w
          in case decode as_crd r of
               Inl e \<Rightarrow> (if e = NotFound then Inr None else Inl e, w)
             | Inr c \<Rightarrow>
                 (case pickCRDVersion c of
                    None \<Rightarrow> (Inr None, w)
                  | Some v \<Rightarrow> (Inr (Some v), w\<lparr>w_crdVersions := mset_key crdName v (w_crdVersions w)\<rparr>)))"

definition GetCRDVersion :: "server \<Rightarrow> string \<Rightarrow> world \<Rightarrow> string option result \<times> world" where
  "GetCRDVersion = getCRDVersion"

text \<open>The group, version and kind of a watch: the remembered version, or \<open>v1\<close>.\<close>

definition ExtensionFilterGVK :: "string \<Rightarrow> string \<Rightarrow> world \<Rightarrow> string \<times> string \<times> string" where
  "ExtensionFilterGVK kind crdName w =
     (let version = (case map_of (w_crdVersions w) crdName of
            Some cached \<Rightarrow> if cached \<noteq> [] then cached else ''v1''
          | None \<Rightarrow> ''v1'')
      in (NginxGatewayGroup, version, kind))"

definition SnippetsFilterGVK :: "world \<Rightarrow> string \<times> string \<times> string" where
  "SnippetsFilterGVK = ExtensionFilterGVK SnippetsFilterKind SnippetsFilterCRDName"

section \<open>Generated and copied filters\<close>

definition u_annotations :: "unstructured \<Rightarrow> string gomap" where
  "u_annotations u = m_annotations (u_meta u)"

definition owned_annotations :: "string \<Rightarrow> string \<Rightarrow> string gomap \<Rightarrow> string gomap" where
  "owned_annotations ns name a =
     mset_key SourceAnnotation (source_key ns name) (mset_key ManagedByAnnotation ManagedByValue a)"

text \<open>
  The common tail of the three functions below: read the object at the wanted name, create it
  when it is missing, leave it when it is not ours, and otherwise write the merged object.
\<close>

definition write_managed ::
  "server \<Rightarrow> string \<Rightarrow> (unstructured \<Rightarrow> unstructured) \<Rightarrow> unstructured \<Rightarrow> world \<Rightarrow> bool go_result \<times> world" where
  "write_managed srv what merge desired w =
     (let ns = m_namespace (u_meta desired); name = m_name (u_meta desired);
          label = what @ '' '' @ ns @ ''/'' @ name;
          (r, w) = do_call srv (Get (KUnstructured (u_version desired) (u_kind desired)) ns name) w
      in case decode as_unstructured r of
           Inl e \<Rightarrow>
             if e = NotFound
             then let (r, w) = do_call srv (Create (OUnstructured desired)) w
                  in case write_error r of
                       Some e \<Rightarrow> (Inl (Wrapped (''failed to create '' @ label) (ApiError e)), w)
                     | None \<Rightarrow> (Inr True, w)
             else (Inl (ApiError e), w)
         | Inr existing \<Rightarrow>
             if \<not> IsManagedByUs (u_annotations existing) then (Inr False, w)
             else let (r, w) = do_call srv (Update (OUnstructured (merge existing))) w
                  in case write_error r of
                       Some e \<Rightarrow> (Inl (Wrapped (''failed to update '' @ label) (ApiError e)), w)
                     | None \<Rightarrow> (Inr True, w))"

text \<open>
  \<open>controllerutil.SetControllerReference\<close> belongs to controller-runtime: it is the
  argument \<open>setRef\<close>, absent when the function is called without a scheme. The owner is an
  Ingress or an HTTPRoute.
\<close>

definition EnsureSnippetsFilterForIngress ::
  "server \<Rightarrow> ('o \<Rightarrow> unstructured \<Rightarrow> unstructured go_result) option \<Rightarrow> http_route \<Rightarrow> 'o option
    \<Rightarrow> string \<Rightarrow> string \<Rightarrow> string \<Rightarrow> json list \<Rightarrow> world \<Rightarrow> bool go_result \<times> world" where
  "EnsureSnippetsFilterForIngress srv setRef httpRoute owner ingressNamespace ingressName filterName snippets w =
     (if snippets = [] then (Inr False, w)
      else case snippetsCRDNameForKind SnippetsFilterKind of
        None \<Rightarrow> (Inr False, w)
      | Some crdName \<Rightarrow>
          (case getCRDVersion srv crdName w of
             (Inl e, w) \<Rightarrow> (Inl (ApiError e), w)
           | (Inr None, w) \<Rightarrow> (Inr False, w)
           | (Inr (Some version), w) \<Rightarrow>
               let desired = \<lparr>u_version = version, u_kind = SnippetsFilterKind,
                     u_meta = empty_meta\<lparr>m_name := filterName, m_namespace := hr_namespace httpRoute\<rparr>, u_spec = None\<rparr>
               in case (case (setRef, owner) of (Some f, Some x) \<Rightarrow> f x desired | _ \<Rightarrow> Inr desired) of
                    Inl e \<Rightarrow> (Inl e, w)
                  | Inr desired \<Rightarrow>
                      let desired = desired\<lparr>
                            u_meta := (u_meta desired)\<lparr>m_annotations :=
                              owned_annotations ingressNamespace ingressName (u_annotations desired)\<rparr>,
                            u_spec := Some (JObject [(''snippets'', JList snippets)])\<rparr>
                      in write_managed srv ''SnippetsFilter''
                           (\<lambda>existing. existing\<lparr>
                              u_meta := (u_meta existing)\<lparr>m_annotations := u_annotations desired,
                                m_owners := m_owners (u_meta desired)\<rparr>,
                              u_spec := u_spec desired\<rparr>) desired w))"

definition copied_spec :: "unstructured \<Rightarrow> json" where
  "copied_spec u = (case u_spec u of Some (JObject m) \<Rightarrow> JObject m | _ \<Rightarrow> JObject [])"

definition copied_filter ::
  "string \<Rightarrow> string \<Rightarrow> string \<Rightarrow> string \<Rightarrow> string \<Rightarrow> string \<Rightarrow> json \<Rightarrow> unstructured \<Rightarrow> unstructured" where
  "copied_filter version k name destNamespace ingressNamespace ingressName spec source =
     \<lparr>u_version = version, u_kind = k,
      u_meta = empty_meta\<lparr>m_name := name, m_namespace := destNamespace, m_labels := m_labels (u_meta source),
        m_annotations := owned_annotations ingressNamespace ingressName (u_annotations source)\<rparr>,
      u_spec = Some spec\<rparr>"

text \<open>A copy whose source is gone is deleted when it is ours.\<close>

definition delete_copy :: "server \<Rightarrow> string \<Rightarrow> string \<Rightarrow> string \<Rightarrow> world \<Rightarrow> bool go_result \<times> world" where
  "delete_copy srv version destNamespace filterName w =
     (let k = KUnstructured version SnippetsFilterKind;
          (r, w) = do_call srv (Get k destNamespace filterName) w
      in case decode as_unstructured r of
           Inl e \<Rightarrow> (if e = NotFound then Inr False else Inl (ApiError e), w)
         | Inr existing \<Rightarrow>
             if \<not> IsManagedByUs (u_annotations existing) then (Inr False, w)
             else let (r, w) = do_call srv (Delete k destNamespace filterName False) w
                  in case write_error r of
                       None \<Rightarrow> (Inr False, w)
                     | Some e \<Rightarrow> if e = NotFound then (Inr False, w)
                         else (Inl (Wrapped (''failed to delete SnippetsFilter '' @ destNamespace @ ''/'' @ filterName)
                                 (ApiError e)), w))"

definition EnsureSnippetsFilterCopyForHTTPRoute ::
  "server \<Rightarrow> string \<Rightarrow> string \<Rightarrow> string \<Rightarrow> string \<Rightarrow> string \<Rightarrow> world \<Rightarrow> bool go_result \<times> world" where
  "EnsureSnippetsFilterCopyForHTTPRoute srv sourceNamespace destNamespace ingressNamespace ingressName filterName w =
     (case snippetsCRDNameForKind SnippetsFilterKind of
        None \<Rightarrow> (Inr False, w)
      | Some crdName \<Rightarrow>
          (case getCRDVersion srv crdName w of
             (Inl e, w) \<Rightarrow> (Inl (ApiError e), w)
           | (Inr None, w) \<Rightarrow> (Inr False, w)
           | (Inr (Some version), w) \<Rightarrow>
               let (r, w) = do_call srv (Get (KUnstructured version SnippetsFilterKind) sourceNamespace filterName) w
               in case decode as_unstructured r of
                    Inl e \<Rightarrow>
                      if e = NotFound
                      then (if destNamespace = [] then (Inr False, w)
                            else delete_copy srv version destNamespace filterName w)
                      else (Inl (ApiError e), w)
                  | Inr source \<Rightarrow>
                      if sourceNamespace = destNamespace then (Inr True, w)
                      else let desired = copied_filter version SnippetsFilterKind filterName destNamespace
                                 ingressNamespace ingressName (copied_spec source) source
                           in write_managed srv ''SnippetsFilter''
                                (\<lambda>existing. existing\<lparr>
                                   u_meta := (u_meta existing)\<lparr>m_labels := m_labels (u_meta desired),
                                     m_annotations := u_annotations desired, m_owners := m_owners (u_meta desired)\<rparr>,
                                   u_spec := u_spec desired\<rparr>) desired w))"

definition ValidateSnippetsFilterExists :: "server \<Rightarrow> string \<Rightarrow> string \<Rightarrow> world \<Rightarrow> unit go_result \<times> world" where
  "ValidateSnippetsFilterExists srv namespace name w =
     (case snippetsCRDNameForKind SnippetsFilterKind of
        None \<Rightarrow> (Inr (), w)
      | Some crdName \<Rightarrow>
          (case getCRDVersion srv crdName w of
             (Inl e, w) \<Rightarrow> (Inl (ApiError e), w)
           | (Inr None, w) \<Rightarrow> (Inr (), w)
           | (Inr (Some version), w) \<Rightarrow>
               let (r, w) = do_call srv (Get (KUnstructured version SnippetsFilterKind) namespace name) w
               in case decode as_unstructured r of
                    Inr _ \<Rightarrow> (Inr (), w)
                  | Inl e \<Rightarrow>
                      (Inl (if e = NotFound then Message (''SnippetsFilter '' @ namespace @ ''/'' @ name @ '' not found'')
                            else ApiError e), w)))"

definition set_target :: "json \<Rightarrow> json \<Rightarrow> json" where
  "set_target ref spec = (case spec of JObject m \<Rightarrow> JObject (mset_key ''targetRef'' ref m) | _ \<Rightarrow> spec)"

definition EnsureExtensionResource ::
  "server \<Rightarrow> string \<Rightarrow> string \<Rightarrow> string \<Rightarrow> string \<Rightarrow> string \<Rightarrow> string \<Rightarrow> json option \<Rightarrow> world
    \<Rightarrow> bool go_result \<times> world" where
  "EnsureExtensionResource srv k name sourceNamespace destNamespace ingressNamespace ingressName targetRef w =
     (case extensionCRDNameForKind k of
        None \<Rightarrow> (Inr False, w)
      | Some crdName \<Rightarrow>
          (case getCRDVersion srv crdName w of
             (Inl e, w) \<Rightarrow> (Inl (ApiError e), w)
           | (Inr None, w) \<Rightarrow> (Inr False, w)
           | (Inr (Some version), w) \<Rightarrow>
               let (r, w) = do_call srv (Get (KUnstructured version k) sourceNamespace name) w
               in case decode as_unstructured r of
                    Inl e \<Rightarrow> (if e = NotFound then Inr False else Inl (ApiError e), w)
                  | Inr source \<Rightarrow>
                      if sourceNamespace = destNamespace then (Inr True, w)
                      else let spec = copied_spec source;
                               spec = (case targetRef of None \<Rightarrow> spec | Some ref \<Rightarrow> set_target ref spec);
                               desired = copied_filter version k name destNamespace ingressNamespace ingressName spec source
                           in write_managed srv k
                                (\<lambda>existing. existing\<lparr>
                                   u_meta := (u_meta existing)\<lparr>m_labels := m_labels (u_meta desired),
                                     m_annotations := u_annotations desired\<rparr>,
                                   u_spec := u_spec desired\<rparr>) desired w))"

section \<open>References in routes\<close>

definition same_kind_ref :: "string \<Rightarrow> string \<Rightarrow> http_route_filter \<Rightarrow> bool" where
  "same_kind_ref grp k f = (case f of
     ExtensionRefFilter (Some ref) \<Rightarrow> lr_group ref = grp \<and> lr_kind ref = k | _ \<Rightarrow> False)"

definition ref_name :: "http_route_filter \<Rightarrow> string" where
  "ref_name f = (case f of ExtensionRefFilter (Some ref) \<Rightarrow> lr_name ref | _ \<Rightarrow> [])"

definition ext_ref :: "string \<Rightarrow> string \<Rightarrow> string \<Rightarrow> http_route_filter" where
  "ext_ref grp k name = ExtensionRefFilter (Some \<lparr>lr_group = grp, lr_kind = k, lr_name = name\<rparr>)"

text \<open>The scan of one rule: \<open>None\<close> when the reference exists, else where the new one goes.\<close>

fun ref_scan :: "string \<Rightarrow> string \<Rightarrow> string \<Rightarrow> nat \<Rightarrow> nat option \<Rightarrow> http_route_filter list \<Rightarrow> nat option option" where
  "ref_scan grp k name idx lastIdx [] = Some lastIdx"
| "ref_scan grp k name idx lastIdx (f # fs) =
     (if \<not> same_kind_ref grp k f then ref_scan grp k name (idx + 1) lastIdx fs
      else if ref_name f = name then None
      else ref_scan grp k name (idx + 1) (Some idx) fs)"

definition add_ref_after :: "string \<Rightarrow> string \<Rightarrow> string \<Rightarrow> http_route_filter list \<Rightarrow> http_route_filter list" where
  "add_ref_after grp k name fs =
     (case ref_scan grp k name 0 None fs of
        None \<Rightarrow> fs
      | Some None \<Rightarrow> fs @ [ext_ref grp k name]
      | Some (Some i) \<Rightarrow>
          if int i = int (length fs) - 1 then fs @ [ext_ref grp k name]
          else take (i + 1) fs @ [ext_ref grp k name] @ drop (i + 1) fs)"

definition AddExtensionRefFilterAfterExistingKind :: "http_route \<Rightarrow> string \<Rightarrow> string \<Rightarrow> string \<Rightarrow> http_route" where
  "AddExtensionRefFilterAfterExistingKind httpRoute grp k name =
     (if name = [] then httpRoute
      else httpRoute\<lparr>hr_rules := map (\<lambda>rule. rule\<lparr>rr_filters := add_ref_after grp k name (rr_filters rule)\<rparr>)
             (hr_rules httpRoute)\<rparr>)"

text \<open>The set of existing names is not extended while names are appended.\<close>

definition add_refs :: "string \<Rightarrow> string \<Rightarrow> string list \<Rightarrow> http_route_filter list \<Rightarrow> http_route_filter list" where
  "add_refs grp k names fs =
     (let existing = map ref_name (filter (same_kind_ref grp k) fs)
      in fs @ map (ext_ref grp k) (filter (\<lambda>name. name \<notin> set existing) names))"

definition AddExtensionRefFilters :: "http_route \<Rightarrow> string \<Rightarrow> string \<Rightarrow> string list \<Rightarrow> http_route" where
  "AddExtensionRefFilters httpRoute grp k names =
     (if names = [] then httpRoute
      else httpRoute\<lparr>hr_rules := map (\<lambda>rule. rule\<lparr>rr_filters := add_refs grp k names (rr_filters rule)\<rparr>)
             (hr_rules httpRoute)\<rparr>)"

section \<open>Lemmas\<close>

definition same_identity :: "(unstructured \<Rightarrow> unstructured) \<Rightarrow> bool" where
  "same_identity merge \<longleftrightarrow> (\<forall>u. u_version (merge u) = u_version u \<and> u_kind (merge u) = u_kind u \<and>
     m_namespace (u_meta (merge u)) = m_namespace (u_meta u) \<and> m_name (u_meta (merge u)) = m_name (u_meta u))"

text \<open>What is stored at the wanted name after a write that respects ownership.\<close>

definition written :: "(unstructured \<Rightarrow> unstructured) \<Rightarrow> unstructured \<Rightarrow> obj option \<Rightarrow> obj option" where
  "written merge desired cur = (case cur of
     None \<Rightarrow> Some (OUnstructured desired)
   | Some (OUnstructured u) \<Rightarrow> if IsManagedByUs (u_annotations u) then Some (OUnstructured (merge u)) else cur
   | Some _ \<Rightarrow> cur)"

abbreviation u_at :: "obj list \<Rightarrow> world \<Rightarrow> unstructured \<Rightarrow> obj option" where
  "u_at init w u \<equiv> stored_in init w (KUnstructured (u_version u) (u_kind u)) (m_namespace (u_meta u)) (m_name (u_meta u))"

lemma write_managed_mem:
  assumes merge: "same_identity merge"
  shows "fst (write_managed (mem_server init) what merge d w) =
       Inr (case u_at init w d of Some (OUnstructured u) \<Rightarrow> IsManagedByUs (u_annotations u) | _ \<Rightarrow> True) \<and>
     stored_in init (snd (write_managed (mem_server init) what merge d w)) k ns n =
       (if k = KUnstructured (u_version d) (u_kind d) \<and> ns = m_namespace (u_meta d) \<and> n = m_name (u_meta d)
        then written merge d (u_at init w d) else stored_in init w k ns n)"
proof (cases "u_at init w d")
  case None
  then show ?thesis
    by (auto simp: write_managed_def do_call_def decode_def write_error_def written_def Let_def list_ex_same_obj stored_Create)
next
  case (Some x)
  then obtain u where x: "x = OUnstructured u"
    and key: "u_version u = u_version d" "u_kind u = u_kind d" "m_namespace (u_meta u) = m_namespace (u_meta d)"
      "m_name (u_meta u) = m_name (u_meta d)"
    using stored_is obj_is_cases(7) by fastforce
  have "list_ex (same_obj (OUnstructured (merge u))) (store_of init (w_log w))"
    using Some merge key by (simp add: list_ex_same_obj same_identity_def)
  then show ?thesis
    using Some x key merge
    by (auto simp: write_managed_def do_call_def decode_def write_error_def written_def Let_def
        list_ex_same_obj stored_Update same_identity_def)
qed

lemma getCRDVersion_mem: "stored_in init (snd (getCRDVersion srv crdName w)) = stored_in init w"
  by (auto simp: getCRDVersion_def do_call_def Let_def split: option.splits sum.splits)

lemma written_unmanaged:
  "cur = Some y \<Longrightarrow> \<not> IsManagedByUs (obj_annotations y) \<Longrightarrow> written merge d cur = cur"
  by (cases y) (auto simp: written_def u_annotations_def)

lemma write_managed_keeps:
  "same_identity merge \<Longrightarrow> unmanaged_at init w k ns n y \<Longrightarrow>
   unmanaged_at init (snd (write_managed (mem_server init) what merge d w)) k ns n y"
  using write_managed_mem [of merge init what d w k ns n]
  by (auto simp: unmanaged_at_def written_unmanaged)

text \<open>The scan stops at an existing reference or answers the last position of the kind.\<close>

lemma ref_scan_None:
  "ref_scan grp k name idx l fs = None \<longleftrightarrow> (\<exists>f \<in> set fs. same_kind_ref grp k f \<and> ref_name f = name)"
  by (induction fs arbitrary: idx l) auto

lemma ref_scan_Some:
  "ref_scan grp k name idx l fs = Some r \<Longrightarrow>
   (if \<exists>f \<in> set fs. same_kind_ref grp k f
    then \<exists>i. r = Some (idx + i) \<and> i < length fs \<and> same_kind_ref grp k (fs ! i) \<and>
           (\<forall>f \<in> set (drop (i + 1) fs). \<not> same_kind_ref grp k f)
    else r = l)"
proof (induction fs arbitrary: idx l)
  case (Cons f fs)
  show ?case
  proof (cases "\<exists>f \<in> set fs. same_kind_ref grp k f")
    case True
    obtain l' where l': "ref_scan grp k name (idx + 1) l' fs = Some r"
      using Cons.prems by (auto split: if_splits)
    from Cons.IH [OF this] True obtain i where "r = Some (idx + 1 + i)" "i < length fs"
      "same_kind_ref grp k (fs ! i)" "\<forall>f \<in> set (drop (i + 1) fs). \<not> same_kind_ref grp k f"
      by auto
    then have "\<exists>i. r = Some (idx + i) \<and> i < length (f # fs) \<and> same_kind_ref grp k ((f # fs) ! i) \<and>
           (\<forall>f \<in> set (drop (i + 1) (f # fs)). \<not> same_kind_ref grp k f)"
      by (intro exI [of _ "Suc i"]) simp
    with True show ?thesis by simp
  next
    case False
    then show ?thesis
      using Cons.prems Cons.IH [of "idx + 1" l] Cons.IH [of "idx + 1" "Some idx"]
      by (auto split: if_splits)
  qed
qed simp

text \<open>
  Where a missing reference goes: directly behind the last one of the same kind, or at the end.
\<close>

definition ref_added :: "string \<Rightarrow> string \<Rightarrow> string \<Rightarrow> http_route_filter list \<Rightarrow> http_route_filter list \<Rightarrow> bool" where
  "ref_added grp k name fs fs' \<longleftrightarrow>
     (if \<exists>f \<in> set fs. same_kind_ref grp k f \<and> ref_name f = name then fs' = fs
      else \<exists>pre post. fs = pre @ post \<and> fs' = pre @ [ext_ref grp k name] @ post \<and>
        (\<forall>f \<in> set post. \<not> same_kind_ref grp k f) \<and>
        (if \<exists>f \<in> set fs. same_kind_ref grp k f then pre \<noteq> [] \<and> same_kind_ref grp k (List.last pre) else post = []))"

lemma ref_added_here: "\<exists>f \<in> set fs. same_kind_ref grp k f \<and> ref_name f = name \<Longrightarrow> ref_added grp k name fs fs"
  by (simp add: ref_added_def)

lemma add_ref_after_added: "ref_added grp k name fs (add_ref_after grp k name fs)"
proof (cases "ref_scan grp k name 0 None fs")
  case None
  then show ?thesis
    using ref_scan_None [of grp k name 0 None fs] by (simp add: add_ref_after_def ref_added_here)
next
  case (Some r)
  have new: "\<not> (\<exists>f \<in> set fs. same_kind_ref grp k f \<and> ref_name f = name)"
    using Some ref_scan_None [of grp k name 0 None fs] by simp
  show ?thesis
  proof (cases "\<exists>f \<in> set fs. same_kind_ref grp k f")
    case True
    then obtain i where i: "r = Some i" "i < length fs" "same_kind_ref grp k (fs ! i)"
      "\<forall>f \<in> set (drop (i + 1) fs). \<not> same_kind_ref grp k f"
      using ref_scan_Some [OF Some] by auto
    then have "List.last (take (i + 1) fs) = fs ! i" by (simp add: take_Suc_conv_app_nth)
    then show ?thesis
      unfolding ref_added_def if_not_P [OF new] if_P [OF True] using i Some
      by (intro exI [of _ "take (i + 1) fs"] exI [of _ "drop (i + 1) fs"]) (auto simp: add_ref_after_def)
  next
    case False
    then have "r = None" using ref_scan_Some [OF Some] by auto
    then show ?thesis
      unfolding ref_added_def if_not_P [OF new] if_not_P [OF False] using Some
      by (intro exI [of _ fs] exI [of _ "[]"]) (simp add: add_ref_after_def)
  qed
qed

lemma ref_added_has: "ref_added grp k name fs fs' \<Longrightarrow> \<exists>f \<in> set fs'. same_kind_ref grp k f \<and> ref_name f = name"
proof (cases "\<exists>f \<in> set fs. same_kind_ref grp k f \<and> ref_name f = name")
  case False
  assume "ref_added grp k name fs fs'"
  then have "ext_ref grp k name \<in> set fs'" unfolding ref_added_def if_not_P [OF False] by auto
  then show ?thesis by (rule rev_bexI) (simp add: same_kind_ref_def ref_name_def ext_ref_def)
qed (simp add: ref_added_def)

lemma add_ref_after_idem [simp]:
  "add_ref_after grp k name (add_ref_after grp k name fs) = add_ref_after grp k name fs"
  using ref_added_has [OF add_ref_after_added, of grp k name fs]
    ref_scan_None [of grp k name 0 None "add_ref_after grp k name fs"]
  by (simp add: add_ref_after_def [of _ _ _ "add_ref_after grp k name fs"])

lemma delete_copy_keeps:
  assumes "unmanaged_at init w k ns n y"
  shows "unmanaged_at init (snd (delete_copy (mem_server init) version dest name w)) k ns n y"
proof (cases "stored_in init w (KUnstructured version SnippetsFilterKind) dest name")
  case None
  then show ?thesis
    using assms by (simp add: delete_copy_def do_call_def decode_def Let_def unmanaged_at_def)
next
  case (Some x)
  then obtain u where "x = OUnstructured u" using stored_is obj_is_cases(7) by blast
  with Some assms show ?thesis
    by (auto simp: delete_copy_def do_call_def decode_def Let_def unmanaged_at_def u_annotations_def
        write_error_def split: option.splits)
qed

lemma unmanaged_getCRDVersion [simp]: "unmanaged_at init (snd (getCRDVersion srv c w)) = unmanaged_at init w"
  using getCRDVersion_mem [of init srv c w] by (simp add: unmanaged_at_def fun_eq_iff)

lemma unmanaged_do_call_Get [simp]:
  "unmanaged_at init (snd (do_call srv (Get k0 ns0 n0) w)) = unmanaged_at init w"
  by (simp add: unmanaged_at_def fun_eq_iff)

lemma merges_same_identity [simp]:
  "same_identity (\<lambda>e. e\<lparr>u_meta := (u_meta e)\<lparr>m_annotations := a, m_owners := x\<rparr>, u_spec := s\<rparr>)"
  "same_identity (\<lambda>e. e\<lparr>u_meta := (u_meta e)\<lparr>m_labels := l, m_annotations := a, m_owners := x\<rparr>, u_spec := s\<rparr>)"
  "same_identity (\<lambda>e. e\<lparr>u_meta := (u_meta e)\<lparr>m_labels := l, m_annotations := a\<rparr>, u_spec := s\<rparr>)"
  by (simp_all add: same_identity_def)

interpretation ef: managed_writer "\<lambda>srv (setRef, route, owner, ns, n, f, snippets) w.
    EnsureSnippetsFilterForIngress srv setRef route owner ns n f snippets w"
proof (unfold_locales, clarsimp, goal_cases)
  case (1 init w k ns n y setRef route owner ns' n' f snippets)
  then show ?case
    by (simp add: EnsureSnippetsFilterForIngress_def Let_def case_prod_beta write_managed_keeps
        split: option.split sum.split)
qed

interpretation ec: managed_writer "\<lambda>srv (src, dest, ns, n, f) w.
    EnsureSnippetsFilterCopyForHTTPRoute srv src dest ns n f w"
proof (unfold_locales, clarsimp, goal_cases)
  case (1 init w k ns n y src dest ns' n' f)
  then show ?case
    by (simp add: EnsureSnippetsFilterCopyForHTTPRoute_def Let_def case_prod_beta write_managed_keeps
        delete_copy_keeps del: mem_server_Cons fst_do_call split: option.split sum.split)
qed

interpretation ex: managed_writer "\<lambda>srv (k, name, src, dest, ns, n, ref) w.
    EnsureExtensionResource srv k name src dest ns n ref w"
proof (unfold_locales, clarsimp, goal_cases)
  case (1 init w k ns n y kd name src dest ns' n' ref)
  then show ?case
    by (simp add: EnsureExtensionResource_def Let_def case_prod_beta write_managed_keeps
        del: mem_server_Cons fst_do_call split: option.split sum.split)
qed

section \<open>Properties\<close>

text \<open>
  C36. Copying an extension resource into the namespace of a route, against a store that keeps
  its writes, when the definition is installed and the source exists elsewhere: the answer
  says whether the copy may be referred to, which is when no unmanaged object has its name;
  then the copy has the labels and specification of the source and the annotations of the
  source with the ownership marks; and everything else in the store stays.
\<close>

theorem EnsureExtensionResource_effect:
  assumes "extensionCRDNameForKind k = Some c" and "map_of (w_crdVersions w) c = Some v"
    and "stored_in init w (KUnstructured v k) src name = Some (OUnstructured s)" and "src \<noteq> dest"
  shows "let (res, w') = EnsureExtensionResource (mem_server init) k name src dest ns n None w
   in res = Inr (\<not> (\<exists>y. unmanaged_at init w (KUnstructured v k) dest name y)) \<and>
    (\<forall>y. unmanaged_at init w (KUnstructured v k) dest name y \<longrightarrow>
       stored_in init w' (KUnstructured v k) dest name = Some y) \<and>
    ((\<nexists>y. unmanaged_at init w (KUnstructured v k) dest name y) \<longrightarrow>
       (\<exists>u. stored_in init w' (KUnstructured v k) dest name = Some (OUnstructured u) \<and>
          u_spec u = Some (copied_spec s) \<and> m_labels (u_meta u) = m_labels (u_meta s) \<and>
          u_annotations u = owned_annotations ns n (u_annotations s))) \<and>
    (\<forall>k' ns' n'. (k', ns', n') \<noteq> (KUnstructured v k, dest, name) \<longrightarrow>
       stored_in init w' k' ns' n' = stored_in init w k' ns' n')"
proof -
  let ?g = "Get (KUnstructured v k) src name"
  let ?w = "w\<lparr>w_log := ?g # w_log w\<rparr>"
  let ?d = "copied_filter v k name dest ns n (copied_spec s) s"
  let ?merge = "\<lambda>e. e\<lparr>u_meta := (u_meta e)\<lparr>m_labels := m_labels (u_meta ?d), m_annotations := u_annotations ?d\<rparr>,
     u_spec := u_spec ?d\<rparr>"
  have run: "EnsureExtensionResource (mem_server init) k name src dest ns n None w =
      write_managed (mem_server init) k ?merge ?d ?w"
    using assms(1-4) by (simp add: EnsureExtensionResource_def getCRDVersion_def do_call_def decode_def Let_def)
  have id: "u_version ?d = v" "u_kind ?d = k" "m_namespace (u_meta ?d) = dest" "m_name (u_meta ?d) = name"
    by (simp_all add: copied_filter_def)
  have store: "stored_in init ?w = stored_in init w" by simp
  note mem = write_managed_mem [of ?merge init k ?d ?w, unfolded id store, folded run]
  define res w' where "res = fst (EnsureExtensionResource (mem_server init) k name src dest ns n None w)"
    and w'_def: "w' = snd (EnsureExtensionResource (mem_server init) k name src dest ns n None w)"
  then have eq: "EnsureExtensionResource (mem_server init) k name src dest ns n None w = (res, w')" by simp
  show ?thesis
  proof (cases "stored_in init w (KUnstructured v k) dest name")
    case None
    then show ?thesis
      using mem unfolding eq by (auto simp: unmanaged_at_def written_def copied_filter_def u_annotations_def)
  next
    case (Some x)
    then obtain u where "x = OUnstructured u" using stored_is obj_is_cases(7) by blast
    with Some show ?thesis
      using mem unfolding eq by (auto simp: unmanaged_at_def written_def copied_filter_def u_annotations_def)
  qed
qed

definition example_filter :: unstructured where
  "example_filter = \<lparr>u_version = ''v1alpha1'', u_kind = AuthenticationFilterKind,
     u_meta = empty_meta\<lparr>m_name := ''basic'', m_namespace := ''gateway''\<rparr>, u_spec = Some (JObject [])\<rparr>"

theorem EnsureExtensionResource_effect_witness:
  "fst (EnsureExtensionResource (mem_server [OUnstructured example_filter]) AuthenticationFilterKind ''basic''
      ''gateway'' ''shop'' ''shop'' ''prod'' None
      \<lparr>w_log = [], w_crdVersions = [(''authenticationfilters.gateway.nginx.org'', ''v1alpha1'')]\<rparr>) = Inr True"
proof -
  have "extensionCRDNameForKind AuthenticationFilterKind = Some ''authenticationfilters.gateway.nginx.org''"
    by (simp add: extensionCRDNameForKind_def AuthenticationFilterKind_def SnippetsFilterKind_def SnippetsPolicyKind_def)
  moreover have "stored [OUnstructured example_filter] (KUnstructured ''v1alpha1'' AuthenticationFilterKind)
      ''gateway'' ''basic'' = Some (OUnstructured example_filter)"
    "stored [OUnstructured example_filter] (KUnstructured ''v1alpha1'' AuthenticationFilterKind) ''shop'' ''basic'' = None"
    by (simp_all add: stored_def example_filter_def)
  ultimately show ?thesis
    using EnsureExtensionResource_effect [of AuthenticationFilterKind "''authenticationfilters.gateway.nginx.org''"
        "\<lparr>w_log = [], w_crdVersions = [(''authenticationfilters.gateway.nginx.org'', ''v1alpha1'')]\<rparr>" "''v1alpha1''"
        "[OUnstructured example_filter]" "''gateway''" "''basic''" example_filter "''shop''" "''shop''" "''prod''"]
    by (simp add: unmanaged_at_def case_prod_beta Let_def)
qed

text \<open>
  Adding a reference to a route: a rule that has it stays, every other rule gets it directly
  behind its last reference of the same kind, or at the end when it has none; the filters that
  were there keep their order; and adding it again changes nothing.
\<close>

theorem AddExtensionRef_position:
  assumes "name \<noteq> []"
  shows "list_all2 (\<lambda>rule rule'. rule' = rule\<lparr>rr_filters := rr_filters rule'\<rparr> \<and>
       ref_added grp k name (rr_filters rule) (rr_filters rule'))
     (hr_rules r) (hr_rules (AddExtensionRefFilterAfterExistingKind r grp k name)) \<and>
   AddExtensionRefFilterAfterExistingKind (AddExtensionRefFilterAfterExistingKind r grp k name) grp k name =
     AddExtensionRefFilterAfterExistingKind r grp k name"
  using assms
  by (simp add: AddExtensionRefFilterAfterExistingKind_def list_all2_map2 list_all2_same add_ref_after_added)

theorem AddExtensionRef_position_witness:
  "\<exists>fs'. ref_added ''g'' ''k'' ''b'' [ext_ref ''g'' ''k'' ''a'', OtherFilter ''x''] fs' \<and>
     hr_rules (AddExtensionRefFilterAfterExistingKind
       \<lparr>hr_meta = empty_meta, hr_hostnames = [], hr_parentRefs = [], hr_rules = [\<lparr>rr_matches = [],
          rr_filters = [ext_ref ''g'' ''k'' ''a'', OtherFilter ''x''], rr_backendRefs = []\<rparr>]\<rparr> ''g'' ''k'' ''b'') =
       [\<lparr>rr_matches = [], rr_filters = fs', rr_backendRefs = []\<rparr>]"
  using AddExtensionRef_position [of "''b''" "''g''" "''k''" "\<lparr>hr_meta = empty_meta, hr_hostnames = [],
      hr_parentRefs = [], hr_rules = [\<lparr>rr_matches = [],
      rr_filters = [ext_ref ''g'' ''k'' ''a'', OtherFilter ''x''], rr_backendRefs = []\<rparr>]\<rparr>"]
  by (auto simp: list_all2_Cons1)

end
