(* ===== verification/Reconcile_Cache.thy ===== *)
theory Reconcile_Cache
  imports Utils_Basic
begin

text \<open>
  \<open>internal/utils/reconcile_cache.go\<close> and the cache operations of the Ingress reconciler
  (\<open>shouldSkipReconcile\<close>, \<open>maybeRecordReconcile\<close>, \<open>evictOldestCacheEntries\<close>,
  \<open>evictReconcileCache\<close> in \<open>internal/controller/ingress_controller.go\<close>): the record of
  the resource versions already reconciled, kept in memory, bounded in size, and persisted in
  sharded ConfigMaps. Time is an argument, in nanoseconds since 1970, the unit of Go's clock;
  hashing is on \<^typ>\<open>32 word\<close>.
\<close>

unbundle bit_operations_syntax

section \<open>Entries, keys and shards\<close>

record reconcile_cache_entry =
  ce_resourceVersion :: string
  ce_updatedAtUnix :: int

type_synonym reconcile_cache = "reconcile_cache_entry gomap"

definition ReconcileCacheTTL :: int where
  "ReconcileCacheTTL = 24 * 60 * 60 * 10 ^ 9"

definition unix :: "int \<Rightarrow> int" where
  "unix t = t div 10 ^ 9"

definition fnv32a :: "string \<Rightarrow> 32 word" where
  "fnv32a s = fold (\<lambda>c hash. (hash XOR of_nat (of_char c)) * 16777619) s 2166136261"

definition reconcileCacheShardForKey :: "string \<Rightarrow> int \<Rightarrow> int" where
  "reconcileCacheShardForKey key shardCount =
     (if shardCount \<le> 1 then 0 else uint (fnv32a key mod word_of_int shardCount))"

definition ReconcileCacheKey :: "string \<Rightarrow> string" where
  "ReconcileCacheKey ident = (let key = ReplaceAll (TrimSpace ident) ''/'' ''__'' in if key = [] then [] else key)"

definition parseReconcileCacheEntry :: "string \<Rightarrow> reconcile_cache_entry option" where
  "parseReconcileCacheEntry raw =
     (case Split ''|'' raw of
        [rv, t] \<Rightarrow> (case ParseInt 64 t of
                     None \<Rightarrow> None
                   | Some ts \<Rightarrow> Some \<lparr>ce_resourceVersion = rv, ce_updatedAtUnix = ts\<rparr>)
      | _ \<Rightarrow> None)"

definition formatReconcileCacheEntry :: "reconcile_cache_entry \<Rightarrow> string" where
  "formatReconcileCacheEntry e = ce_resourceVersion e @ ''|'' @ show_int (ce_updatedAtUnix e)"

section \<open>Loading and saving\<close>

definition shard_name :: "string \<Rightarrow> nat \<Rightarrow> string" where
  "shard_name baseName shard = baseName @ ''-'' @ show_int (int shard)"

definition load_entry :: "int \<Rightarrow> string \<times> string \<Rightarrow> reconcile_cache \<Rightarrow> reconcile_cache" where
  "load_entry cutoff kv out =
     (case kv of (key, value) \<Rightarrow>
        (case parseReconcileCacheEntry value of
           None \<Rightarrow> out
         | Some e \<Rightarrow> if ce_updatedAtUnix e < cutoff then out else mset_key key e out))"

fun load_shards ::
  "server \<Rightarrow> int \<Rightarrow> string \<Rightarrow> string \<Rightarrow> nat list \<Rightarrow> reconcile_cache \<Rightarrow> world
    \<Rightarrow> reconcile_cache result \<times> world" where
  "load_shards srv cutoff namespace baseName [] out w = (Inr out, w)"
| "load_shards srv cutoff namespace baseName (shard # shards) out w =
     (let (r, w) = do_call srv (Get KConfigMap namespace (shard_name baseName shard)) w
      in case decode as_configmap r of
           Inl e \<Rightarrow> if e = NotFound then load_shards srv cutoff namespace baseName shards out w
                    else (Inl e, w)
         | Inr cm \<Rightarrow> load_shards srv cutoff namespace baseName shards
                      (fold (load_entry cutoff) (cm_data cm) out) w)"

definition LoadReconcileCacheSharded ::
  "server \<Rightarrow> int \<Rightarrow> string \<Rightarrow> string \<Rightarrow> int \<Rightarrow> world \<Rightarrow> reconcile_cache result \<times> world" where
  "LoadReconcileCacheSharded srv now namespace baseName shardCount0 w =
     (let shardCount = (if shardCount0 \<le> 0 then 1 else shardCount0);
          cutoff = unix (now - ReconcileCacheTTL)
      in load_shards srv cutoff namespace baseName [0..<nat shardCount] [] w)"

definition build_shards :: "int \<Rightarrow> reconcile_cache \<Rightarrow> int \<Rightarrow> string gomap" where
  "build_shards shardCount data =
     fold (\<lambda>(key, value) shards.
        let shard = reconcileCacheShardForKey key shardCount
        in shards(shard := mset_key key (formatReconcileCacheEntry value) (shards shard)))
      data (\<lambda>_. [])"

text \<open>One iteration of the loop over the shards, and the loop with its early return.\<close>

definition save_shard ::
  "server \<Rightarrow> string \<Rightarrow> string \<Rightarrow> (int \<Rightarrow> string gomap) \<Rightarrow> nat \<Rightarrow> world \<Rightarrow> unit go_result \<times> world" where
  "save_shard srv namespace baseName shards shard w =
     (let shardData = shards (int shard);
          name = shard_name baseName shard;
          (r, w) = do_call srv (Get KConfigMap namespace name) w
      in case decode as_configmap r of
           Inl e \<Rightarrow>
             if e = NotFound
             then (let newCM = \<lparr>cm_meta = empty_meta\<lparr>m_name := name, m_namespace := namespace\<rparr>,
                                cm_data = mcopy [] shardData\<rparr>;
                       (r, w) = do_call srv (Create (OConfigMap newCM)) w
                   in case write_error r of
                        Some e \<Rightarrow> (Inl (Wrapped ''failed to create reconcile cache configmap'' (ApiError e)), w)
                      | None \<Rightarrow> (Inr (), w))
             else (Inl (ApiError e), w)
         | Inr cm \<Rightarrow>
             (let (r, w) = do_call srv (Update (OConfigMap (cm\<lparr>cm_data := mcopy [] shardData\<rparr>))) w
              in case write_error r of
                   Some e \<Rightarrow> (Inl (Wrapped ''failed to update reconcile cache configmap'' (ApiError e)), w)
                 | None \<Rightarrow> (Inr (), w)))"

fun save_shards ::
  "server \<Rightarrow> string \<Rightarrow> string \<Rightarrow> (int \<Rightarrow> string gomap) \<Rightarrow> nat list \<Rightarrow> world
    \<Rightarrow> unit go_result \<times> world" where
  "save_shards srv namespace baseName shards [] w = (Inr (), w)"
| "save_shards srv namespace baseName shards (shard # rest) w =
     (case save_shard srv namespace baseName shards shard w of
        (Inl e, w) \<Rightarrow> (Inl e, w)
      | (Inr _, w) \<Rightarrow> save_shards srv namespace baseName shards rest w)"

definition SaveReconcileCacheSharded ::
  "server \<Rightarrow> string \<Rightarrow> string \<Rightarrow> int \<Rightarrow> reconcile_cache \<Rightarrow> world \<Rightarrow> unit go_result \<times> world" where
  "SaveReconcileCacheSharded srv namespace baseName shardCount0 data w =
     (let shardCount = (if shardCount0 \<le> 0 then 1 else shardCount0)
      in save_shards srv namespace baseName (build_shards shardCount data) [0..<nat shardCount] w)"

section \<open>The cache of the reconciler\<close>

text \<open>
  The settings, and the cache itself; \<^const>\<open>None\<close> is the \<open>nil\<close> map, with which the
  cache is off. The mutex that guards each of these operations makes them atomic steps.
\<close>

record cache_config =
  ReconcileCacheNamespace :: string
  ReconcileCacheBaseName :: string
  ReconcileCacheShards :: int
  ReconcileCachePersist :: bool
  ReconcileCacheMaxEntries :: int

fun evict_loop :: "int \<Rightarrow> reconcile_cache \<Rightarrow> string list \<Rightarrow> reconcile_cache" where
  "evict_loop maxEntries cache [] = cache"
| "evict_loop maxEntries cache (key # entries) =
     (if int (length cache) > maxEntries then evict_loop maxEntries (mdel_key key cache) entries
      else cache)"

text \<open>
  The sort of the code is not stable; the iteration order \<open>ord\<close> under a stable sort gives
  every possible outcome.
\<close>

definition evictOldestCacheEntries ::
  "(reconcile_cache \<Rightarrow> reconcile_cache) \<Rightarrow> int \<Rightarrow> reconcile_cache \<Rightarrow> reconcile_cache" where
  "evictOldestCacheEntries ord maxEntries cache =
     evict_loop maxEntries cache (map fst (sort_key (\<lambda>e. ce_updatedAtUnix (snd e)) (ord cache)))"

definition shouldSkipReconcile ::
  "int \<Rightarrow> ingress \<Rightarrow> reconcile_cache option \<Rightarrow> bool \<times> reconcile_cache option" where
  "shouldSkipReconcile now ing cache =
     (case cache of
        None \<Rightarrow> (False, cache)
      | Some c \<Rightarrow>
          if m_resourceVersion (i_meta ing) = [] then (False, cache)
          else let key = ReconcileCacheKey (m_uid (i_meta ing))
               in case map_of c key of
                    None \<Rightarrow> (False, cache)
                  | Some e \<Rightarrow>
                      if ce_resourceVersion e \<noteq> m_resourceVersion (i_meta ing) then (False, cache)
                      else if now - ce_updatedAtUnix e * 10 ^ 9 > ReconcileCacheTTL
                      then (False, Some (mdel_key key c))
                      else (True, cache))"

definition persist_cache :: "server \<Rightarrow> cache_config \<Rightarrow> reconcile_cache \<Rightarrow> world \<Rightarrow> world" where
  "persist_cache srv cc cache w =
     (if \<not> ReconcileCachePersist cc then w
      else if ReconcileCacheBaseName cc = [] \<or> ReconcileCacheNamespace cc = [] then w
      else snd (SaveReconcileCacheSharded srv (ReconcileCacheNamespace cc) (ReconcileCacheBaseName cc)
                  (ReconcileCacheShards cc) cache w))"

text \<open>\<open>ok\<close> says that the run ended without an error and without asking to be run again.\<close>

definition maybeRecordReconcile ::
  "server \<Rightarrow> cache_config \<Rightarrow> (reconcile_cache \<Rightarrow> reconcile_cache) \<Rightarrow> int \<Rightarrow> ingress \<Rightarrow> bool
    \<Rightarrow> reconcile_cache option \<Rightarrow> world \<Rightarrow> reconcile_cache option \<times> world" where
  "maybeRecordReconcile srv cc ord now ing ok cache w =
     (if \<not> ok then (cache, w)
      else case cache of
        None \<Rightarrow> (cache, w)
      | Some c \<Rightarrow>
          if m_resourceVersion (i_meta ing) = [] then (cache, w)
          else let key = ReconcileCacheKey (m_uid (i_meta ing));
                   c = mset_key key \<lparr>ce_resourceVersion = m_resourceVersion (i_meta ing),
                                     ce_updatedAtUnix = unix now\<rparr> c;
                   c = (if ReconcileCacheMaxEntries cc > 0 \<and>
                           int (length c) > ReconcileCacheMaxEntries cc
                        then evictOldestCacheEntries ord (ReconcileCacheMaxEntries cc) c else c)
               in (Some c, persist_cache srv cc c w))"

definition evictReconcileCache ::
  "server \<Rightarrow> cache_config \<Rightarrow> ingress \<Rightarrow> reconcile_cache option \<Rightarrow> world
    \<Rightarrow> reconcile_cache option \<times> world" where
  "evictReconcileCache srv cc ing cache w =
     (case cache of
        None \<Rightarrow> (cache, w)
      | Some c \<Rightarrow>
          if m_uid (i_meta ing) = [] then (cache, w)
          else let c = mdel_key (ReconcileCacheKey (m_uid (i_meta ing))) c
               in (Some c, persist_cache srv cc c w))"

section \<open>Lemmas\<close>

definition wf_entry :: "reconcile_cache_entry \<Rightarrow> bool" where
  "wf_entry e \<longleftrightarrow> CHR ''|'' \<notin> set (ce_resourceVersion e) \<and>
     - (2 ^ 63) \<le> ce_updatedAtUnix e \<and> ce_updatedAtUnix e < 2 ^ 63"

lemma parse_format: "wf_entry e \<Longrightarrow> parseReconcileCacheEntry (formatReconcileCacheEntry e) = Some e"
proof -
  assume e: "wf_entry e"
  have "CHR ''|'' \<notin> set (show_int i)" for i
    using set_show_int [of "CHR ''|''" i] by (auto simp: is_digit_def less_eq_char_def)
  then have "Split ''|'' (formatReconcileCacheEntry e) = [ce_resourceVersion e, show_int (ce_updatedAtUnix e)]"
    using e by (simp add: formatReconcileCacheEntry_def Split_single_append Split_single_None wf_entry_def)
  then show ?thesis
    using e ParseInt_show_int [of 64 "ce_updatedAtUnix e"]
    by (simp add: parseReconcileCacheEntry_def wf_entry_def)
qed

lemma shard_range:
  "0 < n \<Longrightarrow> n < 2 ^ 32 \<Longrightarrow> 0 \<le> reconcileCacheShardForKey key n \<and> reconcileCacheShardForKey key n < n"
proof -
  assume n: "0 < n" "n < 2 ^ 32"
  have "uint (word_of_int n :: 32 word) = n" using n by (simp add: uint_word_of_int take_bit_eq_mod)
  moreover have "uint (fnv32a key mod word_of_int n) = uint (fnv32a key) mod uint (word_of_int n :: 32 word)"
    by (rule uint_mod_distrib)
  ultimately show ?thesis using n by (simp add: reconcileCacheShardForKey_def)
qed

lemma build_shards_lookup:
  assumes "wf_map data"
  shows "map_of (build_shards n data i) k =
    (if reconcileCacheShardForKey k n = i then map_option formatReconcileCacheEntry (map_of data k) else None)"
proof -
  let ?step = "\<lambda>(key, value) shards. let shard = reconcileCacheShardForKey key n
    in shards(shard := mset_key key (formatReconcileCacheEntry value) (shards shard))"
  have "map_of (fold ?step data sh i) k =
    (case map_of data k of
       Some v \<Rightarrow> if reconcileCacheShardForKey k n = i then Some (formatReconcileCacheEntry v) else map_of (sh i) k
     | None \<Rightarrow> map_of (sh i) k)" for sh
    using assms by (induction data arbitrary: sh) (auto simp: Let_def split: option.splits simp flip: map_of_eq_None_iff)
  from this [of "\<lambda>_. []"] show ?thesis by (auto simp: build_shards_def split: option.splits)
qed

lemma wf_build_shards: "wf_map (build_shards n data i)"
proof -
  let ?step = "\<lambda>(key, value) shards. let shard = reconcileCacheShardForKey key n
    in shards(shard := mset_key key (formatReconcileCacheEntry value) (shards shard))"
  have "(\<And>i. wf_map (sh i)) \<Longrightarrow> wf_map (fold ?step data sh i)" for sh
    by (induction data arbitrary: sh) (auto simp: Let_def)
  then show ?thesis by (simp add: build_shards_def)
qed

lemma shard_name_inject [simp]: "shard_name b i = shard_name b j \<longleftrightarrow> i = j"
  by (simp add: shard_name_def show_int_inject)

lemma stored_configmap:
  "stored s KConfigMap ns n = Some x \<Longrightarrow> \<exists>cm. x = OConfigMap cm \<and> m_namespace (cm_meta cm) = ns \<and> m_name (cm_meta cm) = n"
  by (drule stored_is, cases x) (auto simp: obj_is_def)

abbreviation cm_stored :: "obj list \<Rightarrow> string \<Rightarrow> world \<Rightarrow> string \<Rightarrow> obj option" where
  "cm_stored init ns w n \<equiv> stored (store_of init (w_log w)) KConfigMap ns n"

lemma save_shard_stores:
  "\<exists>cm w'. save_shard (mem_server init) ns base sh i w = (Inr (), w') \<and> cm_data cm = mcopy [] (sh (int i)) \<and>
     (\<forall>n. cm_stored init ns w' n = (if n = shard_name base i then Some (OConfigMap cm) else cm_stored init ns w n))"
proof (cases "cm_stored init ns w (shard_name base i)")
  case None
  let ?cm = "\<lparr>cm_meta = empty_meta\<lparr>m_name := shard_name base i, m_namespace := ns\<rparr>, cm_data = mcopy [] (sh (int i))\<rparr>"
  from None have "\<not> list_ex (same_obj (OConfigMap ?cm)) (store_of init (w_log w))"
    by (simp add: list_ex_same_obj empty_meta_def)
  with None show ?thesis
    by (intro exI [of _ ?cm])
       (simp add: save_shard_def Let_def do_call_def decode_def write_error_def stored_Create empty_meta_def)
next
  case (Some x)
  then obtain cm where x: "x = OConfigMap cm" and key: "m_namespace (cm_meta cm) = ns" "m_name (cm_meta cm) = shard_name base i"
    using stored_configmap by blast
  let ?cm = "cm\<lparr>cm_data := mcopy [] (sh (int i))\<rparr>"
  from Some key have "list_ex (same_obj (OConfigMap ?cm)) (store_of init (w_log w))"
    by (simp add: list_ex_same_obj)
  with Some x key show ?thesis
    by (intro exI [of _ ?cm])
       (auto simp: save_shard_def Let_def do_call_def decode_def write_error_def stored_Update)
qed

lemma save_shards_stores:
  "distinct is \<Longrightarrow> \<exists>w'. save_shards (mem_server init) ns base sh is w = (Inr (), w') \<and>
     (\<forall>i \<in> set is. \<exists>cm. cm_stored init ns w' (shard_name base i) = Some (OConfigMap cm) \<and> cm_data cm = mcopy [] (sh (int i))) \<and>
     (\<forall>n. n \<notin> shard_name base ` set is \<longrightarrow> cm_stored init ns w' n = cm_stored init ns w n)"
proof (induction "is" arbitrary: w)
  case (Cons i "is")
  obtain cm w1 where w1: "save_shard (mem_server init) ns base sh i w = (Inr (), w1)"
    and data: "cm_data cm = mcopy [] (sh (int i))"
    and one: "\<And>n. cm_stored init ns w1 n = (if n = shard_name base i then Some (OConfigMap cm) else cm_stored init ns w n)"
    using save_shard_stores [of init ns base sh i w] by blast
  from Cons.IH [of w1] Cons.prems obtain w' where w': "save_shards (mem_server init) ns base sh is w1 = (Inr (), w')"
    and here: "\<forall>i \<in> set is. \<exists>cm. cm_stored init ns w' (shard_name base i) = Some (OConfigMap cm) \<and> cm_data cm = mcopy [] (sh (int i))"
    and rest: "\<forall>n. n \<notin> shard_name base ` set is \<longrightarrow> cm_stored init ns w' n = cm_stored init ns w1 n"
    by auto
  have "shard_name base i \<notin> shard_name base ` set is" using Cons.prems by auto
  then have "cm_stored init ns w' (shard_name base i) = Some (OConfigMap cm)" using rest one by simp
  with w1 w' here rest one data show ?case by (intro exI [of _ w']) auto
qed simp

lemma load_shards_reads:
  "(\<And>i. i \<in> set is \<Longrightarrow> \<exists>cm. cm_stored init ns w (shard_name base i) = Some (OConfigMap cm) \<and> cm_data cm = d i) \<Longrightarrow>
   fst (load_shards (mem_server init) cutoff ns base is out w) =
     Inr (fold (\<lambda>i out. fold (load_entry cutoff) (d i) out) is out)"
proof (induction "is" arbitrary: out w)
  case (Cons i "is")
  let ?w = "w\<lparr>w_log := Get KConfigMap ns (shard_name base i) # w_log w\<rparr>"
  from Cons.prems obtain cm where "cm_stored init ns w (shard_name base i) = Some (OConfigMap cm)" "cm_data cm = d i" by auto
  moreover have "fst (load_shards (mem_server init) cutoff ns base is out ?w) =
      Inr (fold (\<lambda>i out. fold (load_entry cutoff) (d i) out) is out)" for out
    by (rule Cons.IH) (use Cons.prems in auto)
  ultimately show ?case by (simp add: do_call_def decode_def)
qed simp

lemma load_entries_lookup:
  "wf_map d \<Longrightarrow> map_of (fold (load_entry cutoff) d out) k =
     (case map_of d k of None \<Rightarrow> map_of out k
      | Some v \<Rightarrow> (case parseReconcileCacheEntry v of None \<Rightarrow> map_of out k
                  | Some e \<Rightarrow> if ce_updatedAtUnix e < cutoff then map_of out k else Some e))"
  by (induction d arbitrary: out)
     (auto simp: load_entry_def split: option.splits simp flip: map_of_eq_None_iff)

lemma load_all_lookup:
  assumes "wf_map data" and "\<forall>(k, e) \<in> set data. wf_entry e" and n: "0 < n" "n < 2 ^ 32"
  shows "map_of (fold (\<lambda>i out. fold (load_entry cutoff) (mcopy [] (build_shards n data (int i))) out) is out) k =
    (case map_of data k of
       Some e \<Rightarrow> if nat (reconcileCacheShardForKey k n) \<in> set is \<and> \<not> ce_updatedAtUnix e < cutoff
                 then Some e else map_of out k
     | None \<Rightarrow> map_of out k)"
proof (induction "is" arbitrary: out)
  case (Cons i "is")
  have parse: "parseReconcileCacheEntry (formatReconcileCacheEntry e) = Some e" if "map_of data k = Some e" for e
    using that assms(2) by (intro parse_format) (auto dest: map_of_SomeD)
  have shard: "reconcileCacheShardForKey k n = int i \<longleftrightarrow> nat (reconcileCacheShardForKey k n) = i"
    using shard_range [OF n, of k] by auto
  show ?case
    unfolding fold.simps comp_def Cons.IH
    using parse shard
    by (auto simp: load_entries_lookup wf_build_shards build_shards_lookup [OF assms(1)] split: option.splits)
qed (auto split: option.splits)

lemma keys_delete: "fst ` set (mdel_key k m) = fst ` set m - {k}"
  using arg_cong [OF AList.delete_keys [of k m], of set] by simp

lemma length_delete: "wf_map m \<Longrightarrow> k \<in> fst ` set m \<Longrightarrow> length (mdel_key k m) = length m - 1"
proof -
  assume m: "wf_map m" and k: "k \<in> fst ` set m"
  have "length (mdel_key k m) = card (fst ` set (mdel_key k m))"
    using distinct_card [of "map fst (mdel_key k m)"] m by simp
  also have "\<dots> = card (fst ` set m) - 1" using k by (simp add: keys_delete)
  also have "card (fst ` set m) = length m" using distinct_card [of "map fst m"] m by simp
  finally show ?thesis .
qed

text \<open>The eviction loop deletes a prefix of the keys it is given.\<close>

lemma evict_loop_prefix: "\<exists>j. evict_loop m cache keys = filter (\<lambda>e. fst e \<notin> set (take j keys)) cache"
proof (induction m cache keys rule: evict_loop.induct)
  case (1 m cache)
  then show ?case by (intro exI [of _ 0]) simp
next
  case (2 m cache key keys)
  show ?case
  proof (cases "int (length cache) > m")
    case True
    then obtain j where "evict_loop m (mdel_key key cache) keys =
        filter (\<lambda>e. fst e \<notin> set (take j keys)) (mdel_key key cache)" using 2 by auto
    also have "\<dots> = filter (\<lambda>e. fst e \<notin> set (take (Suc j) (key # keys))) cache"
      by (auto simp: AList.delete_eq intro: filter_cong)
    finally show ?thesis using True by (intro exI [of _ "Suc j"]) simp
  next
    case False
    then show ?thesis by (intro exI [of _ 0]) simp
  qed
qed

lemma evict_loop_size:
  assumes "wf_map cache" and "distinct keys" and "set keys \<subseteq> fst ` set cache" and "0 \<le> m"
    and "length keys = length cache" and "m < int (length cache)"
  shows "int (length (evict_loop m cache keys)) = m"
  using assms
proof (induction m cache keys rule: evict_loop.induct)
  case (2 m cache key keys)
  let ?c = "mdel_key key cache"
  have len: "length ?c = length cache - 1" using "2.prems" by (intro length_delete) auto
  show ?case
  proof (cases "m < int (length ?c)")
    case True
    have "int (length (evict_loop m ?c keys)) = m"
      by (rule "2.IH") (use 2 len True in \<open>auto simp: keys_delete\<close>)
    then show ?thesis using "2.prems" by simp
  next
    case False
    then have "int (length ?c) = m" using "2.prems" len by auto
    then show ?thesis using "2.prems" by (cases keys) auto
  qed
qed simp

lemma keyed_take: "distinct (map fst xs) \<Longrightarrow> x \<in> set xs \<Longrightarrow> fst x \<in> set (take j (map fst xs)) \<longleftrightarrow> x \<in> set (take j xs)"
proof -
  assume d: "distinct (map fst xs)" and x: "x \<in> set xs"
  have "inj_on fst (set xs)" using d by (simp add: distinct_map)
  then show ?thesis
    using x by (auto simp: take_map dest: in_set_takeD inj_onD)
qed

section \<open>Properties\<close>

text \<open>
  C18. Saving a cache and loading it back through a store that keeps its writes: saving
  succeeds, whatever was stored before, and loading returns exactly the saved entries that
  have not expired at the time of loading.
\<close>

theorem save_load_roundtrip:
  assumes "wf_map data" and "\<forall>(k, e) \<in> set data. wf_entry e" and "0 < n" "n < 2 ^ 32"
  shows "\<exists>w' cache. SaveReconcileCacheSharded (mem_server init) ns base n data w = (Inr (), w') \<and>
    fst (LoadReconcileCacheSharded (mem_server init) now ns base n w') = Inr cache \<and>
    (\<forall>k. map_of cache k = (case map_of data k of
        Some e \<Rightarrow> if ce_updatedAtUnix e < unix (now - ReconcileCacheTTL) then None else Some e
      | None \<Rightarrow> None))"
proof -
  let ?is = "[0..<nat n]" and ?d = "\<lambda>i. mcopy [] (build_shards n data (int i))"
  let ?load = "\<lambda>i out. fold (load_entry (unix (now - ReconcileCacheTTL))) (?d i) out"
  obtain w' where save: "save_shards (mem_server init) ns base (build_shards n data) ?is w = (Inr (), w')"
    and cms: "\<forall>i \<in> set ?is. \<exists>cm. cm_stored init ns w' (shard_name base i) = Some (OConfigMap cm) \<and> cm_data cm = ?d i"
    using save_shards_stores [of ?is init ns base "build_shards n data" w] by auto
  have load: "fst (load_shards (mem_server init) (unix (now - ReconcileCacheTTL)) ns base ?is [] w') = Inr (fold ?load ?is [])"
    by (rule load_shards_reads) (use cms in blast)
  have "nat (reconcileCacheShardForKey k n) \<in> set ?is" for k
    using shard_range [OF assms(3,4), of k] by auto
  then have "map_of (fold ?load ?is []) k = (case map_of data k of
        Some e \<Rightarrow> if ce_updatedAtUnix e < unix (now - ReconcileCacheTTL) then None else Some e
      | None \<Rightarrow> None)" for k
    unfolding load_all_lookup [OF assms] by (auto split: option.splits)
  with save load assms(3) show ?thesis
    by (simp add: SaveReconcileCacheSharded_def LoadReconcileCacheSharded_def)
qed

theorem save_load_roundtrip_witness:
  "\<exists>w' cache. SaveReconcileCacheSharded (mem_server []) ''ops'' ''cache'' 16
      [(''uid-1'', \<lparr>ce_resourceVersion = ''42'', ce_updatedAtUnix = 1000\<rparr>)] \<lparr>w_log = [], w_crdVersions = []\<rparr> = (Inr (), w') \<and>
    fst (LoadReconcileCacheSharded (mem_server []) (2000 * 10 ^ 9) ''ops'' ''cache'' 16 w') = Inr cache \<and>
    map_of cache ''uid-1'' = Some \<lparr>ce_resourceVersion = ''42'', ce_updatedAtUnix = 1000\<rparr>"
proof -
  let ?data = "[(''uid-1'', \<lparr>ce_resourceVersion = ''42'', ce_updatedAtUnix = 1000\<rparr>)]"
  have "wf_map ?data" "\<forall>(k, e) \<in> set ?data. wf_entry e" "(0::int) < 16" "(16::int) < 2 ^ 32"
    by (simp_all add: wf_entry_def)
  from save_load_roundtrip [OF this, of "[]" "''ops''" "''cache''" "\<lparr>w_log = [], w_crdVersions = []\<rparr>" "2000 * 10 ^ 9"]
  obtain w' cache where "SaveReconcileCacheSharded (mem_server []) ''ops'' ''cache'' 16 ?data \<lparr>w_log = [], w_crdVersions = []\<rparr> = (Inr (), w')"
    "fst (LoadReconcileCacheSharded (mem_server []) (2000 * 10 ^ 9) ''ops'' ''cache'' 16 w') = Inr cache"
    "\<forall>k. map_of cache k = (case map_of ?data k of
        Some e \<Rightarrow> if ce_updatedAtUnix e < unix (2000 * 10 ^ 9 - ReconcileCacheTTL) then None else Some e
      | None \<Rightarrow> None)" by blast
  moreover have "unix (2000 * 10 ^ 9 - ReconcileCacheTTL) = -84400" by (simp add: unix_def ReconcileCacheTTL_def)
  ultimately show ?thesis by (intro exI [of _ w'] exI [of _ cache]) simp
qed

text \<open>
  Every key has a shard in range, whatever the hash; and an entry whose resource version
  has no bar reads back from its text.
\<close>

theorem cache_shard_and_entry:
  assumes "0 < n" "n < 2 ^ 32"
  shows "0 \<le> reconcileCacheShardForKey key n \<and> reconcileCacheShardForKey key n < n \<and>
    (wf_entry e \<longrightarrow> parseReconcileCacheEntry (formatReconcileCacheEntry e) = Some e)"
  using shard_range [OF assms] parse_format by blast

theorem cache_shard_and_entry_witness:
  "reconcileCacheShardForKey ''uid-1'' 16 < 16 \<and>
   parseReconcileCacheEntry (formatReconcileCacheEntry \<lparr>ce_resourceVersion = ''42'', ce_updatedAtUnix = 1000\<rparr>) =
     Some \<lparr>ce_resourceVersion = ''42'', ce_updatedAtUnix = 1000\<rparr>"
  using cache_shard_and_entry [of 16 "''uid-1''" "\<lparr>ce_resourceVersion = ''42'', ce_updatedAtUnix = 1000\<rparr>"]
  by (simp add: wf_entry_def)

text \<open>
  Evicting, whatever order ties come in: the cache keeps as many entries as allowed, all of
  them old ones, and none of the removed entries is newer than a kept one.
\<close>

theorem evictOldest_keeps_newest:
  assumes "is_order ord" and "wf_map cache" and "0 \<le> m" and "m < int (length cache)"
  shows "let kept = evictOldestCacheEntries ord m cache
    in int (length kept) = m \<and> set kept \<subseteq> set cache \<and>
       (\<forall>x \<in> set cache - set kept. \<forall>y \<in> set kept. ce_updatedAtUnix (snd x) \<le> ce_updatedAtUnix (snd y))"
proof -
  let ?ts = "\<lambda>e. ce_updatedAtUnix (snd e)" and ?kept = "evictOldestCacheEntries ord m cache"
  let ?sorted = "sort_key ?ts (ord cache)"
  let ?keys = "map fst ?sorted"
  have set: "set ?sorted = set cache" using assms(1) by simp
  have "distinct (map fst (ord cache))" using assms(1,2) by (simp add: is_order_distinct_map)
  then have dist: "distinct ?keys" by (metis mset_eq_imp_distinct_iff mset_map mset_sort)
  obtain j where j: "?kept = filter (\<lambda>e. fst e \<notin> set (take j ?keys)) cache"
    using evict_loop_prefix unfolding evictOldestCacheEntries_def by blast
  have len: "length ?keys = length cache" using assms(1) by simp
  have size: "int (length ?kept) = m"
    using evict_loop_size [OF assms(2) dist _ assms(3)] set len assms(4)
    unfolding evictOldestCacheEntries_def by simp
  have "?ts x \<le> ?ts y" if x: "x \<in> set cache" "x \<notin> set ?kept" and y: "y \<in> set ?kept" for x y
  proof -
    have "x \<in> set (take j ?sorted)" using x j keyed_take [OF dist, of x j] set by auto
    moreover have "y \<in> set ?sorted - set (take j ?sorted)" using y j keyed_take [OF dist, of y j] set by auto
    then have "y \<in> set (drop j ?sorted)" by (metis Diff_iff Un_iff append_take_drop_id set_append)
    moreover have "sorted (map ?ts (take j ?sorted @ drop j ?sorted))" by simp
    ultimately show ?thesis unfolding map_append sorted_append by auto
  qed
  moreover have "set ?kept \<subseteq> set cache" using j by auto
  ultimately show ?thesis using size by (auto simp: Let_def)
qed

theorem evictOldest_keeps_newest_witness:
  "int (length (evictOldestCacheEntries rev 1
     [(''a'', \<lparr>ce_resourceVersion = ''1'', ce_updatedAtUnix = 10\<rparr>),
      (''b'', \<lparr>ce_resourceVersion = ''2'', ce_updatedAtUnix = 20\<rparr>)])) = 1"
  using evictOldest_keeps_newest [of rev "[(''a'', \<lparr>ce_resourceVersion = ''1'', ce_updatedAtUnix = 10\<rparr>),
      (''b'', \<lparr>ce_resourceVersion = ''2'', ce_updatedAtUnix = 20\<rparr>)]" 1]
  by (simp add: Let_def)

text \<open>
  A recorded reconciliation is skipped until the Ingress changes or a day has passed: with
  no bound on the cache, after recording at one time, the same Ingress at a later time is
  skipped exactly when it still has the recorded version and no more than the time to live has
  gone by. A failed run, or one that asked to be run again, records nothing.
\<close>

theorem record_then_skip:
  assumes "m_resourceVersion (i_meta ing) \<noteq> []" and "ReconcileCacheMaxEntries cc \<le> 0"
    and "m_uid (i_meta ing') = m_uid (i_meta ing)" and "m_resourceVersion (i_meta ing') \<noteq> []"
  shows "(fst (shouldSkipReconcile now' ing' (fst (maybeRecordReconcile srv cc ord now ing True (Some c) w))) \<longleftrightarrow>
      m_resourceVersion (i_meta ing') = m_resourceVersion (i_meta ing) \<and>
      now' - unix now * 10 ^ 9 \<le> ReconcileCacheTTL) \<and>
    maybeRecordReconcile srv cc ord now ing False (Some c) w = (Some c, w)"
proof -
  have "fst (maybeRecordReconcile srv cc ord now ing True (Some c) w) =
    Some (mset_key (ReconcileCacheKey (m_uid (i_meta ing)))
      \<lparr>ce_resourceVersion = m_resourceVersion (i_meta ing), ce_updatedAtUnix = unix now\<rparr> c)"
    using assms(1,2) by (simp add: maybeRecordReconcile_def Let_def)
  then show ?thesis using assms by (auto simp: shouldSkipReconcile_def maybeRecordReconcile_def Let_def)
qed

definition example_cached :: ingress where
  "example_cached = example_ingress\<lparr>i_meta := empty_meta\<lparr>m_uid := ''u'', m_resourceVersion := ''7''\<rparr>\<rparr>"

definition example_cache_config :: cache_config where
  "example_cache_config = \<lparr>ReconcileCacheNamespace = [], ReconcileCacheBaseName = [],
     ReconcileCacheShards = 16, ReconcileCachePersist = False, ReconcileCacheMaxEntries = 0\<rparr>"

theorem record_then_skip_witness:
  "fst (shouldSkipReconcile (5000 * 10 ^ 9) example_cached
    (fst (maybeRecordReconcile (mem_server []) example_cache_config rev (4000 * 10 ^ 9) example_cached True (Some [])
       \<lparr>w_log = [], w_crdVersions = []\<rparr>)))"
  using record_then_skip [of example_cached example_cache_config example_cached "5000 * 10 ^ 9" "mem_server []" rev
      "4000 * 10 ^ 9" "[]" "\<lparr>w_log = [], w_crdVersions = []\<rparr>"]
  by (simp add: example_cached_def example_cache_config_def unix_def ReconcileCacheTTL_def)

end
