(* ===== verification/Ingress_Controller.thy ===== *)
theory Ingress_Controller
  imports HTTPRoute_Controller Snippets Extension_Refs Reconcile_Cache
begin

text \<open>
  The Ingress controller, \<open>internal/controller/ingress_controller.go\<close>: the reconcile loop
  from an Ingress to its routes and the listeners of its Gateway, canary siblings, conflicts
  between generated snippets, references to extension resources, deletion, and the requests
  that a change of an extension resource causes. Log lines are not modelled; metrics and
  events are entries of the world's log.
\<close>

section \<open>State\<close>

text \<open>The configuration fields of \<open>IngressReconciler\<close>.\<close>

record ingress_reconciler =
  rc_gatewayNamespace :: string
  rc_gatewayName :: string
  rc_gatewayClassName :: string
  rc_watchNamespace :: string
  rc_oneGatewayPerIngress :: bool
  rc_enableDeletion :: bool
  rc_hostnameRewriteFrom :: string
  rc_hostnameRewriteTo :: string
  rc_postProcessingMode :: string
  rc_gatewayAnnotationFilters :: "string list"
  rc_httpRouteAnnotationFilters :: "string list"
  rc_defaultGatewayAnnotations :: "string gomap"
  rc_infrastructureAnnotations :: "string gomap"
  rc_infrastructureByClass :: "ingress_class_annotations_rule list"
  rc_classFilters :: "string list"
  rc_classIgnoreFilters :: "string list"
  rc_classEmpty :: string
  rc_useIngress2Gateway :: bool
  rc_provider :: string
  rc_providerClass :: string
  rc_classSnippets :: "snippets_filter_mapping list"
  rc_nameSnippets :: "snippets_filter_mapping list"
  rc_annotationAdd :: "annotation_snippets_rule list"
  rc_annotationRemove :: "annotation_snippets_rule list"
  rc_clearStatus :: bool
  rc_cache :: cache_config
  rc_recorder :: bool

text \<open>
  What a run depends on besides: the server, the clock, the URL parser, the owner references of
  controller-runtime, two iteration orders, and the number of calls granted to
  \<^const>\<open>ensureReferenceGrant\<close>.
\<close>

record reconcile_env =
  e_srv :: server
  e_now :: int
  e_parse :: url_parser
  e_setRef :: "(ingress \<Rightarrow> unstructured \<Rightarrow> unstructured go_result) option"
  e_ordMismatch :: "string list \<Rightarrow> string list"
  e_ordCache :: "reconcile_cache \<Rightarrow> reconcile_cache"
  e_fuel :: nat

text \<open>What changes: the world, the reconcile cache and the memory of own deletions.\<close>

record ctl =
  ct_world :: world
  ct_cache :: "reconcile_cache option"
  ct_selfDeleted :: "int gomap"

abbreviation set_world :: "world \<Rightarrow> ctl \<Rightarrow> ctl" where
  "set_world w s \<equiv> s\<lparr>ct_world := w\<rparr>"

abbreviation count :: "string \<Rightarrow> ingress \<Rightarrow> ctl \<Rightarrow> ctl" where
  "count reason ing s \<equiv> s\<lparr>ct_world := emit (Metric IngressReconcileSkipsTotal reason (i_namespace ing) (i_name ing)) (ct_world s)\<rparr>"

definition recordWarning :: "ingress_reconciler \<Rightarrow> string \<Rightarrow> string \<Rightarrow> world \<Rightarrow> world" where
  "recordWarning r reason message w = (if rc_recorder r then emit (Event ''Warning'' reason message) w else w)"

definition recordNormal :: "ingress_reconciler \<Rightarrow> string \<Rightarrow> string \<Rightarrow> world \<Rightarrow> world" where
  "recordNormal r reason message w = (if rc_recorder r then emit (Event ''Normal'' reason message) w else w)"

definition getTranslator :: "ingress_reconciler \<Rightarrow> translator_config" where
  "getTranslator r = \<lparr>GatewayNamespace = rc_gatewayNamespace r, GatewayName = rc_gatewayName r,
     GatewayClassName = (if rc_gatewayClassName r = [] then ''nginx'' else rc_gatewayClassName r),
     HostnameRewriteFrom = rc_hostnameRewriteFrom r, HostnameRewriteTo = rc_hostnameRewriteTo r,
     DefaultGatewayAnnotations = rc_defaultGatewayAnnotations r,
     GatewayInfrastructureAnnotations = rc_infrastructureAnnotations r,
     InfrastructureAnnotationsByClass = rc_infrastructureByClass r,
     GatewayAnnotationFilters = rc_gatewayAnnotationFilters r, HTTPRouteAnnotationFilters = rc_httpRouteAnnotationFilters r,
     UseIngress2Gateway = rc_useIngress2Gateway r, Ingress2GatewayProvider = rc_provider r,
     Ingress2GatewayIngressClass = rc_providerClass r\<rparr>"

definition class_of :: "ingress_reconciler \<Rightarrow> ingress \<Rightarrow> string" where
  "class_of r ing = getIngressClass (rc_classEmpty r) ing"

definition matchesIngressClassFilter :: "ingress_reconciler \<Rightarrow> ingress \<Rightarrow> bool" where
  "matchesIngressClassFilter r ing = matchIngressClassPatterns (rc_classFilters r) (class_of r ing)"

definition matchesIngressClassIgnoreFilter :: "ingress_reconciler \<Rightarrow> ingress \<Rightarrow> bool" where
  "matchesIngressClassIgnoreFilter r ing = matchIngressClassPatterns (rc_classIgnoreFilters r) (class_of r ing)"

section \<open>Which Ingresses\<close>

text \<open>
  The two guards make the same tests up to the cache; the reason is the label of the metric,
  which the ignore annotation does not have.
\<close>

definition common_guards :: "ingress_reconciler \<Rightarrow> int \<Rightarrow> ingress \<Rightarrow> ctl \<Rightarrow> bool \<times> ctl" where
  "common_guards r now ing s =
     (if mget (i_annotations ing) IgnoreIngressAnnotation = ''true'' then (True, s)
      else if matchesIngressClassIgnoreFilter r ing then (True, count ''class-ignore'' ing s)
      else if \<not> matchesIngressClassFilter r ing then (True, count ''class-filter'' ing s)
      else if mget (i_annotations ing) IngressRemovedAnnotation = ''true'' then (True, count ''removed'' ing s)
      else if class_of r ing = DisabledIngressClassName then (True, count ''disabled-class'' ing s)
      else let (self, m) = wasSelfDeleted now ing (ct_selfDeleted s); s = s\<lparr>ct_selfDeleted := m\<rparr>
           in if self then (True, count ''self-deleted'' ing s) else (False, s))"

definition shouldSkipIngress :: "ingress_reconciler \<Rightarrow> int \<Rightarrow> ingress \<Rightarrow> ctl \<Rightarrow> bool \<times> ctl" where
  "shouldSkipIngress r now ing s =
     (case common_guards r now ing s of
        (True, s) \<Rightarrow> (True, s)
      | (False, s) \<Rightarrow>
          let (skip, c) = shouldSkipReconcile now ing (ct_cache s); s = s\<lparr>ct_cache := c\<rparr>
          in if skip then (True, count ''cache'' ing s) else (False, s))"

definition shouldIncludeIngressForSynthesis :: "ingress_reconciler \<Rightarrow> int \<Rightarrow> ingress \<Rightarrow> ctl \<Rightarrow> bool \<times> ctl" where
  "shouldIncludeIngressForSynthesis r now ing s = (let (skip, s) = common_guards r now ing s in (\<not> skip, s))"

definition hasHostnames :: "ingress \<Rightarrow> bool" where
  "hasHostnames ing = list_ex (\<lambda>rule. ir_host rule \<noteq> []) (i_rules ing)"

definition shouldEnqueueIngressByClass :: "ingress_reconciler \<Rightarrow> ingress \<Rightarrow> bool" where
  "shouldEnqueueIngressByClass r ing \<longleftrightarrow> \<not> matchesIngressClassIgnoreFilter r ing \<and> matchesIngressClassFilter r ing"

definition IngressPostProcessingModeDisable :: string where
  "IngressPostProcessingModeDisable = ''disable''"

definition IngressPostProcessingModeRemove :: string where
  "IngressPostProcessingModeRemove = ''remove''"

definition resolveIngressPostProcessingMode :: "ingress_reconciler \<Rightarrow> ingress \<Rightarrow> string" where
  "resolveIngressPostProcessingMode r ing =
     (let reason = mget (i_annotations ing) IngressDisabledAnnotation
      in if reason = IngressDisabledReasonNormal then IngressPostProcessingModeDisable
         else if reason = IngressDisabledReasonExternalDNS then IngressPostProcessingModeDisableExternalDNS
         else rc_postProcessingMode r)"

section \<open>Siblings\<close>

definition listSiblingIngresses :: "server \<Rightarrow> string \<Rightarrow> world \<Rightarrow> ingress list result \<times> world" where
  "listSiblingIngresses srv namespace w =
     (let (reply, w) = do_call srv (ListAll KIngress namespace) w in (decode_list as_ingress reply, w))"

definition host_paths :: "ingress \<Rightarrow> string list" where
  "host_paths ing = concat (map (\<lambda>rule. case ir_http rule of
     None \<Rightarrow> [] | Some paths \<Rightarrow> map (\<lambda>path. ir_host rule @ [CHR 0x00] @ ip_path path) paths) (i_rules ing))"

definition sharesHostPath :: "ingress \<Rightarrow> ingress \<Rightarrow> bool" where
  "sharesHostPath a b = list_ex (\<lambda>p. p \<in> set (host_paths a)) (host_paths b)"

definition is_canary_sibling :: "ingress_reconciler \<Rightarrow> ingress \<Rightarrow> ingress \<Rightarrow> bool" where
  "is_canary_sibling r primary sibling \<longleftrightarrow>
     i_name sibling \<noteq> i_name primary \<and> IsCanary sibling \<and> m_deletion (i_meta sibling) = None \<and>
     \<not> matchesIngressClassIgnoreFilter r sibling \<and> matchesIngressClassFilter r sibling \<and>
     class_of r sibling = class_of r primary \<and> sharesHostPath primary sibling"

definition findCanarySiblings :: "server \<Rightarrow> ingress_reconciler \<Rightarrow> ingress \<Rightarrow> world \<Rightarrow> ingress list \<times> world" where
  "findCanarySiblings srv r primary w =
     (case listSiblingIngresses srv (i_namespace primary) w of
        (Inl e, w) \<Rightarrow> ([], w)
      | (Inr siblings, w) \<Rightarrow> (filter (is_canary_sibling r primary) siblings, w))"

definition is_primary_of :: "ingress_reconciler \<Rightarrow> ingress \<Rightarrow> ingress \<Rightarrow> bool" where
  "is_primary_of r canary primary \<longleftrightarrow>
     i_name primary \<noteq> i_name canary \<and> \<not> IsCanary primary \<and> m_deletion (i_meta primary) = None \<and>
     class_of r primary = class_of r canary \<and> sharesHostPath primary canary"

section \<open>Conflicts between snippets\<close>

definition isOlderIngress :: "ingress \<Rightarrow> ingress \<Rightarrow> bool" where
  "isOlderIngress a b =
     (if m_creation (i_meta a) = m_creation (i_meta b) then i_name a < i_name b
      else m_creation (i_meta a) < m_creation (i_meta b))"

definition transformedHostSet :: "translator_config \<Rightarrow> ingress \<Rightarrow> string list" where
  "transformedHostSet cfg ing = remdups (map (\<lambda>rule. TransformHostname cfg (ir_host rule))
     (filter (\<lambda>rule. ir_host rule \<noteq> []) (i_rules ing)))"

text \<open>The transformed hosts with their paths, in the order of the rules.\<close>

definition transformed_pairs :: "translator_config \<Rightarrow> ingress \<Rightarrow> (string \<times> string) list" where
  "transformed_pairs cfg ing = concat (map (\<lambda>rule. case ir_http rule of
     None \<Rightarrow> []
   | Some paths \<Rightarrow> if ir_host rule = [] then []
       else map (\<lambda>path. (TransformHostname cfg (ir_host rule), ip_path path)) paths) (i_rules ing))"

definition pair_key :: "string \<times> string \<Rightarrow> string" where
  "pair_key p = fst p @ [CHR 0x00] @ snd p"

definition transformedHostPathSet :: "translator_config \<Rightarrow> ingress \<Rightarrow> string list" where
  "transformedHostPathSet cfg ing = remdups (map pair_key (transformed_pairs cfg ing))"

definition sharesAnyHost :: "string list \<Rightarrow> translator_config \<Rightarrow> ingress \<Rightarrow> bool" where
  "sharesAnyHost hosts cfg ing =
     list_ex (\<lambda>rule. ir_host rule \<noteq> [] \<and> TransformHostname cfg (ir_host rule) \<in> set hosts) (i_rules ing)"

definition firstSharedHostPath :: "string list \<Rightarrow> translator_config \<Rightarrow> ingress \<Rightarrow> string" where
  "firstSharedHostPath pairs cfg ing =
     (case List.find (\<lambda>p. pair_key p \<in> set pairs) (transformed_pairs cfg ing) of
        Some p \<Rightarrow> fst p @ '' '' @ snd p
      | None \<Rightarrow> [])"

definition isConflictCandidate :: "ingress_reconciler \<Rightarrow> ingress \<Rightarrow> ingress \<Rightarrow> bool" where
  "isConflictCandidate r sibling ing \<longleftrightarrow>
     i_name sibling \<noteq> i_name ing \<and> \<not> IsCanary sibling \<and> m_deletion (i_meta sibling) = None \<and>
     \<not> matchesIngressClassIgnoreFilter r sibling \<and> matchesIngressClassFilter r sibling \<and> isOlderIngress sibling ing"

fun suppress_keys ::
  "ingress_reconciler \<Rightarrow> ingress \<Rightarrow> ingress \<Rightarrow> string list \<Rightarrow> string list \<Rightarrow> world \<Rightarrow> string list \<times> world" where
  "suppress_keys r ing sibling [] suppress w = (suppress, w)"
| "suppress_keys r ing sibling (key # keys) suppress w =
     (if \<not> mhas (i_annotations ing) key \<or> \<not> mhas (i_annotations sibling) key then suppress_keys r ing sibling keys suppress w
      else case ServerOnlySnippetSuffix key of
             None \<Rightarrow> suppress_keys r ing sibling keys suppress w
           | Some sfx \<Rightarrow>
               if sfx \<in> set suppress then suppress_keys r ing sibling keys suppress w
               else suppress_keys r ing sibling keys (sfx # suppress)
                 (recordWarning r ''SnippetsDirectiveOverridden''
                    (''nginx annotation '' @ key @ '' on a shared host is owned by older Ingress '' @ i_namespace sibling @ ''/''
                     @ i_name sibling @ ''; ignoring here to avoid duplicate server directives'') w))"

definition suppressServerOnlyConflicts ::
  "ingress_reconciler \<Rightarrow> ingress \<Rightarrow> ingress \<Rightarrow> string list \<Rightarrow> world \<Rightarrow> string list \<times> world" where
  "suppressServerOnlyConflicts r ing sibling suppress w =
     suppress_keys r ing sibling ServerOnlySnippetAnnotationKeys suppress w"

fun conflict_loop ::
  "ingress_reconciler \<Rightarrow> ingress \<Rightarrow> ingress list \<Rightarrow> string list \<Rightarrow> world \<Rightarrow> string list \<times> world" where
  "conflict_loop r ing [] suppress w = (suppress, w)"
| "conflict_loop r ing (sibling # siblings) suppress w =
     (let cfg = getTranslator r
      in if \<not> isConflictCandidate r sibling ing \<or> \<not> sharesAnyHost (transformedHostSet cfg ing) cfg sibling
         then conflict_loop r ing siblings suppress w
         else let (suppress, w) = suppressServerOnlyConflicts r ing sibling suppress w;
                  overlap = firstSharedHostPath (transformedHostPathSet cfg ing) cfg sibling;
                  w = (if overlap \<noteq> []
                       then recordWarning r ''HostPathOverlap'' (''host+path '' @ Quote overlap @ '' is also served by older Ingress ''
                              @ i_namespace sibling @ ''/'' @ i_name sibling
                              @ ''; NGINX Gateway Fabric older-route-wins resolution applies'') w
                       else w)
              in conflict_loop r ing siblings suppress w)"

definition detectSnippetConflicts :: "server \<Rightarrow> ingress_reconciler \<Rightarrow> ingress \<Rightarrow> world \<Rightarrow> string list \<times> world" where
  "detectSnippetConflicts srv r ing w =
     (if i_annotations ing = [] then ([], w)
      else case listSiblingIngresses srv (i_namespace ing) w of
             (Inl e, w) \<Rightarrow> ([], w)
           | (Inr siblings, w) \<Rightarrow>
               if transformedHostSet (getTranslator r) ing = [] then ([], w) else conflict_loop r ing siblings [] w)"

section \<open>Extension references\<close>

definition HTTPRouteSnippetsFilterAnnotation :: string where
  "HTTPRouteSnippetsFilterAnnotation = ''ingress-doperator.fiction.si/httproute-snippets-filter''"

definition HTTPRouteAuthenticationAnnotation :: string where
  "HTTPRouteAuthenticationAnnotation = ''ingress-doperator.fiction.si/httproute-authentication-filter''"

definition HTTPRouteRequestHeaderAnnotation :: string where
  "HTTPRouteRequestHeaderAnnotation = ''ingress-doperator.fiction.si/httproute-request-header-modifier-filter''"

definition AuthProxySetHeadersAnnotation :: string where
  "AuthProxySetHeadersAnnotation = ''nginx.ingress.kubernetes.io/auth-proxy-set-headers''"

text \<open>The names of the resources that could be copied; one that fails is left out.\<close>

fun available_names ::
  "server \<Rightarrow> ingress_reconciler \<Rightarrow> ingress \<Rightarrow> string \<Rightarrow> string list \<Rightarrow> world \<Rightarrow> string list \<times> world" where
  "available_names srv r ing k [] w = ([], w)"
| "available_names srv r ing k (name # names) w =
     (let (res, w) = EnsureExtensionResource srv k name (rc_gatewayNamespace r) (i_namespace ing)
                       (i_namespace ing) (i_name ing) None w;
          (available, w) = available_names srv r ing k names w
      in (if res = Inr True then name # available else available, w))"

definition applyAnnotationExtensionRefs ::
  "server \<Rightarrow> ingress_reconciler \<Rightarrow> ingress \<Rightarrow> string \<Rightarrow> string \<Rightarrow> http_route \<Rightarrow> world \<Rightarrow> http_route \<times> world" where
  "applyAnnotationExtensionRefs srv r ing annotation k httpRoute w =
     (let (available, w) = available_names srv r ing k (ParseCommaSeparatedAnnotation (i_annotations ing) annotation) w
      in (if available \<noteq> [] then AddExtensionRefFilters httpRoute NginxGatewayGroup k available else httpRoute, w))"

definition mapping_matches :: "string \<Rightarrow> snippets_filter_mapping \<Rightarrow> bool" where
  "mapping_matches text mapping \<longleftrightarrow> sm_pattern mapping \<noteq> [] \<and> Match (sm_pattern mapping) text = Some True"

text \<open>The filters an Ingress asks for, in order and each once, less the ones a rule removes.\<close>

definition wanted_snippets :: "ingress_reconciler \<Rightarrow> ingress \<Rightarrow> string list" where
  "wanted_snippets r ing =
     (let order = collect_names []
            (map sm_name (filter (mapping_matches (class_of r ing)) (rc_classSnippets r))
             @ map sm_name (filter (mapping_matches (i_name ing)) (rc_nameSnippets r))
             @ ParseCommaSeparatedAnnotation (i_annotations ing) HTTPRouteSnippetsFilterAnnotation
             @ MatchIngressAnnotationSnippetsRules (i_annotations ing) (rc_annotationAdd r));
          removed = MatchIngressAnnotationSnippetsRules (i_annotations ing) (rc_annotationRemove r)
      in filter (\<lambda>name. name \<notin> set removed) order)"

fun copy_filters ::
  "server \<Rightarrow> ingress_reconciler \<Rightarrow> ingress \<Rightarrow> string list \<Rightarrow> http_route \<Rightarrow> world \<Rightarrow> http_route \<times> world" where
  "copy_filters srv r ing [] httpRoute w = (httpRoute, w)"
| "copy_filters srv r ing (name # names) httpRoute w =
     (case EnsureSnippetsFilterCopyForHTTPRoute srv (rc_gatewayNamespace r) (hr_namespace httpRoute)
             (i_namespace ing) (i_name ing) name w of
        (Inl e, w) \<Rightarrow> copy_filters srv r ing names httpRoute
          (recordWarning r ''SnippetsFilterCopyFailed''
             (''failed to copy SnippetsFilter '' @ name @ '' from '' @ rc_gatewayNamespace r) w)
      | (Inr True, w) \<Rightarrow> copy_filters srv r ing names
          (AddExtensionRefFilterAfterExistingKind httpRoute NginxGatewayGroup SnippetsFilterKind name) w
      | (Inr False, w) \<Rightarrow> copy_filters srv r ing names httpRoute
          (recordWarning r ''SnippetsFilterNotFound''
             (''SnippetsFilter '' @ name @ '' not found in namespace '' @ rc_gatewayNamespace r) w))"

text \<open>Both readers of the code, the cached client and the direct one, are the server here.\<close>

definition buildAuthInputs :: "server \<Rightarrow> ingress_reconciler \<Rightarrow> ingress \<Rightarrow> world \<Rightarrow> auth_inputs \<times> world" where
  "buildAuthInputs srv r ing w =
     (let inputs = \<lparr>ai_identifier = AuthIdentifier (i_namespace ing) (i_name ing), ai_proxySetHeaders = []\<rparr>;
          cmName = TrimSpace (mget (i_annotations ing) AuthProxySetHeadersAnnotation)
      in if cmName = [] then (inputs, w)
         else let (reply, w) = do_call srv (Get KConfigMap (i_namespace ing) cmName) w
              in case decode as_configmap reply of
                   Inl e \<Rightarrow>
                     (inputs, if e = NotFound
                        then recordWarning r ''AuthProxyConfigMapNotFound'' (''auth-proxy-set-headers ConfigMap ''
                               @ i_namespace ing @ ''/'' @ cmName @ '' not found'') w
                        else w)
                 | Inr cm \<Rightarrow> (inputs\<lparr>ai_proxySetHeaders := cm_data cm\<rparr>, w))"

definition snippet_json :: "snippet \<Rightarrow> json" where
  "snippet_json p = JObject [(''context'', JString (fst p)), (''value'', JString (snd p))]"

definition apply_generated ::
  "reconcile_env \<Rightarrow> ingress_reconciler \<Rightarrow> ingress \<Rightarrow> snippet list \<Rightarrow> http_route \<Rightarrow> world \<Rightarrow> http_route \<times> world" where
  "apply_generated env r ing snippets httpRoute w =
     (let filterName = AutomaticSnippetsFilterName (i_name ing);
          owner = (if rc_postProcessingMode r = IngressPostProcessingModeRemove then None else Some ing)
      in case EnsureSnippetsFilterForIngress (e_srv env) (e_setRef env) httpRoute owner (i_namespace ing) (i_name ing)
                filterName (map snippet_json snippets) w of
           (Inl e, w) \<Rightarrow>
             (httpRoute, recordWarning r ''AnnotationSnippetsFilterFailed''
                (''failed to apply annotation SnippetsFilter '' @ filterName) w)
         | (Inr ready, w) \<Rightarrow>
             (if ready then AddExtensionRefFilterAfterExistingKind httpRoute NginxGatewayGroup SnippetsFilterKind filterName
              else httpRoute, w))"

definition applySnippetsFilters ::
  "reconcile_env \<Rightarrow> ingress_reconciler \<Rightarrow> ingress \<Rightarrow> http_route \<Rightarrow> world \<Rightarrow> http_route \<times> world" where
  "applySnippetsFilters env r ing httpRoute w =
     (let srv = e_srv env;
          (httpRoute, w) = copy_filters srv r ing (wanted_snippets r ing) httpRoute w;
          (authInputs, w) = buildAuthInputs srv r ing w;
          (suppress, w) = detectSnippetConflicts srv r ing w
      in case fst (BuildNginxIngressSnippets (e_parse env) (i_annotations ing) authInputs suppress) of
           None \<Rightarrow> (httpRoute, w)
         | Some snippets \<Rightarrow> apply_generated env r ing snippets httpRoute w)"

definition applyHTTPRouteExtensionRefs ::
  "reconcile_env \<Rightarrow> ingress_reconciler \<Rightarrow> ingress \<Rightarrow> http_route \<Rightarrow> world \<Rightarrow> http_route \<times> world" where
  "applyHTTPRouteExtensionRefs env r ing httpRoute w =
     (let srv = e_srv env;
          (httpRoute, w) = applyAnnotationExtensionRefs srv r ing HTTPRouteAuthenticationAnnotation
             AuthenticationFilterKind httpRoute w;
          (httpRoute, w) = applyAnnotationExtensionRefs srv r ing HTTPRouteRequestHeaderAnnotation
             RequestHeaderModifierFilterKind httpRoute w
      in applySnippetsFilters env r ing httpRoute w)"

section \<open>Reconciling one Ingress\<close>

definition setHTTPRouteOwnerReference :: "http_route \<Rightarrow> ingress \<Rightarrow> http_route" where
  "setHTTPRouteOwnerReference httpRoute ing =
     httpRoute\<lparr>hr_meta := (hr_meta httpRoute)\<lparr>m_owners := [\<lparr>or_apiVersion = i_apiVersion ing, or_kind = i_kind ing,
       or_name = i_name ing, or_uid = m_uid (i_meta ing), or_controller = True, or_blockOwnerDeletion = False\<rparr>]\<rparr>\<rparr>"

text \<open>The \<open>HTTPRouteReconciler\<close> the code builds for the listeners; it has no post-processing mode.\<close>

definition listener_reconciler :: "ingress_reconciler \<Rightarrow> route_reconciler" where
  "listener_reconciler r = \<lparr>rr_gatewayNamespace = rc_gatewayNamespace r, rr_gatewayClassName = rc_gatewayClassName r,
     rr_hostnameRewriteFrom = rc_hostnameRewriteFrom r, rr_hostnameRewriteTo = rc_hostnameRewriteTo r,
     rr_postProcessingMode = []\<rparr>"

definition ensureGatewayForListenerUpdate ::
  "server \<Rightarrow> ingress_reconciler \<Rightarrow> string \<Rightarrow> world \<Rightarrow> (bool \<times> gateway) option go_result \<times> world" where
  "ensureGatewayForListenerUpdate srv r gatewayName w = find_gateway srv (listener_reconciler r) gatewayName w"

fun ensure_grants :: "nat \<Rightarrow> server \<Rightarrow> route_reconciler \<Rightarrow> http_route list \<Rightarrow> world \<Rightarrow> world option" where
  "ensure_grants n srv r [] w = Some w"
| "ensure_grants n srv r (route # routes) w =
     (case ensure_grant n srv r route w of None \<Rightarrow> None | Some w \<Rightarrow> ensure_grants n srv r routes w)"

definition merge_step ::
  "(string list \<Rightarrow> string list) \<Rightarrow> route_reconciler \<Rightarrow> ingress \<Rightarrow> http_route \<Rightarrow> gateway \<times> bool \<Rightarrow> gateway \<times> bool" where
  "merge_step ord r ing route acc =
     (let (gw, changed) = updateGatewayListeners ord r (fst acc) route ing in (gw, snd acc \<or> changed))"

definition update_for_routes ::
  "(string list \<Rightarrow> string list) \<Rightarrow> route_reconciler \<Rightarrow> ingress \<Rightarrow> http_route list \<Rightarrow> gateway \<Rightarrow> gateway \<times> bool" where
  "update_for_routes ord r ing routes gw = fold (merge_step ord r ing) routes (gw, False)"

text \<open>
  Writing the Gateway. \<open>Inr None\<close> lets the reconciliation go on; \<open>Inr (Some requeue)\<close> and an
  error end it.
\<close>

definition write_gateway :: "server \<Rightarrow> bool \<Rightarrow> gateway \<Rightarrow> world \<Rightarrow> bool option go_result \<times> world" where
  "write_gateway srv gatewayExists gw w =
     (let metric = (\<lambda>op. Metric GatewayResourcesTotal op (m_namespace (gw_meta gw)) (m_name (gw_meta gw)))
      in if gatewayExists
         then let (reply, w) = do_call srv (Update (OGateway gw)) w
              in case write_error reply of
                   Some e \<Rightarrow> (Inl (ApiError e), w)
                 | None \<Rightarrow> (Inr None, emit (metric ''update'') w)
         else if gw_listeners gw \<noteq> []
         then let (reply, w) = do_call srv (Create (OGateway gw)) w
              in case write_error reply of
                   Some e \<Rightarrow> (if e = AlreadyExists then Inr (Some True) else Inl (ApiError e), w)
                 | None \<Rightarrow> (Inr None, emit (metric ''create'') w)
         else (Inr None, w))"

definition update_listeners ::
  "reconcile_env \<Rightarrow> ingress_reconciler \<Rightarrow> string \<Rightarrow> ingress \<Rightarrow> http_route list \<Rightarrow> world
    \<Rightarrow> (bool option go_result \<times> world) option" where
  "update_listeners env r gatewayName ing httpRoutes w =
     (let srv = e_srv env; lr = listener_reconciler r
      in case ensureGatewayForListenerUpdate srv r gatewayName w of
           (Inl e, w) \<Rightarrow> Some (Inl e, w)
         | (Inr None, w) \<Rightarrow> Some (Inr (Some False), w)
         | (Inr (Some (gatewayExists, gw)), w) \<Rightarrow>
             (case ensure_grants (e_fuel env) srv lr httpRoutes w of
                None \<Rightarrow> None
              | Some w \<Rightarrow>
                  let (gw, updated) = update_for_routes (e_ordMismatch env) lr ing httpRoutes gw
                  in Some (if updated then write_gateway srv gatewayExists gw w else (Inr None, w))))"

type_synonym outcome = "bool go_result \<times> ingress \<times> ctl"

definition post_process :: "reconcile_env \<Rightarrow> ingress_reconciler \<Rightarrow> string \<Rightarrow> ingress \<Rightarrow> ctl \<Rightarrow> outcome" where
  "post_process env r mode ing s =
     (let success = (\<lambda>s. s\<lparr>ct_world :=
            recordNormal r ''ReconcileSuccess'' ''Ingress reconciled to HTTPRoute successfully'' (ct_world s)\<rparr>)
      in if mode = IngressPostProcessingModeRemove
         then let (res, ing, m, w) = removeIngress (e_srv env) (e_now env) ing (ct_selfDeleted s) (ct_world s);
                  s = s\<lparr>ct_world := w, ct_selfDeleted := m\<rparr>
              in case res of Inl e \<Rightarrow> (Inl e, ing, s) | Inr _ \<Rightarrow> (Inr False, ing, success s)
         else if mode = IngressPostProcessingModeDisable
         then let (res, ing, w) = disableIngress (e_srv env) (rc_clearStatus r) ing (ct_world s);
                  s = s\<lparr>ct_world := w\<rparr>
              in case res of Inl e \<Rightarrow> (Inl e, ing, s) | Inr _ \<Rightarrow> (Inr False, ing, success s)
         else (Inr False, ing, success s))"

definition gateway_for :: "ingress_reconciler \<Rightarrow> ingress \<Rightarrow> string" where
  "gateway_for r ing =
     (if rc_oneGatewayPerIngress r then i_name ing else getGatewayNameForClass (rc_gatewayName r) (class_of r ing))"

text \<open>The routes of an Ingress that is not a canary, ready to be written.\<close>

definition build_routes :: "reconcile_env \<Rightarrow> ingress_reconciler \<Rightarrow> ingress \<Rightarrow> world \<Rightarrow> http_route list \<times> world" where
  "build_routes env r ing w =
     (let cfg = (getTranslator r)\<lparr>GatewayName := gateway_for r ing\<rparr>;
          (canaries, w) = findCanarySiblings (e_srv env) r ing w;
          httpRoute = setHTTPRouteOwnerReference (TranslateToHTTPRouteWithCanaries cfg ing canaries) ing;
          (httpRoute, w) = applyHTTPRouteExtensionRefs env r ing httpRoute w;
          (httpRoute, w) = ResolveNamedPorts (e_srv env) ing httpRoute canaries w
      in (SplitHTTPRouteIfNeeded httpRoute, w))"

text \<open>The part of \<open>reconcileIngressToHTTPRoute\<close> after the canary branch.\<close>

definition reconcile_route :: "reconcile_env \<Rightarrow> ingress_reconciler \<Rightarrow> ingress \<Rightarrow> ctl \<Rightarrow> outcome option" where
  "reconcile_route env r ing s =
     (let (httpRoutes, w) = build_routes env r ing (ct_world s)
      in case ApplyHTTPRoutesAtomic (e_srv env) (Some HTTPRouteResourcesTotal) ing httpRoutes w of
           (Inl e, w) \<Rightarrow> Some (Inl e, ing, set_world w s)
         | (Inr _, w) \<Rightarrow>
             (case update_listeners env r (gateway_for r ing) ing httpRoutes w of
                None \<Rightarrow> None
              | Some (Inl e, w) \<Rightarrow> Some (Inl e, ing, set_world w s)
              | Some (Inr (Some requeue), w) \<Rightarrow> Some (Inr requeue, ing, set_world w s)
              | Some (Inr None, w) \<Rightarrow>
                  Some (post_process env r (resolveIngressPostProcessingMode r ing) ing (set_world w s))))"

text \<open>The tests in front: whether to go on.\<close>

definition synthesis_guards :: "reconcile_env \<Rightarrow> ingress_reconciler \<Rightarrow> ingress \<Rightarrow> ctl \<Rightarrow> bool \<times> ctl" where
  "synthesis_guards env r ing s =
     (case shouldIncludeIngressForSynthesis r (e_now env) ing s of
        (False, s) \<Rightarrow> (False, s)
      | (True, s) \<Rightarrow>
          if hasHostnames ing then (True, s)
          else (False, count ''no-hostnames'' ing (s\<lparr>ct_world := recordWarning r ''NoHostnames''
                  ''Ingress has no hostname rules and cannot be translated to Gateway API. Add spec.rules[].host fields.''
                  (ct_world s)\<rparr>)))"

text \<open>
  A canary reconciles its primaries, which are no canaries: the recursion of the code is one
  level deep, and the call for a primary is the function below.
\<close>

definition reconcile_primary :: "reconcile_env \<Rightarrow> ingress_reconciler \<Rightarrow> ingress \<Rightarrow> ctl \<Rightarrow> outcome option" where
  "reconcile_primary env r ing s =
     (case synthesis_guards env r ing s of
        (False, s) \<Rightarrow> Some (Inr False, ing, s)
      | (True, s) \<Rightarrow> reconcile_route env r ing s)"

fun reconcile_primaries ::
  "reconcile_env \<Rightarrow> ingress_reconciler \<Rightarrow> ingress list \<Rightarrow> ctl \<Rightarrow> (bool go_result \<times> ctl) option" where
  "reconcile_primaries env r [] s = Some (Inr False, s)"
| "reconcile_primaries env r (primary # primaries) s =
     (case reconcile_primary env r primary s of
        None \<Rightarrow> None
      | Some (Inl e, _, s) \<Rightarrow> Some (Inl e, s)
      | Some (Inr _, _, s) \<Rightarrow> reconcile_primaries env r primaries s)"

definition reconcileCanaryPrimaries ::
  "reconcile_env \<Rightarrow> ingress_reconciler \<Rightarrow> ingress \<Rightarrow> ctl \<Rightarrow> (bool go_result \<times> ctl) option" where
  "reconcileCanaryPrimaries env r canary s =
     (case listSiblingIngresses (e_srv env) (i_namespace canary) (ct_world s) of
        (Inl e, w) \<Rightarrow> Some (Inr True, set_world w s)
      | (Inr siblings, w) \<Rightarrow> reconcile_primaries env r (filter (is_primary_of r canary) siblings) (set_world w s))"

definition reconcileIngressToHTTPRoute ::
  "reconcile_env \<Rightarrow> ingress_reconciler \<Rightarrow> ingress \<Rightarrow> ctl \<Rightarrow> outcome option" where
  "reconcileIngressToHTTPRoute env r ing s =
     (case synthesis_guards env r ing s of
        (False, s) \<Rightarrow> Some (Inr False, ing, s)
      | (True, s) \<Rightarrow>
          if IsCanary ing
          then map_option (\<lambda>(res, s). (res, ing, s)) (reconcileCanaryPrimaries env r ing s)
          else reconcile_route env r ing s)"

section \<open>Deletion\<close>

definition finalizeDeletion :: "reconcile_env \<Rightarrow> ingress_reconciler \<Rightarrow> ingress \<Rightarrow> ctl \<Rightarrow> bool go_result \<times> ctl" where
  "finalizeDeletion env r ing s =
     (case removeFinalizer (e_srv env) ing (ct_world s) of
        (Inl e, _, w) \<Rightarrow> (Inl e, set_world w s)
      | (Inr _, ing, w) \<Rightarrow>
          let (cache, w) = evictReconcileCache (e_srv env) (rc_cache r) ing (ct_cache s) w
          in (Inr False, s\<lparr>ct_world := w, ct_cache := cache\<rparr>))"

definition shouldSkipDeletionCleanup ::
  "reconcile_env \<Rightarrow> ingress_reconciler \<Rightarrow> ingress \<Rightarrow> ctl \<Rightarrow> bool \<times> ctl" where
  "shouldSkipDeletionCleanup env r ing s =
     (if mget (i_annotations ing) IngressRemovedAnnotation = ''true'' then (True, snd (finalizeDeletion env r ing s))
      else let (self, m) = wasSelfDeleted (e_now env) ing (ct_selfDeleted s); s = s\<lparr>ct_selfDeleted := m\<rparr>
           in if self then (True, snd (finalizeDeletion env r ing s)) else (False, s))"

fun delete_managed :: "server \<Rightarrow> ingress \<Rightarrow> http_route list \<Rightarrow> world \<Rightarrow> unit go_result \<times> world" where
  "delete_managed srv ing [] w = (Inr (), w)"
| "delete_managed srv ing (route # routes) w =
     (if IsManagedByUsForIngress (hr_annotations route) (i_namespace ing) (i_name ing)
      then let (reply, w) = do_call srv (Delete KRoute (hr_namespace route) (hr_name route) False) w
           in if write_error reply \<notin> {None, Some NotFound}
              then (Inl (ApiError (the (write_error reply))), w)
              else delete_managed srv ing routes (emit (Metric HTTPRouteResourcesTotal ''delete'' (hr_namespace route) (hr_name route)) w)
      else delete_managed srv ing routes w)"

definition deleteManagedHTTPRoutes :: "server \<Rightarrow> ingress \<Rightarrow> world \<Rightarrow> unit go_result \<times> world" where
  "deleteManagedHTTPRoutes srv ing w =
     (case GetHTTPRoutesWithPrefix srv (i_namespace ing) (i_name ing) w of
        (Inl e, w) \<Rightarrow> (Inl (ApiError e), w)
      | (Inr routes, w) \<Rightarrow> delete_managed srv ing routes w)"

definition handleDeletion ::
  "reconcile_env \<Rightarrow> ingress_reconciler \<Rightarrow> ingress \<Rightarrow> ctl \<Rightarrow> (bool go_result \<times> ctl) option" where
  "handleDeletion env r ing s =
     (case shouldSkipDeletionCleanup env r ing s of
        (True, s) \<Rightarrow> Some (Inr False, s)
      | (False, s) \<Rightarrow>
          if IsCanary ing
          then (case reconcileCanaryPrimaries env r ing s of
                  None \<Rightarrow> None
                | Some (Inl e, s) \<Rightarrow> Some (Inl e, s)
                | Some (Inr _, s) \<Rightarrow> Some (finalizeDeletion env r ing s))
          else if \<not> rc_enableDeletion r then Some (finalizeDeletion env r ing s)
          else case deleteManagedHTTPRoutes (e_srv env) ing (ct_world s) of
                 (Inl e, w) \<Rightarrow> Some (Inl e, set_world w s)
               | (Inr _, w) \<Rightarrow> Some (finalizeDeletion env r ing (set_world w s)))"

section \<open>The reconcile loop\<close>

definition ensure_finalizer :: "server \<Rightarrow> ingress_reconciler \<Rightarrow> ingress \<Rightarrow> world \<Rightarrow> ingress result \<times> world" where
  "ensure_finalizer srv r ing w =
     (if rc_enableDeletion r \<and> \<not> ContainsString (m_finalizers (i_meta ing)) FinalizerName
      then let ing = ing\<lparr>i_meta := (i_meta ing)\<lparr>m_finalizers := m_finalizers (i_meta ing) @ [FinalizerName]\<rparr>\<rparr>;
               (reply, w) = do_call srv (Update (OIngress ing)) w
           in case write_error reply of
                Some e \<Rightarrow> (Inl e, w)
              | None \<Rightarrow> (Inr (after_write as_ingress reply ing), w)
      else (Inr ing, w))"

definition record_run :: "reconcile_env \<Rightarrow> ingress_reconciler \<Rightarrow> outcome \<Rightarrow> bool go_result \<times> ctl" where
  "record_run env r run =
     (case run of (res, ing, s) \<Rightarrow>
        let (cache, w) = maybeRecordReconcile (e_srv env) (rc_cache r) (e_ordCache env) (e_now env) ing
                           (res = Inr False) (ct_cache s) (ct_world s)
        in (res, s\<lparr>ct_world := w, ct_cache := cache\<rparr>))"

definition Ingress_Reconcile ::
  "reconcile_env \<Rightarrow> ingress_reconciler \<Rightarrow> string \<Rightarrow> string \<Rightarrow> ctl \<Rightarrow> (bool go_result \<times> ctl) option" where
  "Ingress_Reconcile env r ns name s =
     (let (reply, w) = do_call (e_srv env) (Get KIngress ns name) (ct_world s); s = set_world w s
      in case decode as_ingress reply of
           Inl e \<Rightarrow> Some (Inr (e \<noteq> NotFound), s)
         | Inr ing \<Rightarrow>
             (case shouldSkipIngress r (e_now env) ing s of
                (True, s) \<Rightarrow> Some (Inr False, s)
              | (False, s) \<Rightarrow>
                  if m_deletion (i_meta ing) \<noteq> None then handleDeletion env r ing s
                  else case ensure_finalizer (e_srv env) r ing (ct_world s) of
                         (Inl e, w) \<Rightarrow> Some (Inr True, set_world w s)
                       | (Inr ing, w) \<Rightarrow>
                           map_option (record_run env r) (reconcileIngressToHTTPRoute env r ing (set_world w s))))"

section \<open>Watches\<close>

text \<open>A reconcile request is a namespace and a name.\<close>

definition request_of :: "ingress \<Rightarrow> string \<times> string" where
  "request_of ing = (i_namespace ing, i_name ing)"

definition NamespaceFilter :: "string \<Rightarrow> string \<Rightarrow> bool" where
  "NamespaceFilter namespace objNamespace \<longleftrightarrow> objNamespace = namespace"

definition list_watched :: "server \<Rightarrow> ingress_reconciler \<Rightarrow> world \<Rightarrow> ingress list result \<times> world" where
  "list_watched srv r w = listSiblingIngresses srv (rc_watchNamespace r) w"

definition enqueueAllIngresses :: "server \<Rightarrow> ingress_reconciler \<Rightarrow> world \<Rightarrow> (string \<times> string) list \<times> world" where
  "enqueueAllIngresses srv r w =
     (case list_watched srv r w of
        (Inl e, w) \<Rightarrow> ([], w)
      | (Inr items, w) \<Rightarrow> (map request_of (filter (shouldEnqueueIngressByClass r) items), w))"

definition enqueueIngressesForAnnotation ::
  "server \<Rightarrow> ingress_reconciler \<Rightarrow> string \<Rightarrow> string \<Rightarrow> world \<Rightarrow> (string \<times> string) list \<times> world" where
  "enqueueIngressesForAnnotation srv r filterName annotationKey w =
     (case list_watched srv r w of
        (Inl e, w) \<Rightarrow> ([], w)
      | (Inr items, w) \<Rightarrow>
          (map request_of (filter (\<lambda>ing. shouldEnqueueIngressByClass r ing \<and>
             filterName \<in> set (ParseCommaSeparatedAnnotation (i_annotations ing) annotationKey)) items), w))"

fun dedupe_requests :: "(string \<times> string) list \<Rightarrow> (string \<times> string) list \<Rightarrow> (string \<times> string) list" where
  "dedupe_requests seen [] = []"
| "dedupe_requests seen (req # reqs) =
     (if req \<in> set seen then dedupe_requests seen reqs else req # dedupe_requests (req # seen) reqs)"

definition dedupeReconcileRequests :: "(string \<times> string) list \<Rightarrow> (string \<times> string) list" where
  "dedupeReconcileRequests reqs = (if length reqs \<le> 1 then reqs else dedupe_requests [] reqs)"

text \<open>One Ingress may be listed up to three times here: by class, by name and by a rule.\<close>

definition requests_by_config :: "ingress_reconciler \<Rightarrow> string \<Rightarrow> ingress \<Rightarrow> (string \<times> string) list" where
  "requests_by_config r filterName ing =
     (if \<not> shouldEnqueueIngressByClass r ing then []
      else (if list_ex (\<lambda>m. sm_name m = filterName \<and> mapping_matches (class_of r ing) m) (rc_classSnippets r)
            then [request_of ing] else [])
         @ (if list_ex (\<lambda>m. sm_name m = filterName \<and> mapping_matches (i_name ing) m) (rc_nameSnippets r)
            then [request_of ing] else [])
         @ (if filterName \<in> set (MatchIngressAnnotationSnippetsRules (i_annotations ing) (rc_annotationAdd r))
            then [request_of ing] else []))"

definition enqueueIngressesForSnippetsName ::
  "server \<Rightarrow> ingress_reconciler \<Rightarrow> string \<Rightarrow> world \<Rightarrow> (string \<times> string) list \<times> world" where
  "enqueueIngressesForSnippetsName srv r filterName w =
     (let (requests, w) = enqueueIngressesForAnnotation srv r filterName HTTPRouteSnippetsFilterAnnotation w
      in case list_watched srv r w of
           (Inl e, w) \<Rightarrow> (requests, w)
         | (Inr items, w) \<Rightarrow>
             (dedupeReconcileRequests (requests @ concat (map (requests_by_config r filterName) items)), w))"

text \<open>The object of an event is given by its name; \<open>None\<close> is the nil object.\<close>

definition enqueueIngressesForSnippetsFilter ::
  "server \<Rightarrow> ingress_reconciler \<Rightarrow> string option \<Rightarrow> world \<Rightarrow> (string \<times> string) list \<times> world" where
  "enqueueIngressesForSnippetsFilter srv r obj w =
     (case obj of
        None \<Rightarrow> enqueueAllIngresses srv r w
      | Some filterName \<Rightarrow> if filterName = [] then ([], w) else enqueueIngressesForSnippetsName srv r filterName w)"

definition enqueueIngressesForExtension ::
  "server \<Rightarrow> ingress_reconciler \<Rightarrow> string option \<Rightarrow> string \<Rightarrow> world \<Rightarrow> (string \<times> string) list \<times> world" where
  "enqueueIngressesForExtension srv r obj annotationKey w =
     (case obj of
        None \<Rightarrow> enqueueAllIngresses srv r w
      | Some filterName \<Rightarrow>
          if filterName = [] then ([], w) else enqueueIngressesForAnnotation srv r filterName annotationKey w)"

text \<open>
  The watches on extension resources that \<open>SetupWithManager\<close> registers: the installed kinds with
  their versions. An event passes the controller's event filter and the predicate of its watch,
  both of which see the namespace of the extension resource.
\<close>

fun register_watches :: "server \<Rightarrow> string list \<Rightarrow> world \<Rightarrow> (string \<times> string) list \<times> world" where
  "register_watches srv [] w = ([], w)"
| "register_watches srv (k # ks) w =
     (case extensionCRDNameForKind k of
        None \<Rightarrow> register_watches srv ks w
      | Some crdName \<Rightarrow>
          let (res, w) = GetCRDVersion srv crdName w; (watches, w) = register_watches srv ks w
          in (case res of Inr (Some version) \<Rightarrow> (version, k) # watches | _ \<Rightarrow> watches, w))"

definition SetupWithManager :: "server \<Rightarrow> world \<Rightarrow> (string \<times> string) list \<times> world" where
  "SetupWithManager srv w =
     register_watches srv [SnippetsFilterKind, AuthenticationFilterKind, RequestHeaderModifierFilterKind] w"

definition passes_event_filter :: "ingress_reconciler \<Rightarrow> string \<Rightarrow> bool" where
  "passes_event_filter r objNamespace \<longleftrightarrow>
     rc_watchNamespace r = [] \<or> NamespaceFilter (rc_watchNamespace r) objNamespace"

definition extension_event_passes :: "ingress_reconciler \<Rightarrow> string \<Rightarrow> bool" where
  "extension_event_passes r objNamespace \<longleftrightarrow>
     passes_event_filter r objNamespace \<and> objNamespace = rc_gatewayNamespace r"

section \<open>An example\<close>

definition example_ingress_controller :: ingress_reconciler where
  "example_ingress_controller = \<lparr>rc_gatewayNamespace = ''gateway'', rc_gatewayName = ''shared'', rc_gatewayClassName = [],
     rc_watchNamespace = [], rc_oneGatewayPerIngress = False, rc_enableDeletion = True, rc_hostnameRewriteFrom = [],
     rc_hostnameRewriteTo = [], rc_postProcessingMode = ''none'', rc_gatewayAnnotationFilters = [],
     rc_httpRouteAnnotationFilters = [], rc_defaultGatewayAnnotations = [], rc_infrastructureAnnotations = [],
     rc_infrastructureByClass = [], rc_classFilters = [''*''], rc_classIgnoreFilters = [], rc_classEmpty = [],
     rc_useIngress2Gateway = False, rc_provider = [], rc_providerClass = [], rc_classSnippets = [], rc_nameSnippets = [],
     rc_annotationAdd = [], rc_annotationRemove = [], rc_clearStatus = False,
     rc_cache = \<lparr>ReconcileCacheNamespace = [], ReconcileCacheBaseName = [], ReconcileCacheShards = 1,
       ReconcileCachePersist = False, ReconcileCacheMaxEntries = 0\<rparr>, rc_recorder = True\<rparr>"

definition example_env :: "obj list \<Rightarrow> reconcile_env" where
  "example_env init = \<lparr>e_srv = mem_server init, e_now = 0, e_parse = (\<lambda>_. None), e_setRef = None,
     e_ordMismatch = (\<lambda>xs. xs), e_ordCache = (\<lambda>xs. xs), e_fuel = 2\<rparr>"

definition example_ctl :: ctl where
  "example_ctl = \<lparr>ct_world = empty_world, ct_cache = None, ct_selfDeleted = []\<rparr>"

lemmas example_run_defs = example_ingress_controller_def example_env_def example_ctl_def empty_world_def

end
