(* ===== verification/Effects.thy ===== *)
theory Effects
  imports Ingress_Controller
begin

text \<open>
  Which kinds of objects an operation writes, or counts in a metric, whatever the server answers.
  The relation looks at the log only, so it composes along the calls of the code, and a kind outside the written ones
  is the same in the replayed store before and after.
\<close>

section \<open>Writing only some kinds\<close>

fun metric_kind :: "metric_vec \<Rightarrow> kind option" where
  "metric_kind GatewayResourcesTotal = Some KGateway"
| "metric_kind HTTPRouteResourcesTotal = Some KRoute"
| "metric_kind ReferenceGrantResourcesTotal = Some KGrant"
| "metric_kind IngressReconcileSkipsTotal = None"

fun call_kind :: "call \<Rightarrow> kind option" where
  "call_kind (Create x) = Some (obj_kind x)"
| "call_kind (Update x) = Some (obj_kind x)"
| "call_kind (UpdateStatus x) = Some (obj_kind x)"
| "call_kind (Delete k _ _ _) = Some k"
| "call_kind _ = None"

fun counted_kind :: "call \<Rightarrow> kind option" where
  "counted_kind (Metric counter _ _ _) = metric_kind counter"
| "counted_kind _ = None"

definition allowed :: "kind set \<Rightarrow> call \<Rightarrow> bool" where
  "allowed K c \<longleftrightarrow> (\<forall>k. call_kind c = Some k \<or> counted_kind c = Some k \<longrightarrow> k \<in> K)"

inductive only_log :: "kind set \<Rightarrow> call list \<Rightarrow> call list \<Rightarrow> bool" for K l where
  refl: "only_log K l l"
| step: "allowed K c \<Longrightarrow> only_log K l l' \<Longrightarrow> only_log K l (c # l')"

definition only :: "kind set \<Rightarrow> world \<Rightarrow> world \<Rightarrow> bool" where
  "only K w w' \<longleftrightarrow> only_log K (w_log w) (w_log w')"

lemma only_log_trans: "only_log K b c \<Longrightarrow> only_log K a b \<Longrightarrow> only_log K a c"
  by (induction rule: only_log.induct) (auto intro: only_log.step)

lemma only_log_mono: "only_log K a b \<Longrightarrow> K \<subseteq> K' \<Longrightarrow> only_log K' a b"
proof (induction rule: only_log.induct)
  case (step c l')
  then show ?case by (intro only_log.step) (auto simp: allowed_def)
qed (rule only_log.refl)

lemma only_refl [simp, intro]: "only K w w"
  by (simp add: only_def only_log.refl)

lemma only_trans [trans]: "only K w w' \<Longrightarrow> only K w' w'' \<Longrightarrow> only K w w''"
  unfolding only_def by (rule only_log_trans)

lemma only_mono: "only K w w' \<Longrightarrow> K \<subseteq> K' \<Longrightarrow> only K' w w'"
  unfolding only_def by (rule only_log_mono)

lemma only_emit [simp]: "only K w w' \<Longrightarrow> allowed K c \<Longrightarrow> only K w (emit c w')"
  by (simp add: only_def only_log.step)

lemma only_call [simp]: "only K w w' \<Longrightarrow> allowed K c \<Longrightarrow> only K w (snd (do_call srv c w'))"
  by (simp add: only_def only_log.step)

lemma only_crdVersions [simp]: "only K w (w'\<lparr>w_crdVersions := m\<rparr>) = only K w w'"
  by (simp add: only_def)

lemma allowed_simps [simp]:
  "allowed K (Create x) \<longleftrightarrow> obj_kind x \<in> K" "allowed K (Update x) \<longleftrightarrow> obj_kind x \<in> K"
  "allowed K (UpdateStatus x) \<longleftrightarrow> obj_kind x \<in> K" "allowed K (Delete k ns n b) \<longleftrightarrow> k \<in> K"
  "allowed K (Get k ns n)" "allowed K (ListAll k ns)" "allowed K (Event x1 x2 x3)"
  "allowed K (Metric GatewayResourcesTotal x1 x2 x3) \<longleftrightarrow> KGateway \<in> K" "allowed K (Metric HTTPRouteResourcesTotal x1 x2 x3) \<longleftrightarrow> KRoute \<in> K"
  "allowed K (Metric ReferenceGrantResourcesTotal x1 x2 x3) \<longleftrightarrow> KGrant \<in> K" "allowed K (Metric IngressReconcileSkipsTotal x1 x2 x3)"
  by (auto simp: allowed_def)

lemma stored_step_other:
  assumes "allowed K c" and "k \<notin> K"
  shows "stored (store_step c s) k ns n = stored s k ns n"
proof (cases c)
  case (Create x)
  then show ?thesis using assms
    by (cases "list_ex (same_obj x) s") (auto simp: stored_def obj_is_def store_step.simps(1))
next
  case (Update x)
  have "map (\<lambda>y. if same_obj x y then x else y) s = s" if "\<not> list_ex (same_obj x) s"
    using that by (induction s) auto
  moreover have "\<not> obj_is k ns n x" using assms Update by (auto simp: obj_is_def)
  ultimately show ?thesis
    using stored_Update [of x s k ns n] Update by (cases "list_ex (same_obj x) s") (simp_all add: store_step.simps(2))
qed (use assms in auto)

lemma only_log_other: "only_log K a b \<Longrightarrow> k \<notin> K \<Longrightarrow> stored (store_of init b) k ns n = stored (store_of init a) k ns n"
  by (induction rule: only_log.induct) (auto simp: stored_step_other)

lemma only_other: "only K w w' \<Longrightarrow> k \<notin> K \<Longrightarrow> stored_in init w' k ns n = stored_in init w k ns n"
  unfolding only_def by (rule only_log_other)

text \<open>
  The contract of an operation that writes only the kinds \<open>K\<close>: it can be put behind any run
  that writes at most as much.
\<close>

locale frame =
  fixes run :: "world \<Rightarrow> 'r \<times> world" and K :: "kind set"
  assumes writes_only: "only K w (snd (run w))"
begin

lemma after [simp]: "only K' w w' \<Longrightarrow> K \<subseteq> K' \<Longrightarrow> only K' w (snd (run w'))"
  by (rule only_trans [OF _ only_mono [OF writes_only]])

end

section \<open>What each operation writes\<close>

definition filter_kinds :: "kind set" where
  "filter_kinds = {KUnstructured v k | v k. True}"

lemma in_filter_kinds [simp]:
  "KUnstructured v k \<in> filter_kinds" "KRoute \<notin> filter_kinds" "KGateway \<notin> filter_kinds" "KGrant \<notin> filter_kinds"
  "KIngress \<notin> filter_kinds" "KService \<notin> filter_kinds" "KConfigMap \<notin> filter_kinds" "KIngressClass \<notin> filter_kinds"
  by (auto simp: filter_kinds_def)

lemmas frame_simps = Let_def case_prod_beta

lemma only_recordWarning [simp]: "only K w w' \<Longrightarrow> only K w (recordWarning r a b w')"
  by (simp add: recordWarning_def)

lemma only_recordNormal [simp]: "only K w w' \<Longrightarrow> only K w (recordNormal r a b w')"
  by (simp add: recordNormal_def)

interpretation gv: frame "getCRDVersion srv c" "{}" for srv c
  by unfold_locales (simp add: getCRDVersion_def frame_simps split: sum.split option.split)

interpretation wm: frame "write_managed srv what merge d" filter_kinds for srv what merge d
  by unfold_locales (simp add: write_managed_def frame_simps split: sum.split option.split)

interpretation dc: frame "delete_copy srv v ns n" filter_kinds for srv v ns n
  by unfold_locales (simp add: delete_copy_def frame_simps split: sum.split option.split)

interpretation es: frame "EnsureSnippetsFilterForIngress srv setRef route owner ns n f sn" filter_kinds
  for srv setRef route owner ns n f sn
  by unfold_locales (simp add: EnsureSnippetsFilterForIngress_def frame_simps split: sum.split option.split)

interpretation ek: frame "EnsureSnippetsFilterCopyForHTTPRoute srv a b ns n f" filter_kinds for srv a b ns n f
  by unfold_locales (simp add: EnsureSnippetsFilterCopyForHTTPRoute_def frame_simps split: sum.split option.split)

interpretation er: frame "EnsureExtensionResource srv k name a b ns n ref" filter_kinds for srv k name a b ns n ref
  by unfold_locales (simp add: EnsureExtensionResource_def frame_simps split: sum.split option.split)

interpretation ls: frame "listSiblingIngresses srv ns" "{}" for srv ns
  by unfold_locales (simp add: listSiblingIngresses_def frame_simps)

interpretation fc: frame "findCanarySiblings srv r primary" "{}" for srv r primary
  by unfold_locales (simp add: findCanarySiblings_def frame_simps split: sum.split)

lemma only_suppress_keys: "only K w w' \<Longrightarrow> only K w (snd (suppress_keys r ing sibling keys suppress w'))"
  by (induction keys arbitrary: suppress w') (simp_all split: option.split)

lemma only_conflict_loop: "only K w w' \<Longrightarrow> only K w (snd (conflict_loop r ing siblings suppress w'))"
  by (induction siblings arbitrary: suppress w')
     (simp_all add: frame_simps suppressServerOnlyConflicts_def only_suppress_keys)

interpretation ds: frame "detectSnippetConflicts srv r ing" "{}" for srv r ing
  by unfold_locales (simp add: detectSnippetConflicts_def frame_simps only_conflict_loop split: sum.split)

interpretation ba: frame "buildAuthInputs srv r ing" "{}" for srv r ing
  by unfold_locales (simp add: buildAuthInputs_def frame_simps split: sum.split)

interpretation cf: frame "copy_filters srv r ing names route" filter_kinds for srv r ing names route
proof
  fix w
  have "only filter_kinds w w' \<Longrightarrow> only filter_kinds w (snd (copy_filters srv r ing names route w'))" for w'
    by (induction names arbitrary: route w') (simp_all add: frame_simps split: sum.split bool.split)
  then show "only filter_kinds w (snd (copy_filters srv r ing names route w))" by simp
qed

interpretation an: frame "available_names srv r ing k names" filter_kinds for srv r ing k names
proof
  fix w
  have "only filter_kinds w w' \<Longrightarrow> only filter_kinds w (snd (available_names srv r ing k names w'))" for w'
    by (induction names arbitrary: w') (simp_all add: frame_simps)
  then show "only filter_kinds w (snd (available_names srv r ing k names w))" by simp
qed

interpretation aa: frame "applyAnnotationExtensionRefs srv r ing annotation k route" filter_kinds
  for srv r ing annotation k route
  by unfold_locales (simp add: applyAnnotationExtensionRefs_def frame_simps)

interpretation ag: frame "apply_generated env r ing snippets route" filter_kinds for env r ing snippets route
  by unfold_locales (simp add: apply_generated_def frame_simps split: sum.split)

interpretation sf: frame "applySnippetsFilters env r ing route" filter_kinds for env r ing route
  by unfold_locales (simp add: applySnippetsFilters_def frame_simps split: option.split)

interpretation ae: frame "applyHTTPRouteExtensionRefs env r ing route" filter_kinds for env r ing route
  by unfold_locales (simp add: applyHTTPRouteExtensionRefs_def frame_simps)

interpretation rsp: frame "resolveServicePort srv ns svc port" "{}" for srv ns svc port
  by unfold_locales (simp add: resolveServicePort_def frame_simps split: sum.split option.split)

interpretation rref: frame "resolve_ref srv ns sources ref" "{}" for srv ns sources ref
  by unfold_locales (simp add: resolve_ref_def frame_simps split: sum.split)

lemma only_map_world:
  "(\<And>x v. only K w v \<Longrightarrow> only K w (snd (f x v))) \<Longrightarrow> only K w v \<Longrightarrow> only K w (snd (map_world f xs v))"
  by (induction xs arbitrary: v) (simp_all add: frame_simps)

interpretation np: frame "ResolveNamedPorts srv ing route extra" "{}" for srv ing route extra
  by unfold_locales (simp add: ResolveNamedPorts_def frame_simps only_map_world)

interpretation br: frame "build_routes env r ing" filter_kinds for env r ing
  by unfold_locales (simp add: build_routes_def frame_simps)

lemma only_record_metric [simp]:
  "only K w w' \<Longrightarrow> allowed K (Metric counter op ns n) \<Longrightarrow> only K w (record_metric (Some counter) op ns n w')"
  by (simp add: record_metric_def)

interpretation cu: frame "CanUpdateResource srv as ann k ns name" "{}" for srv as ann k ns name
  by unfold_locales (simp add: CanUpdateResource_def frame_simps split: sum.split)

interpretation fg: frame "find_gateway srv r gatewayName" "{}" for srv r gatewayName
  by unfold_locales (simp add: find_gateway_def frame_simps split: sum.split bool.split option.split)

interpretation wg: frame "write_gateway srv exists gw" "{KGateway}" for srv "exists" gw
  by unfold_locales (simp add: write_gateway_def frame_simps split: option.split)

lemma only_ensureReferenceGrant:
  "ensureReferenceGrant n srv r route w' = Some (res, w'') \<Longrightarrow> only {KGrant} w w' \<Longrightarrow> only {KGrant} w w''"
  by (induction n arbitrary: w') (auto simp: frame_simps split: sum.splits option.splits if_splits)

lemma only_ensure_grants:
  "ensure_grants n srv r routes w' = Some w'' \<Longrightarrow> only {KGrant} w w' \<Longrightarrow> only {KGrant} w w''"
proof (induction routes arbitrary: w')
  case (Cons route routes)
  then show ?case
    using only_ensureReferenceGrant [of n srv r route w' _ _ w]
    by (fastforce simp: ensure_grant_def split: option.splits if_splits)
qed simp

interpretation rf: frame "\<lambda>w. ((), snd (snd (removeFinalizer srv ing w)))" "{KIngress}" for srv ing
  by unfold_locales (simp add: removeFinalizer_def frame_simps split: option.split)

interpretation dso: frame "delete_source srv ing" "{KIngress}" for srv ing
  by unfold_locales (simp add: delete_source_def frame_simps split: option.split)

interpretation ri: frame "\<lambda>w. ((), snd (snd (snd (removeIngress srv now ing m w))))" "{KIngress}" for srv now ing m
  by unfold_locales (simp add: removeIngress_def frame_simps split: option.split)

interpretation ed: frame "ensureDisabledIngressClass srv" "{KIngressClass}" for srv
  by unfold_locales (simp add: ensureDisabledIngressClass_def frame_simps split: sum.split option.split)

lemma only_clear_status: "KIngress \<in> K \<Longrightarrow> only K w w' \<Longrightarrow> only K w (snd (snd (clear_status_loop srv n ing w')))"
  by (induction n arbitrary: ing w') (simp_all add: frame_simps split: sum.split option.split)

interpretation di: frame "\<lambda>w. ((), snd (snd (disableIngress srv clear ing w)))" "{KIngress, KIngressClass}" for srv clear ing
  by unfold_locales
     (simp add: disableIngress_def clearIngressStatus_def frame_simps only_clear_status split: sum.split option.split)

lemma only_save_shards: "KConfigMap \<in> K \<Longrightarrow> only K w w' \<Longrightarrow> only K w (snd (save_shards srv ns base sh shards w'))"
  by (induction shards arbitrary: w') (simp_all add: save_shard_def frame_simps split: sum.split option.split)

lemma only_persist: "KConfigMap \<in> K \<Longrightarrow> only K w w' \<Longrightarrow> only K w (persist_cache srv cc c w')"
  by (simp add: persist_cache_def SaveReconcileCacheSharded_def only_save_shards frame_simps)

interpretation mr: frame "maybeRecordReconcile srv cc ord now ing ok cache" "{KConfigMap}" for srv cc ord now ing ok cache
  by unfold_locales (simp add: maybeRecordReconcile_def only_persist frame_simps split: option.split)

interpretation ev: frame "evictReconcileCache srv cc ing cache" "{KConfigMap}" for srv cc ing cache
  by unfold_locales (simp add: evictReconcileCache_def only_persist frame_simps split: option.split)

lemma only_post_process:
  "only {KIngress, KIngressClass} (ct_world s) (ct_world (snd (snd (post_process env r mode ing s))))"
  using ri.after [of "{KIngress, KIngressClass}"] di.after [of "{KIngress, KIngressClass}"]
  by (simp add: post_process_def frame_simps split: sum.split)

end
