(* ===== verification/Ingress_Properties.thy ===== *)
theory Ingress_Properties
  imports Effects
begin

text \<open>
  What a run of the Ingress controller achieves against a store that keeps its writes, and what
  keeps it from running at all.
\<close>

section \<open>Listeners for the routes of an Ingress\<close>

definition has_listener :: "gateway \<Rightarrow> string \<Rightarrow> bool" where
  "has_listener gw h \<longleftrightarrow> (\<exists>l \<in> set (gw_listeners gw). l_hostname l = Some h)"

lemma has_listener_first_for: "has_listener gw h \<longleftrightarrow> first_for (gw_listeners gw) h \<noteq> None"
  by (auto simp: has_listener_def first_for_def find_None_iff)

lemma merge_keeps_listener:
  assumes "has_listener gw h"
  shows "has_listener (fst (updateGatewayListeners ord r gw route ing)) h"
proof -
  let ?ls = "gw_listeners gw" and ?ls' = "gw_listeners (fst (updateGatewayListeners ord r gw route ing))"
  have all2: "list_all2 extends ?ls (take (length ?ls) ?ls')"
    using updateGatewayListeners_merge [of ord r gw route ing] by (simp add: Let_def case_prod_beta)
  obtain i where i: "i < length ?ls" "l_hostname (?ls ! i) = Some h"
    using assms by (auto simp: has_listener_def in_set_conv_nth)
  have "l_hostname (take (length ?ls) ?ls' ! i) = Some h" "take (length ?ls) ?ls' ! i \<in> set ?ls'"
    using list_all2_nthD [OF all2 i(1)] i list_all2_lengthD [OF all2]
    by (simp add: extends_def, intro in_set_takeD [OF nth_mem], simp)
  then show ?thesis by (auto simp: has_listener_def)
qed

lemma merge_adds_listener:
  "h \<in> set (hr_hostnames route) \<Longrightarrow> has_listener (fst (updateGatewayListeners ord r gw route ing)) h"
  using updateGatewayListeners_merge [of ord r gw route ing]
  by (simp add: has_listener_first_for Let_def case_prod_beta)

lemma merge_unchanged:
  "\<not> snd (updateGatewayListeners ord r gw route ing) \<Longrightarrow> fst (updateGatewayListeners ord r gw route ing) = gw"
  using updateGatewayListeners_merge [of ord r gw route ing] by (simp add: Let_def case_prod_beta)

lemma merge_managed: "IsManagedByUs (gw_annotations (fst (updateGatewayListeners ord r gw route ing))) = IsManagedByUs (gw_annotations gw)"
  by (simp add: updateGatewayListeners_def IsManagedByUs_def mget_def MismatchedCertAnnotation_def ManagedByAnnotation_def
      Let_def case_prod_beta)

lemma merge_steps:
  fixes b :: bool
  shows "has_listener gw h \<Longrightarrow> has_listener (fst (fold (merge_step ord r ing) routes (gw, b))) h"
    and "route \<in> set routes \<Longrightarrow> h \<in> set (hr_hostnames route) \<Longrightarrow>
      has_listener (fst (fold (merge_step ord r ing) routes (gw, b))) h"
    and "\<not> snd (fold (merge_step ord r ing) routes (gw, b)) \<Longrightarrow>
      fst (fold (merge_step ord r ing) routes (gw, b)) = gw \<and> \<not> b"
    and "m_namespace (gw_meta (fst (fold (merge_step ord r ing) routes (gw, b)))) = m_namespace (gw_meta gw)"
    and "m_name (gw_meta (fst (fold (merge_step ord r ing) routes (gw, b)))) = m_name (gw_meta gw)"
    and "IsManagedByUs (gw_annotations (fst (fold (merge_step ord r ing) routes (gw, b)))) = IsManagedByUs (gw_annotations gw)"
proof (induction routes arbitrary: gw b)
  case (Cons x routes)
  have step: "fold (merge_step ord r ing) (x # routes) (gw, b) = fold (merge_step ord r ing) routes
      (fst (updateGatewayListeners ord r gw x ing), b \<or> snd (updateGatewayListeners ord r gw x ing))" for gw b
    by (simp add: merge_step_def case_prod_beta Let_def)
  {
    case 1 then show ?case unfolding step by (intro Cons.IH(1) merge_keeps_listener)
  next
    case 2 then show ?case unfolding step
      using Cons.IH(1) [OF merge_adds_listener [of h x]] Cons.IH(2) by fastforce
  next
    case 3
    note u = this [unfolded step]
    show ?case unfolding step using Cons.IH(3) [OF u] merge_unchanged [of ord r gw x ing] by metis
  next
    case 4 show ?case unfolding step by (simp add: Cons.IH(4))
  next
    case 5 show ?case unfolding step by (simp add: Cons.IH(5))
  next
    case 6 show ?case unfolding step by (simp add: Cons.IH(6) merge_managed)
  }
qed simp_all

lemma update_for_routes_hosts:
  assumes "update_for_routes ord r ing routes gw = (gw', updated)"
  shows "route \<in> set routes \<Longrightarrow> h \<in> set (hr_hostnames route) \<Longrightarrow> has_listener gw' h"
    and "\<not> updated \<Longrightarrow> gw' = gw"
    and "m_namespace (gw_meta gw') = m_namespace (gw_meta gw)" "m_name (gw_meta gw') = m_name (gw_meta gw)"
    and "IsManagedByUs (gw_annotations gw') = IsManagedByUs (gw_annotations gw)"
  using merge_steps(2) [of route routes h ord r ing gw False] merge_steps(3-6) [of ord r ing routes gw False] assms
  unfolding update_for_routes_def by (metis fst_conv snd_conv)+

lemma ensure_grants_mem:
  "\<exists>w'. ensure_grants 2 (mem_server init) r routes w = Some w' \<and> only {KGrant} w w'"
proof -
  have "\<exists>w'. ensure_grants 2 (mem_server init) r routes w = Some w'"
  proof (induction routes arbitrary: w)
    case (Cons route routes)
    then show ?case using ensure_grant_mem [of init r route w] by auto
  qed simp
  then show ?thesis using only_ensure_grants by fastforce
qed

text \<open>The Gateway at a name, and whether the operator may write there.\<close>

abbreviation gateway_in :: "obj list \<Rightarrow> world \<Rightarrow> ingress_reconciler \<Rightarrow> string \<Rightarrow> obj option" where
  "gateway_in init w r g \<equiv> stored_in init w KGateway (rc_gatewayNamespace r) g"

definition may_manage :: "obj option \<Rightarrow> bool" where
  "may_manage x \<longleftrightarrow> (case x of None \<Rightarrow> True | Some y \<Rightarrow> IsManagedByUs (obj_annotations y))"

lemma listener_reconciler_sel [simp]: "rr_gatewayNamespace (listener_reconciler r) = rc_gatewayNamespace r"
  by (simp add: listener_reconciler_def)

lemma find_gateway_mem:
  assumes "may_manage (gateway_in init w r g)"
  shows "\<exists>gw w'. ensureGatewayForListenerUpdate (mem_server init) r g w =
      (Inr (Some (gateway_in init w r g \<noteq> None, gw)), w') \<and> only {} w w' \<and>
    m_namespace (gw_meta gw) = rc_gatewayNamespace r \<and> m_name (gw_meta gw) = g \<and>
    IsManagedByUs (gw_annotations gw) \<and> (gateway_in init w r g = None \<longrightarrow> gw_listeners gw = []) \<and>
    (gateway_in init w r g \<noteq> None \<longrightarrow> gateway_in init w r g = Some (OGateway gw))"
proof (cases "gateway_in init w r g")
  case None
  then show ?thesis
    by (simp add: ensureGatewayForListenerUpdate_def find_gateway_def do_call_def decode_def createInitialGateway_def only_def
        only_log.intros IsManagedByUs_def mget_def)
next
  case (Some x)
  then obtain gw where x: "x = OGateway gw" and key: "m_namespace (gw_meta gw) = rc_gatewayNamespace r" "m_name (gw_meta gw) = g"
    using stored_is [OF Some] obj_is_cases(4) by fastforce
  then show ?thesis
    using assms Some
    by (simp add: ensureGatewayForListenerUpdate_def find_gateway_def CanUpdateResource_def do_call_def decode_def
        may_manage_def only_def only_log.intros)
qed

lemma update_listeners_mem:
  assumes "e_srv env = mem_server init" and "e_fuel env = 2" and "may_manage (gateway_in init w r g)"
    and "route \<in> set routes" and "hr_hostnames route \<noteq> []"
  shows "\<exists>gw w'. update_listeners env r g ing routes w = Some (Inr None, w') \<and> only {KGrant, KGateway} w w' \<and>
    gateway_in init w' r g = Some (OGateway gw) \<and> IsManagedByUs (gw_annotations gw) \<and>
    (\<forall>route \<in> set routes. \<forall>h \<in> set (hr_hostnames route). has_listener gw h)"
proof -
  obtain gw w1 where find: "ensureGatewayForListenerUpdate (mem_server init) r g w =
      (Inr (Some (gateway_in init w r g \<noteq> None, gw)), w1)" and w1: "only {} w w1"
    and key: "m_namespace (gw_meta gw) = rc_gatewayNamespace r" "m_name (gw_meta gw) = g"
    and ours: "IsManagedByUs (gw_annotations gw)"
    and new: "gateway_in init w r g = None \<Longrightarrow> gw_listeners gw = []"
    and old: "gateway_in init w r g \<noteq> None \<Longrightarrow> gateway_in init w r g = Some (OGateway gw)"
    using find_gateway_mem [OF assms(3)] by metis
  obtain w2 where grants: "ensure_grants 2 (mem_server init) (listener_reconciler r) routes w1 = Some w2"
    and w2: "only {KGrant} w1 w2" using ensure_grants_mem by blast
  obtain gw' updated where upd: "update_for_routes (e_ordMismatch env) (listener_reconciler r) ing routes gw = (gw', updated)"
    by fastforce
  note hosts = update_for_routes_hosts [OF upd]
  have here: "gateway_in init w2 r g = gateway_in init w r g"
    using only_other [OF w1] only_other [OF w2] by simp
  have run: "update_listeners env r g ing routes w =
      Some (if updated then write_gateway (mem_server init) (gateway_in init w r g \<noteq> None) gw' w2 else (Inr None, w2))"
    using assms(1,2) find grants upd by (simp add: update_listeners_def)
  have frame: "only {KGrant, KGateway} w (snd (if updated
      then write_gateway (mem_server init) (gateway_in init w r g \<noteq> None) gw' w2 else (Inr None, w2)))"
    using only_trans [OF only_mono [OF w1] only_mono [OF w2], of "{KGrant, KGateway}"] by simp
  obtain h where "h \<in> set (hr_hostnames route)" using assms(5) by (cases "hr_hostnames route") auto
  then have some: "gw_listeners gw' \<noteq> []" using hosts(1) [OF assms(4)] by (auto simp: has_listener_def)
  have key': "m_namespace (gw_meta gw') = rc_gatewayNamespace r" "m_name (gw_meta gw') = g"
    using hosts(3,4) key by simp_all
  have "\<exists>w'. (if updated then write_gateway (mem_server init) (gateway_in init w r g \<noteq> None) gw' w2 else (Inr None, w2)) =
      (Inr None, w') \<and> gateway_in init w' r g = Some (OGateway gw')"
  proof (cases "gateway_in init w r g = None")
    case True
    then have "updated" using new some hosts(2) by auto
    moreover have "\<not> list_ex (same_obj (OGateway gw')) (store_of init (w_log w2))"
      using True here key' by (simp add: list_ex_same_obj)
    ultimately show ?thesis
      using True some key' by (simp add: write_gateway_def do_call_def write_error_def Let_def stored_Create)
  next
    case False
    then have "list_ex (same_obj (OGateway gw')) (store_of init (w_log w2))"
      using here key' by (simp add: list_ex_same_obj)
    then show ?thesis
      using False here old key' hosts(2)
      by (auto simp: write_gateway_def do_call_def write_error_def Let_def stored_Update)
  qed
  then show ?thesis using run frame hosts(1,5) ours by auto
qed

section \<open>The routes of an Ingress\<close>

text \<open>Extension references and named ports change nothing but the rules of a route.\<close>

definition bare :: "http_route \<Rightarrow> http_route" where
  "bare route = route\<lparr>hr_rules := []\<rparr>"

lemma bare_add_ref [simp]: "bare (AddExtensionRefFilterAfterExistingKind route grp k name) = bare route"
  by (simp add: AddExtensionRefFilterAfterExistingKind_def bare_def)

lemma bare_annotation_refs [simp]: "bare (fst (applyAnnotationExtensionRefs srv r ing a k route w)) = bare route"
  by (simp add: applyAnnotationExtensionRefs_def AddExtensionRefFilters_def bare_def case_prod_beta Let_def)

lemma bare_copy_filters [simp]: "bare (fst (copy_filters srv r ing names route w)) = bare route"
  by (induction names arbitrary: route w) (simp_all add: case_prod_beta split: sum.split bool.split)

lemma bare_generated [simp]: "bare (fst (apply_generated env r ing snippets route w)) = bare route"
  by (simp add: apply_generated_def case_prod_beta Let_def split: sum.split)

lemma bare_extension_refs [simp]: "bare (fst (applyHTTPRouteExtensionRefs env r ing route w)) = bare route"
  by (simp add: applyHTTPRouteExtensionRefs_def applySnippetsFilters_def case_prod_beta Let_def split: option.split)

lemma bare_named_ports [simp]: "bare (fst (ResolveNamedPorts srv ing route extra w)) = bare route"
  by (simp add: ResolveNamedPorts_def bare_def case_prod_beta Let_def)

lemma bare_sel:
  "bare a = bare b \<Longrightarrow> hr_meta a = hr_meta b" "bare a = bare b \<Longrightarrow> hr_hostnames a = hr_hostnames b"
  "bare a = bare b \<Longrightarrow> hr_parentRefs a = hr_parentRefs b"
proof -
  have "hr_meta (bare c) = hr_meta c" "hr_hostnames (bare c) = hr_hostnames c" "hr_parentRefs (bare c) = hr_parentRefs c" for c
    by (simp_all add: bare_def)
  then show "bare a = bare b \<Longrightarrow> hr_meta a = hr_meta b" "bare a = bare b \<Longrightarrow> hr_hostnames a = hr_hostnames b"
    "bare a = bare b \<Longrightarrow> hr_parentRefs a = hr_parentRefs b"
    by metis+
qed

definition attached :: "ingress_reconciler \<Rightarrow> ingress \<Rightarrow> http_route \<Rightarrow> bool" where
  "attached r ing route \<longleftrightarrow> hr_hostnames route = route_hostnames (getTranslator r) ing \<and>
     hr_parentRefs route = map (\<lambda>h. \<lparr>pr_name = gateway_for r ing, pr_namespace = Some (rc_gatewayNamespace r),
       pr_sectionName = Some h\<rparr>) (hr_hostnames route)"

lemma route_hostnames_name: "route_hostnames (cfg\<lparr>GatewayName := g\<rparr>) ing = route_hostnames cfg ing"
  by (simp add: route_hostnames_def TransformHostname_def cong: if_cong)

lemma gateway_namespace: "GatewayNamespace (getTranslator r) = rc_gatewayNamespace r"
  by (simp add: getTranslator_def)

lemma build_routes_parts:
  assumes "build_routes env r ing w = (routes, w')"
  shows "route \<in> set routes \<Longrightarrow> attached r ing route \<and> hr_namespace route = i_namespace ing \<and> m_deletion (hr_meta route) = None"
    and "routes \<noteq> []" and "hr_name (hd routes) = i_name ing"
    and "distinct (map (\<lambda>d. (hr_namespace d, hr_name d)) routes)"
proof -
  obtain whole canaries where routes: "routes = SplitHTTPRouteIfNeeded whole"
    and bare: "bare whole = bare (setHTTPRouteOwnerReference
      (TranslateToHTTPRouteWithCanaries ((getTranslator r)\<lparr>GatewayName := gateway_for r ing\<rparr>) ing canaries) ing)"
    using assms by (auto simp: build_routes_def Let_def case_prod_beta)
  note split = SplitHTTPRoute_split [of whole]
  have whole: "attached r ing whole" "hr_namespace whole = i_namespace ing" "hr_name whole = i_name ing"
    "m_deletion (hr_meta whole) = None"
    using bare_sel [OF bare]
    by (simp_all add: attached_def setHTTPRouteOwnerReference_def TranslateToHTTPRouteWithCanaries_def Let_def
        route_hostnames_name empty_meta_def gateway_namespace split: prod.splits)
  have meta: "hr_namespace route = hr_namespace whole \<and> m_deletion (hr_meta route) = m_deletion (hr_meta whole)"
    if "route \<in> set routes" for route
  proof -
    have "(hr_meta route)\<lparr>m_name := hr_name whole\<rparr> = hr_meta whole" using that split routes by blast
    from arg_cong [OF this, of m_namespace] arg_cong [OF this, of m_deletion] show ?thesis by simp
  qed
  show "attached r ing route \<and> hr_namespace route = i_namespace ing \<and> m_deletion (hr_meta route) = None" if "route \<in> set routes" for route
    using that meta whole split routes by (auto simp: attached_def)
  show "routes \<noteq> []"
  proof
    assume "routes = []"
    moreover from this have "hr_rules whole = []" using split routes by simp
    ultimately show False using routes by (simp add: SplitHTTPRouteIfNeeded_def)
  qed
  show "hr_name (hd routes) = i_name ing" using split routes whole by simp
  show "distinct (map (\<lambda>d. (hr_namespace d, hr_name d)) routes)"
    using split routes by (auto simp: distinct_map inj_on_def)
qed

section \<open>The tests in front\<close>

definition same_ingress :: "ingress \<Rightarrow> ingress \<Rightarrow> bool" where
  "same_ingress ing ing' \<longleftrightarrow> (\<exists>fs. ing' = ing\<lparr>i_meta := (i_meta ing)\<lparr>m_finalizers := fs\<rparr>\<rparr>)"

lemma same_ingress_refl: "same_ingress ing ing"
  by (auto simp: same_ingress_def intro: exI [of _ "m_finalizers (i_meta ing)"])

lemma same_ingress_sel:
  assumes "same_ingress ing ing'"
  shows "class_of r ing' = class_of r ing" "i_annotations ing' = i_annotations ing" "IsCanary ing' = IsCanary ing"
    "i_rules ing' = i_rules ing" "i_name ing' = i_name ing" "i_namespace ing' = i_namespace ing"
    "wasSelfDeleted now ing' m = wasSelfDeleted now ing m"
  using assms by (auto simp: same_ingress_def class_of_def getIngressClass_def IsCanary_def wasSelfDeleted_def cong: if_cong split: option.split)

lemma common_guards_False:
  "common_guards r now ing s = (False, s') \<longleftrightarrow>
     \<not> fst (common_guards r now ing s) \<and> s' = s\<lparr>ct_selfDeleted := snd (wasSelfDeleted now ing (ct_selfDeleted s))\<rparr>"
  by (auto simp: common_guards_def Let_def case_prod_beta)

lemma wasSelfDeleted_again:
  "fst (wasSelfDeleted now ing (snd (wasSelfDeleted now ing m))) = fst (wasSelfDeleted now ing m)"
  by (simp add: wasSelfDeleted_def Let_def split: option.split)

lemma common_guards_again:
  assumes "common_guards r now ing s = (False, s1)" and "ct_selfDeleted s2 = ct_selfDeleted s1" and "same_ingress ing ing'"
  shows "\<not> fst (common_guards r now ing' s2)"
  using assms wasSelfDeleted_again [of now ing "ct_selfDeleted s"]
  by (auto simp: common_guards_def same_ingress_sel [OF assms(3)] matchesIngressClassFilter_def
      matchesIngressClassIgnoreFilter_def Let_def case_prod_beta split: if_splits)

lemma shouldSkipIngress_False:
  assumes "shouldSkipIngress r now ing s = (False, s')"
  shows "\<exists>s1. common_guards r now ing s = (False, s1) \<and> ct_selfDeleted s' = ct_selfDeleted s1 \<and> ct_world s' = ct_world s"
proof -
  have "\<not> fst (common_guards r now ing s)"
    using assms by (auto simp: shouldSkipIngress_def split: prod.splits bool.splits)
  then have run: "common_guards r now ing s = (False, s\<lparr>ct_selfDeleted := snd (wasSelfDeleted now ing (ct_selfDeleted s))\<rparr>)"
    by (simp add: common_guards_False)
  then show ?thesis using assms by (auto simp: shouldSkipIngress_def Let_def case_prod_beta split: if_splits)
qed

lemma fst_shouldSkip_world: "fst (shouldSkipIngress r now ing (set_world w s)) = fst (shouldSkipIngress r now ing s)"
  by (simp add: shouldSkipIngress_def common_guards_def Let_def case_prod_beta split: prod.splits bool.splits)

section \<open>One run\<close>

lemma attached_same: "same_ingress ing ing' \<Longrightarrow> attached r ing' route = attached r ing route"
  by (simp add: attached_def gateway_for_def route_hostnames_def same_ingress_sel)

lemma attached_applied:
  assumes "may_manage cur" and "cur = None \<or> (\<exists>r. cur = Some (ORoute r) \<and> m_deletion (hr_meta r) = None)"
    and "attached r ing d" and "m_deletion (hr_meta d) = None"
  shows "\<exists>route. applied_route cur d = Some (ORoute route) \<and> attached r ing route \<and> m_deletion (hr_meta route) = None"
  using assms by (auto simp: applied_route_def may_manage_def attached_def updated_route_def)

lemma stored_route: "stored_in init w KRoute ns n = None \<or> (\<exists>r. stored_in init w KRoute ns n = Some (ORoute r))"
  using stored_is [of "store_of init (w_log w)" KRoute ns n] obj_is_cases(1) by (cases "stored_in init w KRoute ns n") fastforce+

lemma reconcile_route_mem:
  assumes srv: "e_srv env = mem_server init" and wf: "wf_store init" and fuel: "e_fuel env = 2"
    and gw: "may_manage (gateway_in init (ct_world s) r (gateway_for r ing))"
    and routes: "\<And>n. may_manage (stored_in init (ct_world s) KRoute (i_namespace ing) n)"
    and live: "\<And>n x. stored_in init (ct_world s) KRoute (i_namespace ing) n = Some (ORoute x) \<Longrightarrow> m_deletion (hr_meta x) = None"
    and hosts: "route_hostnames (getTranslator r) ing \<noteq> []"
  shows "\<exists>run gw route. reconcile_route env r ing s = Some run \<and>
    gateway_in init (ct_world (snd (snd run))) r (gateway_for r ing) = Some (OGateway gw) \<and>
    stored_in init (ct_world (snd (snd run))) KRoute (i_namespace ing) (i_name ing) = Some (ORoute route) \<and>
    attached r ing route \<and> m_deletion (hr_meta route) = None \<and> IsManagedByUs (gw_annotations gw) \<and>
    (\<forall>h \<in> set (hr_hostnames route). has_listener gw h)"
proof -
  obtain ds w1 where build: "build_routes env r ing (ct_world s) = (ds, w1)" by fastforce
  note parts = build_routes_parts [OF build]
  have w1: "only filter_kinds (ct_world s) w1" using br.writes_only [of "ct_world s" env r ing] build by simp
  have same1: "stored_in init w1 k ns n = stored_in init (ct_world s) k ns n" if "k \<in> {KRoute, KGateway}" for k ns n
    using only_other [OF w1] that by auto
  obtain w2 cur where apply_run: "ApplyHTTPRoutesAtomic (mem_server init) (Some HTTPRouteResourcesTotal) ing ds w1 = (Inr (), w2)"
    and post: "atomic_post init w1 ing ds cur w2"
    using ApplyHTTPRoutesAtomic_mem [OF wf parts(4)] by blast
  have cur: "cur KRoute (i_namespace ing) n = None \<or> cur KRoute (i_namespace ing) n = stored_in init w1 KRoute (i_namespace ing) n" for n
    using post unfolding atomic_post_def by metis
  have hd: "hd ds \<in> set ds" using parts(2) by simp
  note hd_parts = parts(1) [OF hd] parts(3)
  have "stored_in init w2 KRoute (i_namespace ing) (i_name ing) = applied_route (cur KRoute (i_namespace ing) (i_name ing)) (hd ds)"
    using post hd hd_parts unfolding atomic_post_def by metis
  moreover have "may_manage (cur KRoute (i_namespace ing) (i_name ing))"
    using cur [of "i_name ing"] routes [of "i_name ing"] same1 by (auto simp: may_manage_def)
  ultimately obtain route where route: "stored_in init w2 KRoute (i_namespace ing) (i_name ing) = Some (ORoute route)"
    and att: "attached r ing route" "m_deletion (hr_meta route) = None"
    using attached_applied [of "cur KRoute (i_namespace ing) (i_name ing)" r ing "hd ds"] hd_parts
      cur [of "i_name ing"] stored_route [of init w1 "i_namespace ing" "i_name ing"] live same1 [of KRoute] by fastforce
  have "cur KGateway ns n = stored_in init w1 KGateway ns n" for ns n
    using post unfolding atomic_post_def by (metis kind.distinct)
  then have gw2: "gateway_in init w2 r g = gateway_in init (ct_world s) r g" for g
    using post same1 by (auto simp: atomic_post_def)
  have "hr_hostnames (hd ds) \<noteq> []" using hd_parts hosts by (simp add: attached_def)
  then obtain gw w3 where listeners: "update_listeners env r (gateway_for r ing) ing ds w2 = Some (Inr None, w3)"
    and w3: "only {KGrant, KGateway} w2 w3"
    and gw3: "gateway_in init w3 r (gateway_for r ing) = Some (OGateway gw)"
    and ours: "IsManagedByUs (gw_annotations gw)"
    and has: "\<forall>d \<in> set ds. \<forall>h \<in> set (hr_hostnames d). has_listener gw h"
    using update_listeners_mem [OF srv fuel, of w2 r "gateway_for r ing" "hd ds" ds ing] gw gw2 hd by auto
  let ?run = "post_process env r (resolveIngressPostProcessingMode r ing) ing (set_world w3 s)"
  have run: "reconcile_route env r ing s = Some ?run"
    using build apply_run listeners srv by (simp add: reconcile_route_def)
  note w4 = only_post_process [of "set_world w3 s" env r "resolveIngressPostProcessingMode r ing" ing]
  have "gateway_in init (ct_world (snd (snd ?run))) r (gateway_for r ing) = Some (OGateway gw)"
    using only_other [OF w4, of KGateway] gw3 by simp
  moreover have "stored_in init (ct_world (snd (snd ?run))) KRoute (i_namespace ing) (i_name ing) = Some (ORoute route)"
    using only_other [OF w4, of KRoute] only_other [OF w3, of KRoute] route by simp
  moreover have "\<forall>h \<in> set (hr_hostnames route). has_listener gw h"
    using has hd hd_parts att by (auto simp: attached_def)
  ultimately show ?thesis using run att ours by blast
qed

lemma ensure_finalizer_mem:
  assumes "stored_in init w KIngress (i_namespace ing) (i_name ing) \<noteq> None"
  shows "\<exists>ing' w'. ensure_finalizer (mem_server init) r ing w = (Inr ing', w') \<and> same_ingress ing ing' \<and> only {KIngress} w w'"
proof (cases "rc_enableDeletion r \<and> FinalizerName \<notin> set (m_finalizers (i_meta ing))")
  case True
  let ?ing = "ing\<lparr>i_meta := (i_meta ing)\<lparr>m_finalizers := m_finalizers (i_meta ing) @ [FinalizerName]\<rparr>\<rparr>"
  have "list_ex (same_obj (OIngress ?ing)) (store_of init (w_log w))"
    using assms by (simp add: list_ex_same_obj)
  moreover have "same_ingress ing ?ing" by (auto simp: same_ingress_def)
  ultimately show ?thesis
    using True by (simp add: ensure_finalizer_def do_call_def write_error_def after_write_def Let_def only_def only_log.intros)
qed (auto simp: ensure_finalizer_def same_ingress_refl)

lemma synthesis_guards_True:
  assumes "\<not> fst (common_guards r (e_now env) ing s)" and "hasHostnames ing"
  shows "synthesis_guards env r ing s =
    (True, s\<lparr>ct_selfDeleted := snd (wasSelfDeleted (e_now env) ing (ct_selfDeleted s))\<rparr>)"
proof -
  have "common_guards r (e_now env) ing s =
      (False, s\<lparr>ct_selfDeleted := snd (wasSelfDeleted (e_now env) ing (ct_selfDeleted s))\<rparr>)"
    using assms(1) by (simp add: common_guards_False)
  then show ?thesis using assms(2) by (simp add: synthesis_guards_def shouldIncludeIngressForSynthesis_def)
qed

text \<open>A run for an Ingress that passes the tests comes down to the main part, on the same store.\<close>

lemma run_reaches_routes:
  assumes "e_srv env = mem_server init" and st: "stored_in init (ct_world s) KIngress ns name = Some (OIngress ing)"
    and pass: "\<not> fst (shouldSkipIngress r (e_now env) ing s)"
    and "m_deletion (i_meta ing) = None" and "\<not> IsCanary ing" and "hasHostnames ing"
  shows "\<exists>ing' s'. Ingress_Reconcile env r ns name s = map_option (record_run env r) (reconcile_route env r ing' s') \<and>
    same_ingress ing ing' \<and> only {KIngress} (ct_world s) (ct_world s')"
proof -
  have key: "i_namespace ing = ns" "i_name ing = name" using stored_is [OF st] by simp_all
  let ?s1 = "set_world (snd (do_call (mem_server init) (Get KIngress ns name) (ct_world s))) s"
  obtain s2 where skip: "shouldSkipIngress r (e_now env) ing ?s1 = (False, s2)"
    using pass fst_shouldSkip_world by (metis prod.collapse)
  obtain s0 where guards: "common_guards r (e_now env) ing ?s1 = (False, s0)"
    and s2: "ct_selfDeleted s2 = ct_selfDeleted s0" "ct_world s2 = ct_world ?s1"
    using shouldSkipIngress_False [OF skip] by blast
  obtain ing' w3 where fin: "ensure_finalizer (mem_server init) r ing (ct_world s2) = (Inr ing', w3)"
    and same: "same_ingress ing ing'" and w3: "only {KIngress} (ct_world s2) w3"
    using ensure_finalizer_mem [of init "ct_world s2" ing r] st key s2 by auto
  note sel = same_ingress_sel [OF same]
  let ?s3 = "set_world w3 s2"
  have "\<not> fst (common_guards r (e_now env) ing' ?s3)"
    using common_guards_again [OF guards _ same, of ?s3] s2 by simp
  note synth = synthesis_guards_True [OF this]
  have "only {KIngress} (ct_world s) w3" using w3 s2 by (auto intro: only_trans [of _ _ "ct_world s2"])
  then show ?thesis
    using assms skip fin same synth sel
    by (intro exI [of _ ing'] exI [of _ "?s3\<lparr>ct_selfDeleted := snd (wasSelfDeleted (e_now env) ing' (ct_selfDeleted ?s3))\<rparr>"])
       (auto simp: Ingress_Reconcile_def reconcileIngressToHTTPRoute_def decode_def do_call_def Let_def hasHostnames_def)
qed

text \<open>A run over an Ingress that is filtered out: it is read, and at most a metric is counted.\<close>

definition only_read :: "ctl \<Rightarrow> string \<Rightarrow> string \<Rightarrow> ctl \<Rightarrow> bool" where
  "only_read s ns name s' \<longleftrightarrow>
     calls_since (ct_world s) (ct_world s') \<in> {[Get KIngress ns name]} \<union> {[Get KIngress ns name, Metric v a b c] | v a b c. True}"

lemma common_guards_skip_log:
  "w_log (ct_world (snd (common_guards r now ing s))) \<in>
     {w_log (ct_world s)} \<union> {Metric v a b c # w_log (ct_world s) | v a b c. True}"
  by (auto simp: common_guards_def Let_def case_prod_beta)

lemma shouldSkipIngress_log:
  "w_log (ct_world (snd (shouldSkipIngress r now ing s))) \<in>
     {w_log (ct_world s)} \<union> {Metric v a b c # w_log (ct_world s) | v a b c. True}"
proof (cases "fst (common_guards r now ing s)")
  case True
  then have "shouldSkipIngress r now ing s = (True, snd (common_guards r now ing s))"
    by (auto simp: shouldSkipIngress_def split: prod.splits)
  then show ?thesis using common_guards_skip_log [of r now ing s] by simp
next
  case False
  then have "common_guards r now ing s = (False, s\<lparr>ct_selfDeleted := snd (wasSelfDeleted now ing (ct_selfDeleted s))\<rparr>)"
    by (simp add: common_guards_False)
  then show ?thesis by (auto simp: shouldSkipIngress_def Let_def case_prod_beta)
qed

lemma skipped_only_read:
  assumes "decode as_ingress (e_srv env (Get KIngress ns name # w_log (ct_world s))) = Inr ing"
    and "fst (shouldSkipIngress r (e_now env) ing s)"
  shows "\<exists>s'. Ingress_Reconcile env r ns name s = Some (Inr False, s') \<and> only_read s ns name s' \<and>
     ct_cache s' = ct_cache (snd (shouldSkipIngress r (e_now env) ing
       (set_world (snd (do_call (e_srv env) (Get KIngress ns name) (ct_world s))) s)))"
proof -
  let ?s1 = "set_world (snd (do_call (e_srv env) (Get KIngress ns name) (ct_world s))) s"
  obtain s2 where skip: "shouldSkipIngress r (e_now env) ing ?s1 = (True, s2)"
    using assms(2) fst_shouldSkip_world by (metis prod.collapse)
  have "Ingress_Reconcile env r ns name s = Some (Inr False, s2)"
    using assms(1) skip by (simp add: Ingress_Reconcile_def Let_def case_prod_beta)
  moreover have "only_read s ns name s2"
    using shouldSkipIngress_log [of r "e_now env" ing ?s1] skip by (auto simp: only_read_def calls_since_def)
  ultimately show ?thesis using skip by simp
qed

section \<open>Deletion\<close>

lemma delete_managed_routes:
  "snd (delete_managed srv ing rs w) = snd (delete_routes srv (Some HTTPRouteResourcesTotal) ing rs w) \<and>
   isl (fst (delete_managed srv ing rs w)) = isl (fst (delete_routes srv (Some HTTPRouteResourcesTotal) ing rs w))"
  by (induction rs arbitrary: w) (auto simp: do_call_def record_metric_def Let_def split: option.split)

lemma deleteManagedHTTPRoutes_mem:
  assumes "wf_store init"
  shows "\<exists>w'. deleteManagedHTTPRoutes (mem_server init) ing w = (Inr (), w') \<and>
    (\<forall>k ns n. stored_in init w' k ns n =
      (if k = KRoute \<and> (ns = i_namespace ing \<or> i_namespace ing = []) \<and> prefix (i_name ing) n \<and>
          (\<exists>r. stored_in init w KRoute ns n = Some (ORoute r) \<and> for_ingress ing r)
       then None else stored_in init w k ns n))"
proof -
  obtain w1 rs where get: "GetHTTPRoutesWithPrefix (mem_server init) (i_namespace ing) (i_name ing) w = (Inr rs, w1)"
    and w1: "stored_in init w1 = stored_in init w"
    and rs: "\<And>r. r \<in> set rs \<longleftrightarrow> ORoute r \<in> set (store_of init (w_log w)) \<and>
      (i_namespace ing = [] \<or> hr_namespace r = i_namespace ing) \<and> prefix (i_name ing) (hr_name r) \<and> for_ingress ing r"
    using GetHTTPRoutesWithPrefix_mem [of init "i_namespace ing" "i_name ing" w] by blast
  have at: "ORoute r \<in> set (store_of init (w_log w)) \<longleftrightarrow> stored_in init w KRoute (hr_namespace r) (hr_name r) = Some (ORoute r)" for r
    using stored_in_set [OF wf_store_of [OF assms], of "ORoute r"] stored_is by fastforce
  have key: "stored_in init w KRoute ns n = Some (ORoute r) \<Longrightarrow> hr_namespace r = ns \<and> hr_name r = n" for ns n r
    using stored_is [of _ KRoute ns n "ORoute r"] by simp
  have ex: "(\<exists>r \<in> set rs. for_ingress ing r \<and> ns = hr_namespace r \<and> n = hr_name r) \<longleftrightarrow>
      (ns = i_namespace ing \<or> i_namespace ing = []) \<and> prefix (i_name ing) n \<and>
      (\<exists>r. stored_in init w KRoute ns n = Some (ORoute r) \<and> for_ingress ing r)" for ns n
  proof
    assume "\<exists>r \<in> set rs. for_ingress ing r \<and> ns = hr_namespace r \<and> n = hr_name r"
    then show "(ns = i_namespace ing \<or> i_namespace ing = []) \<and> prefix (i_name ing) n \<and>
      (\<exists>r. stored_in init w KRoute ns n = Some (ORoute r) \<and> for_ingress ing r)"
      using rs at by auto
  next
    assume "(ns = i_namespace ing \<or> i_namespace ing = []) \<and> prefix (i_name ing) n \<and>
      (\<exists>r. stored_in init w KRoute ns n = Some (ORoute r) \<and> for_ingress ing r)"
    moreover from this obtain r where r: "stored_in init w KRoute ns n = Some (ORoute r)" "for_ingress ing r" by blast
    ultimately have "r \<in> set rs" using rs at key [OF r(1)] by auto
    then show "\<exists>r \<in> set rs. for_ingress ing r \<and> ns = hr_namespace r \<and> n = hr_name r" using key [OF r(1)] r by auto
  qed
  have "stored_in init (snd (delete_routes (mem_server init) (Some HTTPRouteResourcesTotal) ing rs w1)) k ns n =
      (if k = KRoute \<and> (ns = i_namespace ing \<or> i_namespace ing = []) \<and> prefix (i_name ing) n \<and>
          (\<exists>r. stored_in init w KRoute ns n = Some (ORoute r) \<and> for_ingress ing r)
       then None else stored_in init w k ns n)" for k ns n
    using delete_routes_mem [of init "Some HTTPRouteResourcesTotal" ing rs w1 k ns n] w1 ex [of ns n] by auto
  moreover have "fst (delete_managed (mem_server init) ing rs w1) = Inr ()"
    using delete_managed_routes [of "mem_server init" ing rs w1] delete_routes_mem [of init "Some HTTPRouteResourcesTotal" ing rs w1]
    by (cases "fst (delete_managed (mem_server init) ing rs w1)") auto
  moreover have "deleteManagedHTTPRoutes (mem_server init) ing w = delete_managed (mem_server init) ing rs w1"
    using get by (simp add: deleteManagedHTTPRoutes_def)
  ultimately show ?thesis
    using delete_managed_routes [of "mem_server init" ing rs w1]
    by (intro exI [of _ "snd (delete_managed (mem_server init) ing rs w1)"]) (auto simp: prod_eq_iff)
qed

text \<open>The Ingress without its finalizer, and the rest of the store but the cache as before.\<close>

lemma finalizeDeletion_mem:
  assumes "e_srv env = mem_server init"
    and st: "stored_in init (ct_world s) KIngress (i_namespace ing) (i_name ing) = Some (OIngress ing)"
  shows "\<exists>s' ing'. finalizeDeletion env r ing s = (Inr False, s') \<and> FinalizerName \<notin> set (m_finalizers (i_meta ing')) \<and>
     stored_in init (ct_world s') KIngress (i_namespace ing) (i_name ing) = Some (OIngress ing') \<and>
     only {KIngress, KConfigMap} (ct_world s) (ct_world s')"
proof -
  let ?w = "ct_world s"
  have "\<exists>ing' w1. removeFinalizer (mem_server init) ing ?w = (Inr (), ing', w1) \<and> FinalizerName \<notin> set (m_finalizers (i_meta ing')) \<and>
     stored_in init w1 KIngress (i_namespace ing) (i_name ing) = Some (OIngress ing')"
    using st
    by (auto simp: removeFinalizer_def do_call_def write_error_def after_write_def list_ex_same_obj stored_Update Let_def)
  then obtain ing' w1 where fin: "removeFinalizer (mem_server init) ing ?w = (Inr (), ing', w1)"
    and rest: "FinalizerName \<notin> set (m_finalizers (i_meta ing'))"
     "stored_in init w1 KIngress (i_namespace ing) (i_name ing) = Some (OIngress ing')" by blast
  let ?e = "evictReconcileCache (mem_server init) (rc_cache r) ing' (ct_cache s) w1"
  have "only {KIngress} ?w w1" using rf.writes_only [of ?w "mem_server init" ing] fin by simp
  then have w1: "only {KIngress, KConfigMap} ?w w1" by (rule only_mono) simp
  have "stored_in init (snd ?e) KIngress (i_namespace ing) (i_name ing) = Some (OIngress ing')"
    using only_other [OF ev.writes_only, of KIngress] rest by simp
  then show ?thesis
    using assms(1) fin rest w1
    by (intro exI [of _ "s\<lparr>ct_world := snd ?e, ct_cache := fst ?e\<rparr>"] exI [of _ ing'])
       (simp add: finalizeDeletion_def case_prod_beta Let_def)
qed

lemma reconcile_serves:
  assumes "e_srv env = mem_server init" and "wf_store init" and "e_fuel env = 2"
    and "stored_in init (ct_world s) KIngress ns name = Some (OIngress ing)"
    and "\<not> fst (shouldSkipIngress r (e_now env) ing s)"
    and "m_deletion (i_meta ing) = None" and "\<not> IsCanary ing"
    and "\<exists>rule \<in> set (i_rules ing). ir_host rule \<noteq> []"
    and "may_manage (stored_in init (ct_world s) KGateway (rc_gatewayNamespace r) (gateway_for r ing))"
    and "\<And>n. may_manage (stored_in init (ct_world s) KRoute ns n)"
    and "\<forall>n x. stored_in init (ct_world s) KRoute ns n = Some (ORoute x) \<longrightarrow> m_deletion (hr_meta x) = None"
  shows "\<exists>res s' gw route. Ingress_Reconcile env r ns name s = Some (res, s') \<and>
    gateway_in init (ct_world s') r (gateway_for r ing) = Some (OGateway gw) \<and> IsManagedByUs (gw_annotations gw) \<and>
    stored_in init (ct_world s') KRoute ns name = Some (ORoute route) \<and> m_deletion (hr_meta route) = None \<and>
    attached r ing route \<and> (\<forall>h \<in> set (hr_hostnames route). has_listener gw h)"
proof -
  have key: "i_namespace ing = ns" "i_name ing = name" using stored_is [OF assms(4)] by simp_all
  have "hasHostnames ing" using assms(8) by (simp add: hasHostnames_def list_ex_iff)
  then obtain ing' s1 where reach: "Ingress_Reconcile env r ns name s = map_option (record_run env r) (reconcile_route env r ing' s1)"
    and same: "same_ingress ing ing'" and s1: "only {KIngress} (ct_world s) (ct_world s1)"
    using run_reaches_routes [OF assms(1,4-7)] by blast
  note sel = same_ingress_sel [OF same]
  have hosts: "route_hostnames (getTranslator r) ing' \<noteq> []" using assms(8) by (auto simp: route_hostnames_def sel filter_empty_conv)
  have gf: "gateway_for r ing' = gateway_for r ing" by (simp add: gateway_for_def sel)
  obtain run gw route where run: "reconcile_route env r ing' s1 = Some run"
    and gw: "gateway_in init (ct_world (snd (snd run))) r (gateway_for r ing) = Some (OGateway gw)"
    and route: "stored_in init (ct_world (snd (snd run))) KRoute ns name = Some (ORoute route)"
    and att: "attached r ing route" "m_deletion (hr_meta route) = None" "IsManagedByUs (gw_annotations gw)" and has: "\<forall>h \<in> set (hr_hostnames route). has_listener gw h"
    using reconcile_route_mem [OF assms(1-3) _ _ _ hosts, of s1] assms(9-11) only_other [OF s1] gf sel key
    by (auto simp: attached_same [OF same])
  have "only {KConfigMap} (ct_world (snd (snd run))) (ct_world (snd (record_run env r run)))"
    by (simp add: record_run_def case_prod_beta Let_def)
  then have "stored_in init (ct_world (snd (record_run env r run))) k m n = stored_in init (ct_world (snd (snd run))) k m n"
    if "k \<in> {KRoute, KGateway}" for k m n
    using that by (auto intro: only_other)
  then show ?thesis
    using gw route att has reach run
    by (intro exI [of _ "fst (record_run env r run)"] exI [of _ "snd (record_run env r run)"] exI [of _ gw] exI [of _ route]) auto
qed

section \<open>Properties\<close>

text \<open>
  C1. An Ingress that is not filtered out is served after one run of the controller, against a store
  that keeps its writes: the run ends; the HTTPRoute of the Ingress's name holds the rewritten
  hostnames of its rules and one parent reference per hostname, to the Gateway of its class; and
  that Gateway exists and has a listener for each of them. This holds in every post-processing
  mode and wherever the run itself adds the finalizer, provided that no foreign object holds the
  names it needs and none of its routes is just being deleted.
\<close>

theorem ingress_is_served:
  assumes "e_srv env = mem_server init" and "wf_store init" and "e_fuel env = 2"
    and "stored_in init (ct_world s) KIngress ns name = Some (OIngress ing)"
    and "\<not> fst (shouldSkipIngress r (e_now env) ing s)"
    and "m_deletion (i_meta ing) = None" and "\<not> IsCanary ing"
    and "\<exists>rule \<in> set (i_rules ing). ir_host rule \<noteq> []"
    and "may_manage (stored_in init (ct_world s) KGateway (rc_gatewayNamespace r) (gateway_for r ing))"
    and "\<And>n. may_manage (stored_in init (ct_world s) KRoute ns n)"
    and "\<forall>n x. stored_in init (ct_world s) KRoute ns n = Some (ORoute x) \<longrightarrow> m_deletion (hr_meta x) = None"
  shows "\<exists>res s' gw route. Ingress_Reconcile env r ns name s = Some (res, s') \<and>
    stored_in init (ct_world s') KGateway (rc_gatewayNamespace r) (gateway_for r ing) = Some (OGateway gw) \<and>
    stored_in init (ct_world s') KRoute ns name = Some (ORoute route) \<and>
    hr_hostnames route = map (TransformHostname (getTranslator r)) (filter (\<lambda>h. h \<noteq> []) (map ir_host (i_rules ing))) \<and>
    hr_parentRefs route = map (\<lambda>h. \<lparr>pr_name = gateway_for r ing, pr_namespace = Some (rc_gatewayNamespace r),
      pr_sectionName = Some h\<rparr>) (hr_hostnames route) \<and>
    (\<forall>h \<in> set (hr_hostnames route). \<exists>l \<in> set (gw_listeners gw). l_hostname l = Some h)"
  using reconcile_serves [OF assms] by (auto simp: attached_def has_listener_def route_hostnames_def filter_map o_def)

theorem ingress_is_served_witness:
  "\<exists>res s' gw. Ingress_Reconcile (example_env [OIngress example_ingress]) example_ingress_controller ''shop'' ''prod'' example_ctl
      = Some (res, s') \<and>
    stored_in [OIngress example_ingress] (ct_world s') KGateway ''gateway'' ''nginx'' = Some (OGateway gw) \<and>
    (\<exists>l \<in> set (gw_listeners gw). l_hostname l = Some ''app.domain.cc'')"
proof -
  let ?r = example_ingress_controller
  have r: "rc_gatewayNamespace ?r = ''gateway''" "gateway_for ?r example_ingress = ''nginx''"
    by (simp_all add: example_run_defs example_ingress_def gateway_for_def getGatewayNameForClass_def class_of_def getIngressClass_def)
  have host: "TransformHostname (getTranslator ?r) h = h" for h
    by (simp add: example_run_defs getTranslator_def TransformHostname_def)
  have pass: "\<not> fst (shouldSkipIngress ?r 0 example_ingress example_ctl)"
    by (simp add: shouldSkipIngress_def common_guards_def matchesIngressClassIgnoreFilter_def matchesIngressClassFilter_def
        matchIngressClassPatterns_def class_of_def getIngressClass_def wasSelfDeleted_def shouldSkipReconcile_def
        example_run_defs example_ingress_def empty_meta_def key_defs mget_def DisabledIngressClassName_def)
  have canary: "\<not> IsCanary example_ingress" by (simp add: IsCanary_def example_ingress_def empty_meta_def mget_def)
  show ?thesis
    using ingress_is_served [of "example_env [OIngress example_ingress]" "[OIngress example_ingress]" example_ctl "''shop''" "''prod''"
        example_ingress ?r] r host pass canary
    by (simp add: example_env_def example_ctl_def empty_world_def wf_store_def stored_def may_manage_def obj_is_def)
       (auto simp: example_ingress_def empty_meta_def)
qed


definition example_removed_ingress :: ingress where
  "example_removed_ingress = example_ingress\<lparr>i_meta := (i_meta example_ingress)\<lparr>m_finalizers := [FinalizerName],
     m_annotations := [(IngressRemovedAnnotation, ''true'')], m_deletion := Some 1\<rparr>\<rparr>"



lemma example_key: "ReconcileCacheKey ''u'' = ''u''"
  by code_simp


text \<open>
  C10. Deleting an Ingress that is not filtered out, with deletion enabled, takes away exactly its own
  routes against a store that keeps its writes: every HTTPRoute that is named after it and marked
  as derived from it is gone, every other HTTPRoute, Gateway and ReferenceGrant is as before, and
  the Ingress has lost the finalizer.
\<close>

theorem ingress_deletion_cleans_up:
  assumes "e_srv env = mem_server init" and "wf_store init"
    and "stored_in init (ct_world s) KIngress ns name = Some (OIngress ing)"
    and "\<not> fst (shouldSkipIngress r (e_now env) ing s)"
    and "m_deletion (i_meta ing) \<noteq> None" and "\<not> IsCanary ing" and "rc_enableDeletion r" and "ns \<noteq> []"
  shows "\<exists>s' ing'. Ingress_Reconcile env r ns name s = Some (Inr False, s') \<and>
    stored_in init (ct_world s') KIngress ns name = Some (OIngress ing') \<and>
    FinalizerName \<notin> set (m_finalizers (i_meta ing')) \<and>
    (\<forall>n route. stored_in init (ct_world s') KRoute ns n = Some (ORoute route) \<longrightarrow>
       \<not> (prefix name n \<and> IsManagedByUsForIngress (hr_annotations route) ns name)) \<and>
    (\<forall>k ns' n x. k \<in> {KRoute, KGateway, KGrant} \<and> stored_in init (ct_world s) k ns' n = Some x \<and>
       \<not> (ns' = ns \<and> IsManagedByUsForIngress (obj_annotations x) ns name) \<longrightarrow>
       stored_in init (ct_world s') k ns' n = Some x)"
proof -
  have key: "i_namespace ing = ns" "i_name ing = name" using stored_is [OF assms(3)] by simp_all
  let ?s1 = "set_world (snd (do_call (mem_server init) (Get KIngress ns name) (ct_world s))) s"
  obtain s2 where skip: "shouldSkipIngress r (e_now env) ing ?s1 = (False, s2)"
    using assms(4) fst_shouldSkip_world by (metis prod.collapse)
  obtain s0 where guards: "common_guards r (e_now env) ing ?s1 = (False, s0)"
    and s2: "ct_selfDeleted s2 = ct_selfDeleted s0" "ct_world s2 = ct_world ?s1"
    using shouldSkipIngress_False [OF skip] by blast
  have "\<not> fst (common_guards r (e_now env) ing s2)" by (rule common_guards_again [OF guards s2(1) same_ingress_refl])
  then have cleanup: "\<exists>m. shouldSkipDeletionCleanup env r ing s2 = (False, s2\<lparr>ct_selfDeleted := m\<rparr>)"
    by (auto simp: shouldSkipDeletionCleanup_def common_guards_def Let_def case_prod_beta split: if_splits)
  then obtain m where cleanup: "shouldSkipDeletionCleanup env r ing s2 = (False, s2\<lparr>ct_selfDeleted := m\<rparr>)" by blast
  obtain w3 where del: "deleteManagedHTTPRoutes (mem_server init) ing (ct_world s2) = (Inr (), w3)"
    and w3: "\<And>k ns n. stored_in init w3 k ns n =
      (if k = KRoute \<and> (ns = i_namespace ing \<or> i_namespace ing = []) \<and> prefix (i_name ing) n \<and>
          (\<exists>r. stored_in init (ct_world s2) KRoute ns n = Some (ORoute r) \<and> for_ingress ing r)
       then None else stored_in init (ct_world s2) k ns n)"
    using deleteManagedHTTPRoutes_mem [OF assms(2), of ing "ct_world s2"] by blast
  let ?s3 = "s2\<lparr>ct_selfDeleted := m, ct_world := w3\<rparr>"
  obtain s4 ing' where fin: "finalizeDeletion env r ing ?s3 = (Inr False, s4)"
    and ing': "FinalizerName \<notin> set (m_finalizers (i_meta ing'))" "stored_in init (ct_world s4) KIngress ns name = Some (OIngress ing')"
    and s4: "only {KIngress, KConfigMap} (ct_world ?s3) (ct_world s4)"
    using finalizeDeletion_mem [OF assms(1), of ?s3 ing r] assms(3) w3 key s2 by auto
  have "Ingress_Reconcile env r ns name s = Some (Inr False, s4)"
    using assms(1,3,5-7) skip cleanup del fin
    by (simp add: Ingress_Reconcile_def handleDeletion_def decode_def do_call_def Let_def)
  moreover have "stored_in init (ct_world s4) k ns' n = (if k = KRoute \<and> ns' = ns \<and> prefix name n \<and>
          (\<exists>r. stored_in init (ct_world s) KRoute ns' n = Some (ORoute r) \<and> for_ingress ing r)
       then None else stored_in init (ct_world s) k ns' n)" if "k \<in> {KRoute, KGateway, KGrant}" for k ns' n
    using that only_other [OF s4, of k] w3 [of k ns' n] s2 key assms(8) by auto
  ultimately show ?thesis using ing' key by (intro exI [of _ s4] exI [of _ ing']) auto
qed

definition example_deleted_ingress :: ingress where
  "example_deleted_ingress = example_ingress\<lparr>i_meta := (i_meta example_ingress)\<lparr>m_finalizers := [FinalizerName],
     m_deletion := Some 1\<rparr>\<rparr>"

definition example_deletion_store :: "obj list" where
  "example_deletion_store = [OIngress example_deleted_ingress,
     ORoute (example_route\<lparr>hr_meta := (hr_meta example_route)\<lparr>m_name := ''prod'', m_namespace := ''shop'',
       m_annotations := owned_annotations ''shop'' ''prod'' []\<rparr>\<rparr>)]"

theorem ingress_deletion_cleans_up_witness:
  "\<exists>s'. Ingress_Reconcile (example_env example_deletion_store) example_ingress_controller ''shop'' ''prod'' example_ctl
      = Some (Inr False, s') \<and>
    (\<forall>route. stored_in example_deletion_store (ct_world s') KRoute ''shop'' ''prod'' = Some (ORoute route) \<longrightarrow>
       \<not> IsManagedByUsForIngress (hr_annotations route) ''shop'' ''prod'')"
proof -
  let ?r = example_ingress_controller
  have pass: "\<not> fst (shouldSkipIngress ?r 0 example_deleted_ingress example_ctl)"
    by (simp add: shouldSkipIngress_def common_guards_def matchesIngressClassIgnoreFilter_def matchesIngressClassFilter_def
        matchIngressClassPatterns_def class_of_def getIngressClass_def wasSelfDeleted_def shouldSkipReconcile_def
        example_run_defs example_deleted_ingress_def example_ingress_def empty_meta_def key_defs mget_def DisabledIngressClassName_def)
  have canary: "\<not> IsCanary example_deleted_ingress"
    by (simp add: IsCanary_def example_deleted_ingress_def example_ingress_def empty_meta_def mget_def)
  have st: "stored_in example_deletion_store (ct_world example_ctl) KIngress ''shop'' ''prod'' = Some (OIngress example_deleted_ingress)"
    by (simp add: example_run_defs stored_def example_deletion_store_def example_deleted_ingress_def example_ingress_def empty_meta_def)
  have wf: "wf_store example_deletion_store" by (simp add: example_deletion_store_def wf_store_def)
  show ?thesis
    using ingress_deletion_cleans_up [OF _ wf st, of "example_env example_deletion_store" ?r] pass canary
    by (simp add: example_run_defs example_deleted_ingress_def) fastforce
qed

end
