(* ===== verification/Runs.thy ===== *)
theory Runs
  imports Effects
begin

text \<open>
  How a run of the Ingress controller is put together from its calls. A relation between worlds that
  holds along the operations that write routes, filters, grants and Gateways, and along everything
  that writes other kinds, holds along a whole run; the locale \<open>ingress_run\<close> says so once.
\<close>

section \<open>The tests in front\<close>

lemma only_count [simp]: "only K w (ct_world (count reason ing s)) = only K w (emit (Metric IngressReconcileSkipsTotal reason (i_namespace ing) (i_name ing)) (ct_world s))"
  by (simp add: only_def)

lemma only_common_guards: "only {} (ct_world s) (ct_world (snd (common_guards r now ing s)))"
  by (simp add: common_guards_def frame_simps)

lemma only_shouldSkipIngress: "only {} (ct_world s) (ct_world (snd (shouldSkipIngress r now ing s)))"
  using only_common_guards [of s r now ing] by (simp add: shouldSkipIngress_def frame_simps split: bool.split)

lemma only_synthesis_guards: "only {} (ct_world s) (ct_world (snd (synthesis_guards env r ing s)))"
  using only_common_guards [of s r "e_now env" ing]
  by (simp add: synthesis_guards_def shouldIncludeIngressForSynthesis_def frame_simps split: bool.split)

lemma only_ensure_finalizer: "only {KIngress} w (snd (ensure_finalizer srv r ing w))"
  by (simp add: ensure_finalizer_def frame_simps split: option.split)

lemma only_finalizeDeletion: "only {KIngress, KConfigMap} (ct_world s) (ct_world (snd (finalizeDeletion env r ing s)))"
proof -
  obtain res ing' w where fin: "removeFinalizer (e_srv env) ing (ct_world s) = (res, ing', w)" by (metis prod.exhaust)
  then have "only {KIngress, KConfigMap} (ct_world s) w"
    using rf.after [of "{KIngress, KConfigMap}" "ct_world s" "ct_world s" "e_srv env" ing] by simp
  then show ?thesis using fin by (auto simp: finalizeDeletion_def case_prod_beta Let_def split: sum.split)
qed

section \<open>Whole runs\<close>

locale ingress_run =
  fixes env :: reconcile_env and rel :: "world \<Rightarrow> world \<Rightarrow> bool"
  assumes trans: "rel w w' \<Longrightarrow> rel w' w'' \<Longrightarrow> rel w w''"
    and quiet: "only {KIngress, KIngressClass, KConfigMap} w w' \<Longrightarrow> rel w w'"
    and routes_built: "rel w (snd (build_routes env r ing w))"
    and routes_applied: "rel w (snd (ApplyHTTPRoutesAtomic (e_srv env) (Some HTTPRouteResourcesTotal) ing routes w))"
    and listeners_updated: "update_listeners env r g ing routes w = Some (res, w') \<Longrightarrow> rel w w'"
    and routes_deleted: "rel w (snd (deleteManagedHTTPRoutes (e_srv env) ing w))"
begin

lemma frame: "only K w w' \<Longrightarrow> K \<subseteq> {KIngress, KIngressClass, KConfigMap} \<Longrightarrow> rel w w'"
  by (rule quiet [OF only_mono])

lemma guards:
  "rel (ct_world s) (ct_world (snd (shouldSkipIngress r now ing s)))"
  "rel (ct_world s) (ct_world (snd (synthesis_guards env r ing s)))"
  by (rule frame [OF only_shouldSkipIngress] frame [OF only_synthesis_guards], simp)+

lemma route:
  assumes "reconcile_route env r ing s = Some (res, ing', s')"
  shows "rel (ct_world s) (ct_world s')"
proof -
  obtain routes w1 where routes: "build_routes env r ing (ct_world s) = (routes, w1)" by fastforce
  obtain ap w2 where ap: "ApplyHTTPRoutesAtomic (e_srv env) (Some HTTPRouteResourcesTotal) ing routes w1 = (ap, w2)" by fastforce
  have w2: "rel (ct_world s) w2"
    using trans [OF routes_built [of "ct_world s" r ing] routes_applied [of "snd (build_routes env r ing (ct_world s))" ing routes]]
      routes ap by simp
  show ?thesis
  proof (cases ap)
    case (Inl e)
    then show ?thesis using assms routes ap w2 by (auto simp: reconcile_route_def)
  next
    case (Inr u)
    obtain ul w3 where ul: "update_listeners env r (gateway_for r ing) ing routes w2 = Some (ul, w3)"
      using assms routes ap Inr by (auto simp: reconcile_route_def split: option.splits)
    have w3: "rel (ct_world s) w3" using trans [OF w2 listeners_updated [OF ul]] .
    have "rel (ct_world s) (ct_world (snd (snd (post_process env r m ing (set_world w3 s)))))" for m
      using trans [OF w3] frame [OF only_post_process [of "set_world w3 s" env r m ing]] by simp
    with w3 show ?thesis
      using assms routes ap Inr ul by (auto simp: reconcile_route_def split: sum.splits option.splits) (metis snd_conv)
  qed
qed

lemma primary:
  assumes "reconcile_primary env r ing s = Some (res, ing', s')"
  shows "rel (ct_world s) (ct_world s')"
  using assms guards(2) [of s r ing] route [of r ing _ res ing' s']
  by (auto simp: reconcile_primary_def split: prod.splits bool.splits intro: trans)

lemma primaries: "reconcile_primaries env r ps s = Some (res, s') \<Longrightarrow> rel (ct_world s) (ct_world s')"
proof (induction ps arbitrary: s)
  case Nil
  then show ?case using quiet [OF only_refl, of "ct_world s"] by auto
next
  case (Cons p ps)
  then obtain res1 ing1 s1 where run: "reconcile_primary env r p s = Some (res1, ing1, s1)"
    by (auto split: option.splits)
  then show ?case
    using Cons.prems Cons.IH [of s1] primary [OF run]
    by (cases res1) (auto intro: trans)
qed

lemma canary_primaries:
  assumes "reconcileCanaryPrimaries env r canary s = Some (res, s')"
  shows "rel (ct_world s) (ct_world s')"
proof -
  obtain found w1 where ls: "listSiblingIngresses (e_srv env) (i_namespace canary) (ct_world s) = (found, w1)" by fastforce
  then have "rel (ct_world s) w1"
    using frame [OF ls.writes_only [of "ct_world s" "e_srv env" "i_namespace canary"]] by simp
  then show ?thesis
    using assms ls primaries [of r _ "set_world w1 s" res s']
    by (auto simp: reconcileCanaryPrimaries_def split: sum.splits intro: trans)
qed

lemma reconcile:
  assumes "reconcileIngressToHTTPRoute env r ing s = Some (res, ing', s')"
  shows "rel (ct_world s) (ct_world s')"
  using assms guards(2) [of s r ing] route [of r ing _ res ing' s'] canary_primaries [of r ing _ res s']
  by (auto simp: reconcileIngressToHTTPRoute_def split: prod.splits bool.splits if_splits intro: trans)

lemma finalize: "rel (ct_world s) (ct_world (snd (finalizeDeletion env r ing s)))"
  by (rule frame [OF only_finalizeDeletion]) simp

lemma deletion:
  assumes "handleDeletion env r ing s = Some (res, s')"
  shows "rel (ct_world s) (ct_world s')"
proof -
  obtain skip s1 where skip: "shouldSkipDeletionCleanup env r ing s = (skip, s1)" by fastforce
  have s1: "rel (ct_world s) (ct_world s1)"
    using skip finalize [of "s\<lparr>ct_selfDeleted := m\<rparr>" r ing for m] finalize [of s r ing] frame [OF only_refl, of "{}" "ct_world s"]
    by (auto simp: shouldSkipDeletionCleanup_def Let_def split: prod.splits if_splits)
  have fin: "rel (ct_world s) (ct_world s'')"
    if "finalizeDeletion env r ing s2 = (res'', s'')" "rel (ct_world s) (ct_world s2)" for s2 s'' res''
    using trans [OF that(2) finalize [of s2 r ing]] that(1) by simp
  have can: "rel (ct_world s) (ct_world s2)" if "reconcileCanaryPrimaries env r ing s1 = Some (res2, s2)" for res2 s2
    by (rule trans [OF s1 canary_primaries [OF that]])
  have del: "rel (ct_world s) w" if "deleteManagedHTTPRoutes (e_srv env) ing (ct_world s1) = (res2, w)" for res2 w
    using trans [OF s1 routes_deleted [of "ct_world s1" ing]] that by simp
  show ?thesis
    using assms skip s1 fin can del
    by (auto simp: handleDeletion_def split: prod.splits bool.splits if_splits option.splits sum.splits)
qed

lemma run:
  assumes "Ingress_Reconcile env r ns name s = Some (res, s')"
  shows "rel (ct_world s) (ct_world s')"
proof -
  let ?w0 = "snd (do_call (e_srv env) (Get KIngress ns name) (ct_world s))"
  have w0: "rel (ct_world s) ?w0" by (rule frame [of "{}"]) simp_all
  show ?thesis
  proof (cases "decode as_ingress (e_srv env (Get KIngress ns name # w_log (ct_world s)))")
    case (Inl e)
    then show ?thesis using assms w0 by (auto simp: Ingress_Reconcile_def frame_simps)
  next
    case (Inr ing)
    obtain skip s1 where skip: "shouldSkipIngress r (e_now env) ing (set_world ?w0 s) = (skip, s1)" by fastforce
    have s1: "rel (ct_world s) (ct_world s1)"
      using trans [OF w0] guards(1) [of "set_world ?w0 s" r "e_now env" ing] skip by simp
    obtain fin w2 where fin: "ensure_finalizer (e_srv env) r ing (ct_world s1) = (fin, w2)" by fastforce
    have w2: "rel (ct_world s) w2"
      using trans [OF s1] frame [OF only_ensure_finalizer [of "ct_world s1" "e_srv env" r ing]] fin by simp
    have recorded: "rel (ct_world s) (ct_world (snd (record_run env r (res1, ing1, s3))))"
      if "reconcileIngressToHTTPRoute env r ing2 (set_world w2 s1) = Some (res1, ing1, s3)" for ing2 res1 ing1 s3
    proof -
      have "rel (ct_world s) (ct_world s3)" using trans [OF w2] reconcile [OF that] by simp
      then show ?thesis by (rule trans) (rule frame [of "{KConfigMap}"], simp_all add: record_run_def frame_simps)
    qed
    show ?thesis
      using assms Inr skip s1 fin w2 recorded trans [OF s1 deletion [of r ing s1]]
      by (auto simp: Ingress_Reconcile_def frame_simps split: bool.splits if_splits sum.splits) (metis snd_conv)
  qed
qed

end

end
