(* ===== verification/Ownership.thy ===== *)
theory Ownership
  imports Ingress_Properties Runs
begin

text \<open>
  Objects of others. The controllers write HTTPRoutes, Gateways, ReferenceGrants and extension
  filters, and any of these may belong to someone else. Such an object lacks the mark of the
  operator. The relation below says that a run left all of them alone; every operation of the two
  controllers respects it, and so does any interleaving of their runs.
\<close>

section \<open>Sparing what others own\<close>

definition derived_kinds :: "kind set" where
  "derived_kinds = {KRoute, KGateway, KGrant} \<union> filter_kinds"

lemma derived_kinds_simps [simp]:
  "KRoute \<in> derived_kinds" "KGateway \<in> derived_kinds" "KGrant \<in> derived_kinds" "KUnstructured v k \<in> derived_kinds"
  "KIngress \<notin> derived_kinds" "KService \<notin> derived_kinds" "KConfigMap \<notin> derived_kinds" "KIngressClass \<notin> derived_kinds"
  by (simp_all add: derived_kinds_def)

definition spares :: "obj list \<Rightarrow> world \<Rightarrow> world \<Rightarrow> bool" where
  "spares init w w' \<longleftrightarrow> (wf_store init \<longrightarrow>
     (\<forall>k ns n y. k \<in> derived_kinds \<and> unmanaged_at init w k ns n y \<longrightarrow> unmanaged_at init w' k ns n y))"

text \<open>What is stored under a key, if anything, is ours.\<close>

definition ours :: "obj list \<Rightarrow> world \<Rightarrow> kind \<Rightarrow> string \<Rightarrow> string \<Rightarrow> bool" where
  "ours init w k ns n \<longleftrightarrow> (\<forall>y. stored_in init w k ns n = Some y \<longrightarrow> IsManagedByUs (obj_annotations y))"

lemma spares_refl [simp, intro]: "spares init w w"
  by (simp add: spares_def)

lemma spares_trans [trans]: "spares init w w' \<Longrightarrow> spares init w' w'' \<Longrightarrow> spares init w w''"
  by (simp add: spares_def)

lemma spares_only:
  assumes "only K w w'" and "K \<inter> derived_kinds = {}"
  shows "spares init w w'"
proof -
  have "stored_in init w' k ns n = stored_in init w k ns n" if "k \<in> derived_kinds" for k ns n
    by (rule only_other [OF assms(1)]) (use assms(2) that in blast)
  then show ?thesis by (simp add: spares_def unmanaged_at_def)
qed

lemma spares_stored: "stored_in init w' = stored_in init w \<Longrightarrow> spares init w w'"
  by (simp add: spares_def unmanaged_at_def)

lemma stored_no_write: "call_kind c = None \<Longrightarrow> stored (store_step c s) = stored s"
  by (cases c) simp_all

lemma spares_emit [simp]: "spares init w w' \<Longrightarrow> call_kind c = None \<Longrightarrow> spares init w (emit c w')"
  by (rule spares_trans, assumption, rule spares_stored) (simp add: stored_no_write)

lemma spares_read [simp]: "spares init w w' \<Longrightarrow> call_kind c = None \<Longrightarrow> spares init w (snd (do_call srv c w'))"
  by (rule spares_trans, assumption, rule spares_stored) (simp add: stored_no_write)

lemma counted_or_written: "call_kind c = Some k \<Longrightarrow> counted_kind c = None"
  by (cases c) simp_all

lemma spares_other [simp]:
  "spares init w w' \<Longrightarrow> call_kind c = Some k \<Longrightarrow> k \<notin> derived_kinds \<Longrightarrow> spares init w (snd (do_call srv c w'))"
  by (rule spares_trans, assumption, rule spares_only [of "{k}"]) (simp_all add: allowed_def counted_or_written)

text \<open>Creating never replaces an object, and updating and deleting spare others if the target is ours.\<close>

lemma spares_Create [simp]: "spares init w w' \<Longrightarrow> spares init w (snd (do_call srv (Create x) w'))"
proof (rule spares_trans, assumption)
  have "unmanaged_at init (snd (do_call srv (Create x) w')) k ns n y" if "unmanaged_at init w' k ns n y" for k ns n y
  proof (cases "list_ex (same_obj x) (store_of init (w_log w'))")
    case True
    with that show ?thesis by (simp add: unmanaged_at_def store_step.simps(1))
  next
    case False
    then have "\<not> obj_is k ns n x"
      using that by (auto simp: unmanaged_at_def list_ex_same_obj obj_is_def)
    with False that show ?thesis by (simp add: unmanaged_at_def stored_Create)
  qed
  then show "spares init w' (snd (do_call srv (Create x) w'))" by (simp add: spares_def)
qed

lemma spares_Update:
  assumes "spares init w w'" and "ours init w' (obj_kind x) (fst (obj_key x)) (snd (obj_key x))"
  shows "spares init w (snd (do_call srv (Update x) w'))"
proof (rule spares_trans [OF assms(1)])
  have "unmanaged_at init (snd (do_call srv (Update x) w')) k ns n y" if "unmanaged_at init w' k ns n y" for k ns n y
  proof (cases "list_ex (same_obj x) (store_of init (w_log w'))")
    case True
    moreover have "\<not> obj_is k ns n x" using that assms(2) by (auto simp: unmanaged_at_def ours_def obj_is_def)
    ultimately show ?thesis using that by (simp add: unmanaged_at_def stored_Update)
  next
    case False
    then have "map (\<lambda>y. if same_obj x y then x else y) (store_of init (w_log w')) = store_of init (w_log w')"
      by (intro map_idI) (auto simp: list_ex_iff)
    then show ?thesis using that by (simp add: unmanaged_at_def store_step.simps(2))
  qed
  then show "spares init w' (snd (do_call srv (Update x) w'))" by (simp add: spares_def)
qed

lemma spares_Delete:
  assumes "spares init w w'" and "ours init w' k ns n"
  shows "spares init w (snd (do_call srv (Delete k ns n b) w'))"
proof (rule spares_trans [OF assms(1)])
  show "spares init w' (snd (do_call srv (Delete k ns n b) w'))"
    using assms(2) by (auto simp: spares_def unmanaged_at_def ours_def)
qed

lemma ours_read [simp]: "call_kind c = None \<Longrightarrow> ours init (snd (do_call srv c w)) = ours init w"
  by (cases c) (simp_all add: ours_def fun_eq_iff)

text \<open>A successful read of the store.\<close>

lemma decode_stored:
  assumes "decode f (mem_server init (Get k ns n # w_log w)) = Inr x"
  shows "\<exists>y. stored_in init w k ns n = Some y \<and> f y = Some x"
  using assms by (auto simp: decode_def split: option.splits)

lemma decode_ours:
  assumes "decode f (mem_server init (Get k ns n # w_log w)) = Inr x" and "\<And>y. f y = Some x \<Longrightarrow> IsManagedByUs (obj_annotations y)"
  shows "ours init w k ns n"
  using decode_stored [OF assms(1)] assms(2) by (auto simp: ours_def)

text \<open>The contract of an operation of the controllers.\<close>

locale sparing =
  fixes init :: "obj list" and run :: "world \<Rightarrow> 'r \<times> world"
  assumes spares_run: "spares init w (snd (run w))"
begin

lemma after [simp]: "spares init w w' \<Longrightarrow> spares init w (snd (run w'))"
  by (rule spares_trans [OF _ spares_run])

end

section \<open>Filters and routes\<close>

interpretation sp_ef: sparing init "EnsureSnippetsFilterForIngress (mem_server init) setRef route owner ns n f snippets"
  for init setRef route owner ns n f snippets
  by unfold_locales (use ef.keeps [where x = "(setRef, route, owner, ns, n, f, snippets)"] in \<open>auto simp: spares_def\<close>)

interpretation sp_ec: sparing init "EnsureSnippetsFilterCopyForHTTPRoute (mem_server init) src dest ns n f" for init src dest ns n f
  by unfold_locales (use ec.keeps [where x = "(src, dest, ns, n, f)"] in \<open>auto simp: spares_def\<close>)

interpretation sp_ex: sparing init "EnsureExtensionResource (mem_server init) k name src dest ns n ref"
  for init k name src dest ns n ref
  by unfold_locales (use ex.keeps [where x = "(k, name, src, dest, ns, n, ref)"] in \<open>auto simp: spares_def\<close>)

interpretation sp_ar: sparing init "applyHTTPRoute (mem_server init) rec d" for init rec d
  by unfold_locales (use ar.keeps [where x = d] in \<open>auto simp: spares_def\<close>)

text \<open>Operations that only read, or write other kinds.\<close>

interpretation sp_fc: sparing init "findCanarySiblings srv r primary" for init srv r primary
  by unfold_locales (rule spares_only [OF fc.writes_only], simp)

interpretation sp_ds: sparing init "detectSnippetConflicts srv r ing" for init srv r ing
  by unfold_locales (rule spares_only [OF ds.writes_only], simp)

interpretation sp_ba: sparing init "buildAuthInputs srv r ing" for init srv r ing
  by unfold_locales (rule spares_only [OF ba.writes_only], simp)

interpretation sp_np: sparing init "ResolveNamedPorts srv ing route extra" for init srv ing route extra
  by unfold_locales (rule spares_only [OF np.writes_only], simp)

interpretation sp_ls: sparing init "listSiblingIngresses srv ns" for init srv ns
  by unfold_locales (rule spares_only [OF ls.writes_only], simp)

interpretation sp_fg: sparing init "find_gateway srv r g" for init srv r g
  by unfold_locales (rule spares_only [OF fg.writes_only], simp)

interpretation sp_cu: sparing init "CanUpdateResource srv as ann k ns name" for init srv as ann k ns name
  by unfold_locales (rule spares_only [OF cu.writes_only], simp)

interpretation sp_ev: sparing init "evictReconcileCache srv cc ing cache" for init srv cc ing cache
  by unfold_locales (rule spares_only [OF ev.writes_only], simp)

interpretation sp_mr: sparing init "maybeRecordReconcile srv cc ord now ing ok cache" for init srv cc ord now ing ok cache
  by unfold_locales (rule spares_only [OF mr.writes_only], simp)

lemma spares_record [simp]:
  "spares init w w' \<Longrightarrow> spares init w (recordWarning r a b w')"
  "spares init w w' \<Longrightarrow> spares init w (recordNormal r a b w')"
  "spares init w w' \<Longrightarrow> spares init w (record_metric rec op ns n w')"
  by (auto simp: recordWarning_def recordNormal_def record_metric_def split: option.split)

text \<open>The routes of an Ingress.\<close>

interpretation sp_cf: sparing init "copy_filters (mem_server init) r ing names route" for init r ing names route
proof
  fix w
  have "spares init w w' \<Longrightarrow> spares init w (snd (copy_filters (mem_server init) r ing names route w'))" for w'
    by (induction names arbitrary: route w') (simp_all add: frame_simps split: sum.split bool.split)
  then show "spares init w (snd (copy_filters (mem_server init) r ing names route w))" by simp
qed

interpretation sp_an: sparing init "available_names (mem_server init) r ing k names" for init r ing k names
proof
  fix w
  have "spares init w w' \<Longrightarrow> spares init w (snd (available_names (mem_server init) r ing k names w'))" for w'
    by (induction names arbitrary: w') (simp_all add: frame_simps)
  then show "spares init w (snd (available_names (mem_server init) r ing k names w))" by simp
qed

interpretation sp_aa: sparing init "applyAnnotationExtensionRefs (mem_server init) r ing annotation k route"
  for init r ing annotation k route
  by unfold_locales (simp add: applyAnnotationExtensionRefs_def frame_simps)

abbreviation on_store :: "obj list \<Rightarrow> reconcile_env \<Rightarrow> reconcile_env" where
  "on_store init env \<equiv> env\<lparr>e_srv := mem_server init\<rparr>"

interpretation sp_ag: sparing init "apply_generated (on_store init env) r ing snippets route" for init env r ing snippets route
  by unfold_locales (simp add: apply_generated_def frame_simps split: sum.split)

interpretation sp_sf: sparing init "applySnippetsFilters (on_store init env) r ing route" for init env r ing route
  by unfold_locales (simp add: applySnippetsFilters_def frame_simps split: option.split)

interpretation sp_ae: sparing init "applyHTTPRouteExtensionRefs (on_store init env) r ing route" for init env r ing route
  by unfold_locales (simp add: applyHTTPRouteExtensionRefs_def frame_simps)

interpretation sp_br: sparing init "build_routes (on_store init env) r ing" for init env r ing
  by unfold_locales (simp add: build_routes_def frame_simps)

text \<open>Deleting routes that were read from the store and are marked with the Ingress.\<close>

lemma for_ingress_ours: "for_ingress ing route \<Longrightarrow> IsManagedByUs (hr_annotations route)"
  by (simp add: IsManagedByUsForIngress_def IsManagedByUs_def split: if_splits)

lemma spares_delete_routes:
  assumes "\<And>route. route \<in> set routes \<Longrightarrow> ORoute route \<in> set (store_of init (w_log w))"
  shows "spares init w (snd (delete_routes (mem_server init) rec ing routes w))"
  unfolding spares_def
proof (intro impI allI)
  fix k ns n y
  assume wf: "wf_store init" and un: "k \<in> derived_kinds \<and> unmanaged_at init w k ns n y"
  have "\<not> (k = KRoute \<and> (\<exists>r \<in> set routes. for_ingress ing r \<and> ns = hr_namespace r \<and> n = hr_name r))"
  proof
    assume "k = KRoute \<and> (\<exists>r \<in> set routes. for_ingress ing r \<and> ns = hr_namespace r \<and> n = hr_name r)"
    then obtain r where r: "k = KRoute" "r \<in> set routes" "for_ingress ing r" "ns = hr_namespace r" "n = hr_name r" by blast
    then have "stored_in init w KRoute ns n = Some (ORoute r)"
      using stored_in_set [OF wf_store_of [OF wf] assms [OF r(2)]] by simp
    with un r show False by (simp add: unmanaged_at_def for_ingress_ours)
  qed
  then show "unmanaged_at init (snd (delete_routes (mem_server init) rec ing routes w)) k ns n y"
    using un delete_routes_mem [of init rec ing routes w k ns n] by (auto simp: unmanaged_at_def)
qed

lemma routes_with_prefix:
  assumes "GetHTTPRoutesWithPrefix (mem_server init) ns pre w = (res, w')"
  shows "stored_in init w' = stored_in init w" and "spares init w w'"
    and "res = Inr routes \<Longrightarrow> route \<in> set routes \<Longrightarrow> ORoute route \<in> set (store_of init (w_log w'))"
proof -
  have log: "w_log w' = ListAll KRoute ns # w_log w"
    using assms by (auto simp: GetHTTPRoutesWithPrefix_def do_call_def Let_def split: sum.splits)
  then show st: "stored_in init w' = stored_in init w" by simp
  then show "spares init w w'" by (rule spares_stored)
  show "res = Inr routes \<Longrightarrow> route \<in> set routes \<Longrightarrow> ORoute route \<in> set (store_of init (w_log w'))"
    using GetHTTPRoutesWithPrefix_mem [of init ns pre w] assms log by (auto simp: store_step.simps)
qed

interpretation sp_at: sparing init "ApplyHTTPRoutesAtomic (mem_server init) rec ing routes" for init rec ing routes
proof
  fix w
  have apply_all: "spares init w v \<Longrightarrow> spares init w (snd (apply_routes (mem_server init) rec routes v))" for v
    by (induction routes arbitrary: v) (simp_all add: frame_simps split: sum.split)
  obtain res w' where list: "GetHTTPRoutesWithPrefix (mem_server init) (i_namespace ing) (i_name ing) w = (res, w')" by fastforce
  show "spares init w (snd (ApplyHTTPRoutesAtomic (mem_server init) rec ing routes w))"
  proof (cases res)
    case (Inl e)
    then show ?thesis using list routes_with_prefix(2) [OF list] by (simp add: ApplyHTTPRoutesAtomic_def)
  next
    case (Inr old)
    have "spares init w (snd (delete_routes (mem_server init) rec ing old w'))"
      by (rule spares_trans [OF routes_with_prefix(2) [OF list] spares_delete_routes]) (rule routes_with_prefix(3) [OF list Inr])
    then show ?thesis
      using list Inr apply_all routes_with_prefix(2) [OF list]
      by (simp add: ApplyHTTPRoutesAtomic_def frame_simps split: sum.split)
  qed
qed

section \<open>Gateways and grants\<close>

lemma find_gateway_ours:
  assumes "find_gateway (mem_server init) r g w = (Inr (Some (True, gw)), w')"
  shows "ours init w' KGateway (rr_gatewayNamespace r) g \<and> m_namespace (gw_meta gw) = rr_gatewayNamespace r \<and> m_name (gw_meta gw) = g"
proof (cases "stored_in init w KGateway (rr_gatewayNamespace r) g")
  case None
  then show ?thesis using assms by (simp add: find_gateway_def do_call_def decode_def)
next
  case (Some x)
  then obtain gw' where "x = OGateway gw'" "m_namespace (gw_meta gw') = rr_gatewayNamespace r" "m_name (gw_meta gw') = g"
    using stored_is [OF Some] obj_is_cases(4) by fastforce
  then show ?thesis
    using assms Some
    by (auto simp: find_gateway_def CanUpdateResource_def do_call_def decode_def Let_def ours_def split: if_splits)
qed

lemma spares_write_gateway:
  assumes "spares init w w'" and "there \<Longrightarrow> ours init w' KGateway (m_namespace (gw_meta gw)) (m_name (gw_meta gw))"
  shows "spares init w (snd (write_gateway srv there gw w'))"
  using assms by (auto simp: write_gateway_def frame_simps spares_Update split: option.split)

lemma ours_only: "only K w w' \<Longrightarrow> k \<notin> K \<Longrightarrow> ours init w' k ns n = ours init w k ns n"
  using only_other [of K w w' k init ns n] by (simp add: ours_def)

lemma grant_key [simp]: "obj_key (OGrant (with_sources xs g)) = obj_key (OGrant g)"
  by simp

lemma spares_grant_update:
  assumes "decode as_grant (mem_server init (Get KGrant ns n # w_log w)) = Inr g" and "IsManagedByUs (rg_annotations g)"
  shows "ours init w KGrant ns n" and "m_namespace (rg_meta g) = ns" and "m_name (rg_meta g) = n"
proof -
  from decode_stored [OF assms(1)] have st: "stored_in init w KGrant ns n = Some (OGrant g)"
    by (auto elim: as_grant.elims)
  then show "ours init w KGrant ns n" using assms(2) by (simp add: ours_def rg_annotations_def)
  show "m_namespace (rg_meta g) = ns" "m_name (rg_meta g) = n" using stored_is [OF st] by simp_all
qed

lemma spares_ensureReferenceGrant:
  "ensureReferenceGrant n (mem_server init) r route w' = Some (res, w'') \<Longrightarrow> spares init w w' \<Longrightarrow> spares init w w''"
proof (induction n arbitrary: w')
  case (Suc n)
  let ?get = "Get KGrant (hr_namespace route) ReferenceGrantName" and ?srv = "mem_server init"
  show ?case
  proof (cases "decode as_grant (?srv (?get # w_log w'))")
    case (Inl e)
    then show ?thesis
      using Suc by (auto simp: frame_simps simp del: mem_server_Cons split: option.splits if_splits)
  next
    case (Inr g)
    note g = spares_grant_update [OF Inr]
    show ?thesis
      using Suc Inr g by (auto simp: frame_simps spares_Update simp del: mem_server_Cons split: option.splits if_splits)
  qed
qed simp

lemma spares_ensure_grant:
  "ensure_grant n (mem_server init) r route w' = Some w'' \<Longrightarrow> spares init w w' \<Longrightarrow> spares init w w''"
  using spares_ensureReferenceGrant [of n init r route w' _ w'' w] by (auto simp: ensure_grant_def split: if_splits)

lemma spares_ensure_grants:
  "ensure_grants n (mem_server init) r routes w' = Some w'' \<Longrightarrow> spares init w w' \<Longrightarrow> spares init w w''"
proof (induction routes arbitrary: w')
  case (Cons route routes)
  then show ?case using spares_ensure_grant [of n init r route w' _ w] by (auto split: option.splits)
qed simp

lemma spares_update_listeners:
  assumes "update_listeners (on_store init env) r g ing routes w = Some (res, w')"
  shows "spares init w w'"
proof -
  obtain found w1 where find: "find_gateway (mem_server init) (listener_reconciler r) g w = (found, w1)" by fastforce
  then have w1: "spares init w w1" using sp_fg.spares_run [of init w "mem_server init" "listener_reconciler r" g] by simp
  show ?thesis
  proof (cases found)
    case (Inl e)
    then show ?thesis using assms find w1 by (simp add: update_listeners_def ensureGatewayForListenerUpdate_def)
  next
    case (Inr x)
    show ?thesis
    proof (cases x)
      case None
      then show ?thesis using assms find w1 Inr by (simp add: update_listeners_def ensureGatewayForListenerUpdate_def)
    next
      case (Some y)
      obtain there gw where y: "y = (there, gw)" by fastforce
      obtain w2 where grants: "ensure_grants (e_fuel env) (mem_server init) (listener_reconciler r) routes w1 = Some w2"
        using assms find Inr Some y
        by (auto simp: update_listeners_def ensureGatewayForListenerUpdate_def Let_def split: option.splits)
      obtain gw' updated where upd: "update_for_routes (e_ordMismatch env) (listener_reconciler r) ing routes gw = (gw', updated)"
        by fastforce
      have "there \<Longrightarrow> ours init w2 KGateway (m_namespace (gw_meta gw')) (m_name (gw_meta gw'))"
        using find_gateway_ours [of init "listener_reconciler r" g w gw w1] find Inr Some y
          ours_only [OF only_ensure_grants [OF grants only_refl], of KGateway init] update_for_routes_hosts(3,4) [OF upd] by simp
      then have "spares init w (snd (if updated then write_gateway (mem_server init) there gw' w2 else (Inr None, w2)))"
        using spares_ensure_grants [OF grants w1] by (simp add: spares_write_gateway)
      then show ?thesis
        using assms find Inr Some y grants upd
        by (simp add: update_listeners_def ensureGatewayForListenerUpdate_def)
    qed
  qed
qed

section \<open>Runs of the Ingress controller\<close>

lemma spares_deleteManaged: "spares init w (snd (deleteManagedHTTPRoutes (mem_server init) ing w))"
proof -
  obtain res w' where list: "GetHTTPRoutesWithPrefix (mem_server init) (i_namespace ing) (i_name ing) w = (res, w')" by fastforce
  note w' = routes_with_prefix(2) [OF list]
  show ?thesis
  proof (cases res)
    case (Inl e)
    then show ?thesis using list w' by (simp add: deleteManagedHTTPRoutes_def)
  next
    case (Inr old)
    have "spares init w (snd (delete_managed (mem_server init) ing old w'))"
      unfolding delete_managed_routes [THEN conjunct1]
      by (rule spares_trans [OF w' spares_delete_routes]) (rule routes_with_prefix(3) [OF list Inr])
    then show ?thesis using list Inr by (simp add: deleteManagedHTTPRoutes_def)
  qed
qed

interpretation sp_run: ingress_run "on_store init env" "spares init" for init env
proof
  show "spares init w w'' " if "spares init w w'" "spares init w' w''" for w w' w'' using that by (rule spares_trans)
  show "spares init w w'" if "only {KIngress, KIngressClass, KConfigMap} w w'" for w w'
    by (rule spares_only [OF that]) simp
  show "spares init w (snd (build_routes (on_store init env) r ing w))" for w r ing by (rule sp_br.spares_run)
  show "spares init w (snd (ApplyHTTPRoutesAtomic (e_srv (on_store init env)) (Some HTTPRouteResourcesTotal) ing routes w))"
    for w ing routes using sp_at.spares_run by simp
  show "spares init w w'" if "update_listeners (on_store init env) r g ing routes w = Some (res, w')" for r g ing routes w res w'
    using that by (rule spares_update_listeners)
  show "spares init w (snd (deleteManagedHTTPRoutes (e_srv (on_store init env)) ing w))" for w ing
    using spares_deleteManaged by simp
qed

lemma spares_Ingress_Reconcile:
  "Ingress_Reconcile (on_store init env) r ns name s = Some (res, s') \<Longrightarrow> spares init (ct_world s) (ct_world s')"
  by (rule sp_run.run)

section \<open>Runs of the HTTPRoute controller\<close>

lemma spares_cleanupReferenceGrant:
  assumes "spares init w w'"
  shows "spares init w (snd (cleanupReferenceGrant (mem_server init) ns name w'))"
proof (cases "decode as_grant (mem_server init (Get KGrant ns ReferenceGrantName # w_log w'))")
  case (Inl e)
  then show ?thesis using assms by (simp add: cleanupReferenceGrant_def frame_simps del: mem_server_Cons)
next
  case (Inr g)
  note g = spares_grant_update [OF Inr]
  show ?thesis
    using assms Inr g
    by (auto simp: cleanupReferenceGrant_def delete_grant_def frame_simps spares_Update spares_Delete
        simp del: mem_server_Cons split: option.splits if_splits)
qed

lemma only_cleanup: "only {KGrant} w (snd (cleanupReferenceGrant srv ns name w))"
  by (simp add: cleanupReferenceGrant_def delete_grant_def frame_simps split: sum.split option.split)

interpretation hd: frame "\<lambda>w. ((), fst (snd (handleHTTPRouteDelete srv r route w d)))" "{KGrant}" for srv r route d
  by unfold_locales (simp add: handleHTTPRouteDelete_def frame_simps only_cleanup split: sum.split)

lemma spares_handleHTTPRouteDelete: "spares init w (fst (snd (handleHTTPRouteDelete (mem_server init) r route w d)))"
  by (simp add: handleHTTPRouteDelete_def frame_simps spares_cleanupReferenceGrant split: sum.split)

lemma route_ours:
  assumes "decode as_route (mem_server init (Get KRoute ns n # w_log w)) = Inr route" and "isManagedByUs route"
  shows "ours init w KRoute ns n" and "hr_namespace route = ns" and "hr_name route = n"
proof -
  from decode_stored [OF assms(1)] have st: "stored_in init w KRoute ns n = Some (ORoute route)"
    by (auto elim: as_route.elims)
  then show "ours init w KRoute ns n"
    using assms(2) by (simp add: ours_def isManagedByUs_def IsManagedByUs_def mget_def)
  show "hr_namespace route = ns" "hr_name route = n" using stored_is [OF st] by simp_all
qed

lemma spares_finalize_route:
  assumes "ours init w KRoute (hr_namespace route) (hr_name route)"
  shows "spares init w (fst (snd (finalize_route (mem_server init) r route w d)))"
proof -
  let ?w = "fst (snd (handleHTTPRouteDelete (mem_server init) r route w d))"
  have "ours init ?w KRoute (hr_namespace route) (hr_name route)"
    using assms ours_only [OF hd.writes_only, of KRoute] by simp
  then show ?thesis
    using spares_Update [OF spares_handleHTTPRouteDelete [of init w r route d], where srv = "mem_server init"]
    by (simp add: finalize_route_def with_finalizers_def frame_simps split: option.split)
qed

lemma spares_add_finalizer:
  assumes "ours init w' KRoute (hr_namespace route) (hr_name route)" and "spares init w w'"
  shows "spares init w (snd (add_finalizer (mem_server init) route w'))"
  using assms by (auto simp: add_finalizer_def with_finalizers_def frame_simps spares_Update split: option.split)

interpretation de: frame "disableExternalDNS srv ing" "{KIngress}" for srv ing
  by unfold_locales (simp add: disableExternalDNS_def frame_simps split: sum.split option.split)

interpretation sp_de: sparing init "disableExternalDNS srv ing" for init srv ing
  by unfold_locales (rule spares_only [OF de.writes_only], simp)

interpretation rs: frame "resolveIngressForHTTPRoute srv route" "{}" for srv route
  by unfold_locales
     (simp add: resolveIngressForHTTPRoute_def fetch_source_def frame_simps split: option.split sum.split list.split)

interpretation sp_rs: sparing init "resolveIngressForHTTPRoute srv route" for init srv route
  by unfold_locales (rule spares_only [OF rs.writes_only], simp)

interpretation sp_cg: sparing init "create_gateway srv r gw ing" for init srv r gw ing
  by unfold_locales (simp add: create_gateway_def frame_simps split: option.split)

lemma spares_createOrUpdate:
  assumes "handleHTTPRouteCreateOrUpdate ord n (mem_server init) r route w' d = Some (res, w'', d')" and "spares init w w'"
  shows "spares init w w''"
proof -
  let ?g = "getGatewayNameFromHTTPRoute r route"
  obtain src w1 where src: "resolveIngressForHTTPRoute (mem_server init) route w' = (src, w1)" by fastforce
  obtain found w2 where found: "find_gateway (mem_server init) r ?g w1 = (found, w2)" by fastforce
  have w1: "spares init w w1" using sp_rs.after [OF assms(2), of "mem_server init" route] src by simp
  have w2: "spares init w w2" using sp_fg.after [OF w1, of "mem_server init" r ?g] found by simp
  have grant: "spares init w w3" if "ensure_grant n (mem_server init) r route w2 = Some w3" for w3
    by (rule spares_ensure_grant [OF that w2])
  have create: "spares init w (snd (create_gateway (mem_server init) r gw ing w3))"
    if "ensure_grant n (mem_server init) r route w2 = Some w3" for w3 gw ing
    by (rule sp_cg.after [OF grant [OF that]])
  show ?thesis
    using assms src found w1 w2 grant create
    by (auto simp: handleHTTPRouteCreateOrUpdate_def frame_simps split: if_splits prod.splits sum.splits option.splits)
qed

lemma spares_HTTPRoute_Reconcile:
  assumes "HTTPRoute_Reconcile ord n (mem_server init) r ns name w d = Some (res, w', d')"
  shows "spares init w w'"
proof -
  let ?w0 = "snd (do_call (mem_server init) (Get KRoute ns name) w)"
  show ?thesis
  proof (cases "decode as_route (mem_server init (Get KRoute ns name # w_log w))")
    case (Inl e)
    then show ?thesis using assms by (auto simp: HTTPRoute_Reconcile_def frame_simps simp del: mem_server_Cons)
  next
    case (Inr route)
    show ?thesis
    proof (cases "isManagedByUs route")
      case False
      then show ?thesis using assms Inr by (auto simp: HTTPRoute_Reconcile_def frame_simps simp del: mem_server_Cons)
    next
      case True
      note key = route_ours [OF Inr True]
      have own: "ours init ?w0 KRoute (hr_namespace route) (hr_name route)" using key by simp
      have w0: "spares init w ?w0" by simp
      have fin: "spares init w (fst (snd (finalize_route (mem_server init) r route ?w0 d)))"
        by (rule spares_trans [OF w0 spares_finalize_route [OF own]])
      obtain fr w1 where add: "add_finalizer (mem_server init) route ?w0 = (fr, w1)" by fastforce
      then have w1: "spares init w w1" using spares_add_finalizer [OF own w0] by simp
      show ?thesis
        using assms Inr True fin add w1 spares_createOrUpdate [OF _ w1, of ord n r _ d res w' d']
        by (auto simp: HTTPRoute_Reconcile_def frame_simps simp del: mem_server_Cons split: if_splits sum.splits)
    qed
  qed
qed

lemma reconcile_attempt_foreign:
  assumes "\<And>gw. gateway_at init w r g = Some (OGateway gw) \<Longrightarrow> \<not> IsManagedByUs (gw_annotations gw)"
  shows "\<exists>w'. reconcile_attempt ordT ordL (mem_server init) r g routes w = (Some (Inr False), w') \<and> stored_in init w' = stored_in init w"
proof (cases "gateway_at init w r g")
  case None
  then show ?thesis by (simp add: reconcile_attempt_def do_call_def decode_def)
next
  case (Some x)
  then obtain gw where "x = OGateway gw" using stored_is [OF Some] obj_is_cases(4) by blast
  then show ?thesis
    using Some assms by (simp add: reconcile_attempt_def CanUpdateResource_def do_call_def decode_def)
qed

lemma spares_executeGatewayUpdate:
  assumes "is_order ordT" and "is_order ordL"
  shows "spares init w (executeGatewayUpdate ordT ordL (mem_server init) r g w)"
proof (cases "\<exists>gw. gateway_at init w r g = Some (OGateway gw) \<and> IsManagedByUs (gw_annotations gw)")
  case True
  then obtain gw where gw: "gateway_at init w r g = Some (OGateway gw)" "IsManagedByUs (gw_annotations gw)" by blast
  have "stored_in init (executeGatewayUpdate ordT ordL (mem_server init) r g w) k ns n = stored_in init w k ns n"
    if "k \<in> derived_kinds" "(k, ns, n) \<noteq> (KGateway, rr_gatewayNamespace r, g)" for k ns n
    using executeGatewayUpdate_mem [OF assms gw] that by (cases "k = KIngress") auto
  moreover have "(k, ns, n) \<noteq> (KGateway, rr_gatewayNamespace r, g)" if "unmanaged_at init w k ns n y" for k ns n y
    using that gw by (auto simp: unmanaged_at_def)
  ultimately show ?thesis unfolding spares_def unmanaged_at_def by (metis (no_types, lifting))
next
  case False
  let ?w1 = "w\<lparr>w_log := ListAll KRoute [] # w_log w\<rparr>" and ?rs = "routes_of init w r g"
  obtain w2 where "reconcile_attempt ordT ordL (mem_server init) r g ?rs ?w1 = (Some (Inr False), w2)"
    and "stored_in init w2 = stored_in init w"
    using reconcile_attempt_foreign [of init ?w1 r g ordT ordL ?rs] False by auto
  then show ?thesis
    using spares_stored [of init w2 w]
    by (simp add: executeGatewayUpdate_def listHTTPRoutesForGateway_mem reconcileGatewayListeners_def numeral_3_eq_3)
qed

end
