(* ===== verification/System.thy ===== *)
theory System
  imports Ownership
begin

text \<open>
  The running operator: both controllers, the debouncer and everyone else who writes to the
  cluster, one step at a time. A step is a run of a controller for one object, the firing of a
  timer, a debounced Gateway update, or a write by someone else; runs take place in any order
  and with any iteration order of maps. The state is what the process keeps (the world with its
  log, the reconcile cache, the memory of own deletions, the timers) and, as a ghost, the
  Gateways that are owed an update.
\<close>

section \<open>Steps\<close>

record system =
  sy_ctl :: ctl
  sy_db :: db_state

abbreviation sy_world :: "system \<Rightarrow> world" where
  "sy_world s \<equiv> ct_world (sy_ctl s)"

definition with_world :: "world \<Rightarrow> system \<Rightarrow> system" where
  "with_world w s = s\<lparr>sy_ctl := set_world w (sy_ctl s)\<rparr>"

lemma with_world_sel [simp]: "sy_world (with_world w s) = w" "sy_db (with_world w s) = sy_db s"
  by (simp_all add: with_world_def)

definition sys_start :: system where
  "sys_start = \<lparr>sy_ctl = \<lparr>ct_world = empty_world, ct_cache = Some [], ct_selfDeleted = []\<rparr>,
     sy_db = (newGatewayUpdateDebouncer, {})\<rparr>"

text \<open>The steps of the runtime of Go, with the update that a fired timer begins.\<close>

inductive timer_step :: "obj list \<Rightarrow> route_reconciler \<Rightarrow> system \<Rightarrow> system \<Rightarrow> bool" for init rr where
  fire: "sy_db s = (d, owed) \<Longrightarrow> x \<in> set (db_armed d) \<Longrightarrow>
    timer_step init rr s (s\<lparr>sy_db := (fire_timer x d, owed)\<rparr>)"
| gateway_update: "sy_db s = (d, owed) \<Longrightarrow> x \<in> set (db_fired d) \<Longrightarrow> is_order ordT \<Longrightarrow> is_order ordL \<Longrightarrow>
    timer_step init rr s (with_world (executeGatewayUpdate ordT ordL (mem_server init) rr (snd x) (sy_world s))
      s\<lparr>sy_db := (begin_execute x d, owed - {snd x})\<rparr>)"

text \<open>
  All steps. The parameter \<open>may\<close> says which calls others make. A run that uses up its fuel has no
  step; enough fuel exists for every run over this store.
\<close>

inductive sys_step :: "obj list \<Rightarrow> ingress_reconciler \<Rightarrow> route_reconciler \<Rightarrow> (call \<Rightarrow> bool) \<Rightarrow> system \<Rightarrow> system \<Rightarrow> bool"
  for init r rr may where
  ingress_run: "e_srv env = mem_server init \<Longrightarrow> Ingress_Reconcile env r ns name (sy_ctl s) = Some (res, c) \<Longrightarrow>
    sys_step init r rr may s (s\<lparr>sy_ctl := c\<rparr>)"
| route_run: "sy_db s = (d, owed) \<Longrightarrow>
    HTTPRoute_Reconcile ord n (mem_server init) rr ns name (sy_world s) d = Some (res, w, d') \<Longrightarrow>
    (d', owed') = (d, owed) \<or> (\<exists>g. (d', owed') = (scheduleGatewayUpdate g d, insert g owed)) \<Longrightarrow>
    sys_step init r rr may s (with_world w s\<lparr>sy_db := (d', owed')\<rparr>)"
| timer: "timer_step init rr s s' \<Longrightarrow> sys_step init r rr may s s'"
| other: "may c \<Longrightarrow> sys_step init r rr may s (with_world (emit c (sy_world s)) s)"

inductive_cases timer_stepE: "timer_step init rr s s'"
inductive_cases sys_stepE: "sys_step init r rr may s s'"

section \<open>What others own\<close>

text \<open>A call that does not write the object at a key.\<close>

fun leaves :: "kind \<Rightarrow> string \<Rightarrow> string \<Rightarrow> call \<Rightarrow> bool" where
  "leaves k ns n (Create x) = (\<not> obj_is k ns n x)"
| "leaves k ns n (Update x) = (\<not> obj_is k ns n x)"
| "leaves k ns n (Delete k' ns' n' b) = ((k, ns, n) \<noteq> (k', ns', n'))"
| "leaves k ns n c = True"

lemma leaves_stored: "leaves k ns n c \<Longrightarrow> stored (store_step c s) k ns n = stored s k ns n"
proof (cases c)
  case (Create x)
  assume "leaves k ns n c"
  then show ?thesis
    using Create by (cases "list_ex (same_obj x) s") (simp_all add: store_step.simps(1) stored_def)
next
  case (Update x)
  assume "leaves k ns n c"
  moreover have "map (\<lambda>y. if same_obj x y then x else y) s = s" if "\<not> list_ex (same_obj x) s"
    using that by (intro map_idI) (auto simp: list_ex_iff)
  ultimately show ?thesis
    using Update stored_Update [of x s k ns n] by (cases "list_ex (same_obj x) s") (simp_all add: store_step.simps(2))
qed auto

lemma sys_step_spares:
  assumes "sys_step init r rr (leaves k ns n) s s'" and "wf_store init" and "k \<in> derived_kinds"
    and "unmanaged_at init (sy_world s) k ns n y"
  shows "unmanaged_at init (sy_world s') k ns n y"
  using assms(1)
proof (cases rule: sys_step.cases)
  case (ingress_run env ns' name res c)
  then have "on_store init env = env" by simp
  then have "Ingress_Reconcile (on_store init env) r ns' name (sy_ctl s) = Some (res, c)" using ingress_run by metis
  from spares_Ingress_Reconcile [OF this] have "spares init (sy_world s) (sy_world s')" using ingress_run by simp
  then show ?thesis using assms by (auto simp: spares_def)
next
  case (route_run d owed ord m ns' name res w d' owed')
  then have "spares init (sy_world s) (sy_world s')" using spares_HTTPRoute_Reconcile by simp
  then show ?thesis using assms by (auto simp: spares_def)
next
  case timer
  then have "spares init (sy_world s) (sy_world s')"
    by (auto elim!: timer_stepE simp: spares_executeGatewayUpdate)
  then show ?thesis using assms by (auto simp: spares_def)
next
  case (other c)
  then show ?thesis using assms(4) leaves_stored [of k ns n c] by (simp add: unmanaged_at_def)
qed

section \<open>Updates that settle\<close>

text \<open>In the modes that leave external-dns alone, an update writes its own Gateway and nothing else.\<close>

lemma only_collect: "only K w w' \<Longrightarrow> only K w (snd (collect_candidates srv r routes acc w'))"
  by (induction routes arbitrary: acc w') (simp_all add: frame_simps split: sum.split)

lemma only_attempt: "only {KGateway} w (snd (reconcile_attempt ordT ordL srv r g routes w))"
  by (simp add: reconcile_attempt_def buildDesiredListenerTLS_def frame_simps only_collect split: sum.split bool.split option.split)

lemma only_attempts: "only {KGateway} w w' \<Longrightarrow> only {KGateway} w (snd (reconcile_attempts n ordT ordL srv r g routes w'))"
  by (induction n arbitrary: w') (auto simp: case_prod_beta intro: only_trans [OF _ only_attempt] split: option.split)

lemma only_executeGatewayUpdate:
  assumes "rr_postProcessingMode r \<noteq> IngressPostProcessingModeDisableExternalDNS"
  shows "only {KGateway} w (executeGatewayUpdate ordT ordL srv r g w)"
  using assms
  by (simp add: executeGatewayUpdate_def listHTTPRoutesForGateway_def reconcileGatewayListeners_def delete_if_empty_def
      frame_simps only_attempts split: sum.split)

lemma routes_step:
  assumes "allowed {KGateway} c"
  shows "List.map_filter as_route (store_step c s) = List.map_filter as_route s"
proof (cases c)
  case (Create x)
  with assms show ?thesis by (cases x) (auto simp: store_step.simps List.map_filter_simps)
next
  case (Update x)
  have "List.map_filter as_route (map (\<lambda>y. if same_obj x y then x else y) s) = List.map_filter as_route s"
  proof (induction s)
    case (Cons y s)
    have "as_route (if same_obj x y then x else y) = as_route y"
      using assms Update by (cases x; cases y) (auto simp: same_obj_def)
    with Cons show ?case by (simp add: List.map_filter_simps split: option.split)
  qed (simp add: List.map_filter_simps)
  with Update show ?thesis by (simp add: store_step.simps)
next
  case (Delete k ns n b)
  have "List.map_filter as_route (filter (\<lambda>y. \<not> obj_is k ns n y) s) = List.map_filter as_route s"
  proof (induction s)
    case (Cons y s)
    have "obj_is k ns n y \<Longrightarrow> as_route y = None" using assms Delete by (cases y) auto
    with Cons show ?case by (auto simp: List.map_filter_simps split: option.split)
  qed (simp add: List.map_filter_simps)
  with Delete show ?thesis by (simp add: store_step.simps)
qed (use assms in auto)

lemma routes_of_only: "only {KGateway} w w' \<Longrightarrow> routes_of init w' r g = routes_of init w r g"
proof -
  have "only_log {KGateway} l l' \<Longrightarrow>
      List.map_filter as_route (store_of init l') = List.map_filter as_route (store_of init l)" for l l'
    by (induction rule: only_log.induct) (simp_all add: routes_step)
  then show "only {KGateway} w w' \<Longrightarrow> routes_of init w' r g = routes_of init w r g" by (simp add: only_def routes_of_def)
qed

lemma source_of_only: "only {KGateway} w w' \<Longrightarrow> source_of init w' = source_of init w"
proof -
  assume "only {KGateway} w w'"
  then have "ingress_in init w' = ingress_in init w"
    using only_other [of "{KGateway}" w w' KIngress init] by (intro ext) (simp add: ingress_in_def)
  then show ?thesis unfolding source_of_def [abs_def] by (rule arg_cong)
qed

text \<open>A Gateway that is as its live routes ask for; it may be gone only if they ask for no listener.\<close>

definition settled :: "obj list \<Rightarrow> route_reconciler \<Rightarrow> string \<Rightarrow> world \<Rightarrow> bool" where
  "settled init rr g w \<longleftrightarrow> (\<exists>gw. gateway_matches rr (source_of init w) (routes_of init w rr g) gw \<and>
     gateway_at init w rr g \<in> (if gw_listeners gw = [] then {None, Some (OGateway gw)} else {Some (OGateway gw)}))"

lemma settled_frame:
  assumes "only {KGateway} w w'" and "gateway_at init w' rr g = gateway_at init w rr g"
  shows "settled init rr g w' = settled init rr g w"
  using routes_of_only [OF assms(1)] source_of_only [OF assms(1)] assms(2) by (simp add: settled_def)

lemma execute_foreign:
  assumes "\<And>gw. gateway_at init w r g = Some (OGateway gw) \<Longrightarrow> \<not> IsManagedByUs (gw_annotations gw)"
  shows "stored_in init (executeGatewayUpdate ordT ordL (mem_server init) r g w) = stored_in init w"
proof -
  let ?w1 = "w\<lparr>w_log := ListAll KRoute [] # w_log w\<rparr>"
  obtain w2 where "reconcile_attempt ordT ordL (mem_server init) r g (routes_of init w r g) ?w1 = (Some (Inr False), w2)"
    and "stored_in init w2 = stored_in init w"
    using reconcile_attempt_foreign [of init ?w1 r g ordT ordL "routes_of init w r g"] assms by auto
  then show ?thesis
    by (simp add: executeGatewayUpdate_def listHTTPRoutesForGateway_mem reconcileGatewayListeners_def numeral_3_eq_3)
qed

lemma execute_settles:
  assumes "is_order ordT" and "is_order ordL" and mode: "rr_postProcessingMode rr \<noteq> IngressPostProcessingModeDisableExternalDNS"
    and "settled init rr g w \<or> (\<exists>gw. gateway_at init w rr g = Some (OGateway gw) \<and> IsManagedByUs (gw_annotations gw))"
  shows "settled init rr g (executeGatewayUpdate ordT ordL (mem_server init) rr g w)"
proof (cases "\<exists>gw. gateway_at init w rr g = Some (OGateway gw) \<and> IsManagedByUs (gw_annotations gw)")
  case True
  let ?w' = "executeGatewayUpdate ordT ordL (mem_server init) rr g w"
  have frame: "only {KGateway} w ?w'" using mode by (rule only_executeGatewayUpdate)
  from True obtain gw where "gateway_at init w rr g = Some (OGateway gw)" "IsManagedByUs (gw_annotations gw)" by blast
  from executeGatewayUpdate_mem [OF assms(1,2) this] show ?thesis
    unfolding settled_def routes_of_only [OF frame] source_of_only [OF frame] by blast
next
  case False
  then have "stored_in init (executeGatewayUpdate ordT ordL (mem_server init) rr g w) = stored_in init w"
    by (intro execute_foreign) auto
  then show ?thesis
    using settled_frame [OF only_executeGatewayUpdate [OF mode]] assms(4) False by fastforce
qed

text \<open>Other Gateways keep their state.\<close>

lemma execute_other:
  assumes "is_order ordT" and "is_order ordL" and "g' \<noteq> g"
  shows "gateway_at init (executeGatewayUpdate ordT ordL (mem_server init) rr g w) rr g' = gateway_at init w rr g'"
proof (cases "\<exists>gw. gateway_at init w rr g = Some (OGateway gw) \<and> IsManagedByUs (gw_annotations gw)")
  case True
  then obtain gw where gw: "gateway_at init w rr g = Some (OGateway gw)" "IsManagedByUs (gw_annotations gw)" by blast
  show ?thesis using executeGatewayUpdate_mem [OF assms(1,2) gw] assms(3) by auto
next
  case False
  then show ?thesis by (simp add: execute_foreign)
qed

text \<open>
  Along the steps of the timers a Gateway of the operator is owed an update, and waits for it with
  its mark, or is settled.
\<close>

definition pending_or_settled :: "obj list \<Rightarrow> route_reconciler \<Rightarrow> string \<Rightarrow> system \<Rightarrow> bool" where
  "pending_or_settled init rr g s \<longleftrightarrow> settled init rr g (sy_world s) \<or>
     g \<in> snd (sy_db s) \<and> (\<exists>gw. gateway_at init (sy_world s) rr g = Some (OGateway gw) \<and> IsManagedByUs (gw_annotations gw))"

lemma timer_step_settles:
  assumes "timer_step init rr s s'" and "rr_postProcessingMode rr \<noteq> IngressPostProcessingModeDisableExternalDNS"
    and "pending_or_settled init rr g s"
  shows "pending_or_settled init rr g s'"
  using assms(1)
proof (cases rule: timer_step.cases)
  case (fire d owed x)
  then show ?thesis using assms(3) by (simp add: pending_or_settled_def)
next
  case (gateway_update d owed x ordT ordL)
  let ?w' = "executeGatewayUpdate ordT ordL (mem_server init) rr (snd x) (sy_world s)"
  have s': "sy_world s' = ?w'" "sy_db s' = (begin_execute x d, owed - {snd x})" using gateway_update by (simp_all add: with_world_def)
  show ?thesis
  proof (cases "snd x = g")
    case True
    then have "settled init rr g ?w'"
      using execute_settles [OF gateway_update(4,5) assms(2), of init g "sy_world s"] assms(3) by (auto simp: pending_or_settled_def)
    then show ?thesis by (simp add: pending_or_settled_def s')
  next
    case False
    then have at: "gateway_at init ?w' rr g = gateway_at init (sy_world s) rr g"
      using execute_other [OF gateway_update(4,5)] by simp
    moreover have "settled init rr g ?w' = settled init rr g (sy_world s)"
      by (rule settled_frame [OF only_executeGatewayUpdate [OF assms(2)] at])
    ultimately show ?thesis using assms(3) gateway_update(2) False by (auto simp: pending_or_settled_def s')
  qed
qed

text \<open>The timers of the system take the steps of the debouncer.\<close>

lemma timer_step_runtime: "timer_step init rr s s' \<Longrightarrow> runtime_step (sy_db s) (sy_db s')"
proof (induction rule: timer_step.induct)
  case (fire s d owed x)
  then show ?case by (simp add: runtime_step.fire)
next
  case (gateway_update s d owed x ordT ordL)
  then show ?case using runtime_step.run [of x d owed] by (simp add: with_world_def)
qed

lemma sys_step_db: "sys_step init r rr may s s' \<Longrightarrow> sy_db s' = sy_db s \<or> db_step (sy_db s) (sy_db s')"
  by (auto elim!: sys_stepE simp: with_world_def intro: db_step.intros dest: timer_step_runtime)

lemma sys_db_reachable:
  "(sys_step init r rr may)\<^sup>*\<^sup>* s s' \<Longrightarrow> db_reachable (sy_db s) \<Longrightarrow> db_reachable (sy_db s')"
  by (induction rule: rtranclp_induct) (auto dest!: sys_step_db intro: db_reachable.step)

lemma timer_stuck:
  assumes "\<nexists>s'. timer_step init rr s s'"
  shows "db_waiting (fst (sy_db s)) = {}"
proof (rule equals0I)
  fix x
  assume x: "x \<in> db_waiting (fst (sy_db s))"
  obtain d owed where db: "sy_db s = (d, owed)" by fastforce
  from x db consider "x \<in> set (db_armed d)" | "x \<in> set (db_fired d)" by (auto simp: db_waiting_def)
  then show False
    using assms timer_step.fire [OF db] timer_step.gateway_update [OF db _ is_order_rev is_order_rev] by cases blast+
qed

section \<open>Properties\<close>

text \<open>
  C3. The operator never touches what it does not own. Take an HTTPRoute, Gateway, ReferenceGrant or
  extension filter without the mark of the operator. However runs of the two controllers for
  whatever objects, timers, Gateway updates and writes of others to other objects interleave,
  the object stays exactly as it is.
\<close>

theorem others_untouched:
  assumes "wf_store init" and "k \<in> derived_kinds"
    and "stored_in init (sy_world s) k ns n = Some y" and "\<not> IsManagedByUs (obj_annotations y)"
    and "(sys_step init r rr (leaves k ns n))\<^sup>*\<^sup>* s s'"
  shows "stored_in init (sy_world s') k ns n = Some y"
proof -
  have "unmanaged_at init (sy_world s') k ns n y"
    using assms(5)
  proof (induction rule: rtranclp_induct)
    case base
    show ?case using assms(3,4) by (simp add: unmanaged_at_def)
  next
    case (step s1 s2)
    show ?case by (rule sys_step_spares [OF step(2) assms(1,2) step(3)])
  qed
  then show ?thesis by (simp add: unmanaged_at_def)
qed

text \<open>A run for an Ingress whose Gateway belongs to someone else.\<close>

definition example_foreign :: gateway where
  "example_foreign = example_gateway\<lparr>gw_meta := empty_meta\<lparr>m_namespace := ''gateway'', m_name := ''nginx''\<rparr>\<rparr>"

abbreviation example_shared_store :: "obj list" where
  "example_shared_store \<equiv> [OGateway example_foreign, OIngress example_ingress]"

lemma example_run_ends: "Ingress_Reconcile (example_env example_shared_store) example_ingress_controller ''shop'' ''prod'' example_ctl \<noteq> None"
  by code_simp

theorem others_untouched_witness:
  "\<exists>s'. sys_step example_shared_store example_ingress_controller example_controller (leaves KGateway ''gateway'' ''nginx'')
      \<lparr>sy_ctl = example_ctl, sy_db = (newGatewayUpdateDebouncer, {})\<rparr> s' \<and>
    stored_in example_shared_store (sy_world s') KGateway ''gateway'' ''nginx'' = Some (OGateway example_foreign)"
proof -
  let ?s = "\<lparr>sy_ctl = example_ctl, sy_db = (newGatewayUpdateDebouncer, {})\<rparr>" and ?init = example_shared_store
  obtain res c where "Ingress_Reconcile (example_env ?init) example_ingress_controller ''shop'' ''prod'' (sy_ctl ?s) = Some (res, c)"
    using example_run_ends by auto
  then have step: "sys_step ?init example_ingress_controller example_controller (leaves KGateway ''gateway'' ''nginx'') ?s
      (?s\<lparr>sy_ctl := c\<rparr>)" by (rule sys_step.ingress_run [rotated]) (simp add: example_env_def)
  have "wf_store ?init" "stored_in ?init (sy_world ?s) KGateway ''gateway'' ''nginx'' = Some (OGateway example_foreign)"
    "\<not> IsManagedByUs (obj_annotations (OGateway example_foreign))"
    by (simp_all add: wf_store_def stored_def example_ctl_def empty_world_def example_foreign_def IsManagedByUs_def mget_def
        empty_meta_def)
  from others_untouched [OF this(1) _ this(2,3) r_into_rtranclp [where r = "sys_step _ _ _ _", OF step]] step
  show ?thesis by auto
qed


text \<open>A run for a route that asks for a listener, and the timer it starts.\<close>

lemma example_route_run:
  "case HTTPRoute_Reconcile (\<lambda>xs. xs) 2 (mem_server example_store) example_controller ''shop'' ''prod'' empty_world
      newGatewayUpdateDebouncer of
     None \<Rightarrow> False
   | Some (res, w, d) \<Rightarrow> d = scheduleGatewayUpdate ''shared'' newGatewayUpdateDebouncer \<and>
       (case Option.bind (gateway_at example_store w example_controller ''shared'') as_gateway of
          Some gw \<Rightarrow> IsManagedByUs (gw_annotations gw) | None \<Rightarrow> False)"
  by code_simp


end
