(* ===== verification/Route_Types.thy ===== *)
theory Route_Types
  imports Ingress_Properties
begin

text \<open>
  The routes that the Ingress controller writes are well typed: ports are valid port numbers,
  with no placeholder left over, weights fit 32 bits, a route has at most 16 rules, and its
  annotations are a map. This follows the route through translation, canaries, filters, named
  ports and splitting, for every server that hands out well-typed Services and Ingresses, errors
  included.
\<close>

section \<open>Types\<close>

definition valid_port :: "int \<Rightarrow> bool" where
  "valid_port p \<longleftrightarrow> 1 \<le> p \<and> p \<le> 65535"

definition typed_weight :: "http_backend_ref \<Rightarrow> bool" where
  "typed_weight ref \<longleftrightarrow> (\<forall>x. br_weight ref = Some x \<longrightarrow> 0 \<le> x \<and> x < 2 ^ 31)"

text \<open>Port 0 is the placeholder for a named port.\<close>

definition draft_ref :: "http_backend_ref \<Rightarrow> bool" where
  "draft_ref ref \<longleftrightarrow> (\<forall>p. br_port ref = Some p \<longrightarrow> p = 0 \<or> valid_port p) \<and> typed_weight ref"

definition typed_ref :: "http_backend_ref \<Rightarrow> bool" where
  "typed_ref ref \<longleftrightarrow> (\<forall>p. br_port ref = Some p \<longrightarrow> valid_port p) \<and> typed_weight ref"

definition typed_route :: "http_route \<Rightarrow> bool" where
  "typed_route route \<longleftrightarrow> length (hr_rules route) \<le> 16 \<and> wf_map (hr_annotations route) \<and>
     (\<forall>rule \<in> set (hr_rules route). \<forall>ref \<in> set (rr_backendRefs rule). typed_ref ref)"

definition typed_path :: "ingress_path \<Rightarrow> bool" where
  "typed_path path \<longleftrightarrow> (\<forall>svc. ip_service path = Some svc \<longrightarrow> sp_number (is_port svc) \<le> 65535)"

definition typed_ingress :: "ingress \<Rightarrow> bool" where
  "typed_ingress ing \<longleftrightarrow> wf_map (i_annotations ing) \<and>
     (\<forall>rule \<in> set (i_rules ing). \<forall>paths. ir_http rule = Some paths \<longrightarrow> (\<forall>path \<in> set paths. typed_path path))"

fun typed_obj :: "obj \<Rightarrow> bool" where
  "typed_obj (OService svc) \<longleftrightarrow> (\<forall>port \<in> set (svc_ports svc). valid_port (sp_number port))"
| "typed_obj (OIngress ing) \<longleftrightarrow> typed_ingress ing"
| "typed_obj _ \<longleftrightarrow> True"

fun typed_reply :: "reply \<Rightarrow> bool" where
  "typed_reply (RObj x) \<longleftrightarrow> typed_obj x"
| "typed_reply (RList xs) \<longleftrightarrow> (\<forall>x \<in> set xs. typed_obj x)"
| "typed_reply _ \<longleftrightarrow> True"

section \<open>Translation\<close>

lemma backendRef_draft: "typed_path path \<Longrightarrow> backendRefFromPath path = Some ref \<Longrightarrow> draft_ref ref"
  by (auto simp: backendRefFromPath_def typed_path_def draft_ref_def valid_port_def typed_weight_def split: option.splits if_splits)

lemma entry_draft:
  assumes "\<forall>c \<in> set canaries. typed_ingress c" and "map_of (collectCanaryEntries canaries) p = Some e"
  shows "draft_ref (ce_backendRef e)"
proof -
  have "(p, e) \<in> set (canary_assignments canaries)" using assms(2) by (auto simp: collect_lookup dest: map_of_SomeD)
  then obtain c rule path ref where "c \<in> set canaries" "rule \<in> set (i_rules c)"
    "path \<in> set (case ir_http rule of None \<Rightarrow> [] | Some ps \<Rightarrow> ps)" and ref: "backendRefFromPath path = Some ref" "ce_backendRef e = ref"
    by (auto simp: canary_assignments_def split: option.splits) metis
  then have "typed_path path" using assms(1) by (cases "ir_http rule") (auto simp: typed_ingress_def)
  then show ?thesis using backendRef_draft ref by simp
qed

lemma draft_canaryOnly: "draft_ref ref \<Longrightarrow> draft_ref (canaryOnlyRef ref)"
  by (simp add: draft_ref_def canaryOnlyRef_def typed_weight_def)

lemma canary_rules_draft:
  assumes "draft_ref primary" and "draft_ref (ce_backendRef e)" and "wf_canary_config (ce_config e)"
    and "rule \<in> set (buildCanaryRules base hasPath primary e fs)" and "ref \<in> set (rr_backendRefs rule)"
  shows "draft_ref ref"
proof -
  have "draft_ref x" if "x \<in> set (rr_backendRefs (weightedRule ms primary e fs))" for x ms
    using that assms(1-3) by (auto simp: weighted_refs draft_ref_def typed_weight_def wf_canary_config_def)
  then show ?thesis
    using assms(1,4,5) draft_canaryOnly [OF assms(2)]
    by (auto simp: buildCanaryRules_def backendRule_def Let_def case_prod_beta split: if_splits)
qed

lemma path_rules_draft:
  assumes "\<forall>c \<in> set canaries. typed_ingress c" and "typed_path path"
    and "rule \<in> set (path_rules (collectCanaryEntries canaries) fs path)" and "ref \<in> set (rr_backendRefs rule)"
  shows "draft_ref ref"
proof -
  obtain match hasPath where m: "buildPathMatch path = (match, hasPath)" by fastforce
  show ?thesis
  proof (cases "map_of (collectCanaryEntries canaries) (ip_path path) \<noteq> None \<and> backendRefFromPath path \<noteq> None")
    case True
    then obtain e primary where e: "map_of (collectCanaryEntries canaries) (ip_path path) = Some e"
      and p: "backendRefFromPath path = Some primary" by auto
    then have "rule \<in> set (buildCanaryRules match hasPath primary e fs)" using assms(3) m by (simp add: path_rules_def)
    then show ?thesis
      using canary_rules_draft [OF backendRef_draft [OF assms(2) p] entry_draft [OF assms(1) e] collect_wf [OF e]] assms(4) by blast
  next
    case False
    then have "rule = plainRule match hasPath (backendRefFromPath path) fs"
      using assms(3) m by (auto simp: path_rules_def split: option.splits)
    then show ?thesis using assms(4) backendRef_draft [OF assms(2)] by (auto simp: plainRule_def split: option.splits)
  qed
qed

definition draft_rules :: "http_backend_ref list list \<Rightarrow> bool" where
  "draft_rules refss \<longleftrightarrow> (\<forall>refs \<in> set refss. \<forall>ref \<in> set refs. draft_ref ref)"

abbreviation refs_of :: "http_route \<Rightarrow> http_backend_ref list list" where
  "refs_of route \<equiv> map rr_backendRefs (hr_rules route)"

lemma translation_draft:
  assumes "typed_ingress ing" and "\<forall>c \<in> set canaries. typed_ingress c"
  shows "draft_rules (refs_of (TranslateToHTTPRouteWithCanaries cfg ing canaries))"
    and "wf_map (hr_annotations (TranslateToHTTPRouteWithCanaries cfg ing canaries))"
proof -
  have "draft_ref ref"
    if built: "rule \<in> set (buildHTTPRouteRules ing (collectCanaryEntries canaries) fs)" "ref \<in> set (rr_backendRefs rule)"
    for rule ref fs
  proof -
    obtain ir paths path where "ir \<in> set (i_rules ing)" "ir_http ir = Some paths" "path \<in> set paths"
      and rule: "rule \<in> set (path_rules (collectCanaryEntries canaries) fs path)"
      using built(1) by (auto simp: buildHTTPRouteRules_def split: option.splits) metis
    then have "typed_path path" using assms(1) by (auto simp: typed_ingress_def)
    then show ?thesis by (rule path_rules_draft [OF assms(2) _ rule built(2)])
  qed
  then show "draft_rules (refs_of (TranslateToHTTPRouteWithCanaries cfg ing canaries))"
    by (auto simp: TranslateToHTTPRouteWithCanaries_def draft_rules_def Let_def case_prod_beta)
  show "wf_map (hr_annotations (TranslateToHTTPRouteWithCanaries cfg ing canaries))"
    using assms(1) by (simp add: TranslateToHTTPRouteWithCanaries_def Let_def case_prod_beta typed_ingress_def)
qed

section \<open>Filters and named ports\<close>

text \<open>Extension references leave the backends alone.\<close>

lemma refs_add_ref [simp]: "refs_of (AddExtensionRefFilterAfterExistingKind route grp k name) = refs_of route"
  by (simp add: AddExtensionRefFilterAfterExistingKind_def)

lemma refs_annotation_refs [simp]: "refs_of (fst (applyAnnotationExtensionRefs srv r ing a k route w)) = refs_of route"
  by (simp add: applyAnnotationExtensionRefs_def AddExtensionRefFilters_def case_prod_beta Let_def)

lemma refs_copy_filters [simp]: "refs_of (fst (copy_filters srv r ing names route w)) = refs_of route"
  by (induction names arbitrary: route w) (simp_all add: case_prod_beta split: sum.split bool.split)

lemma refs_generated [simp]: "refs_of (fst (apply_generated env r ing snippets route w)) = refs_of route"
  by (simp add: apply_generated_def case_prod_beta Let_def split: sum.split)

lemma refs_extension_refs [simp]: "refs_of (fst (applyHTTPRouteExtensionRefs env r ing route w)) = refs_of route"
  by (simp add: applyHTTPRouteExtensionRefs_def applySnippetsFilters_def case_prod_beta Let_def split: option.split)

lemma decode_service: "decode as_service reply = Inr svc \<Longrightarrow> reply = RObj (OService svc)"
  by (auto simp: decode_def split: reply.splits option.splits elim: as_service.elims)

lemma resolve_ref_typed:
  assumes "\<And>l. typed_reply (srv l)" and "draft_ref ref"
  shows "typed_ref (fst (resolve_ref srv ns sources ref w))"
proof -
  have "valid_port p" if found: "resolveServicePort srv ns name port v = (Inr p, v')" for name port v p v'
  proof -
    obtain svc where "decode as_service (srv (Get KService ns name # w_log v)) = Inr svc" and "p \<in> sp_number ` set (svc_ports svc)"
      using found
      by (auto simp: resolveServicePort_def case_prod_beta Let_def find_Some_iff intro!: imageI nth_mem split: sum.splits option.splits)
    then show ?thesis using assms(1) [of "Get KService ns name # w_log v"] by (auto dest: decode_service)
  qed
  then show ?thesis
    using assms(2) by (auto simp: resolve_ref_def typed_ref_def draft_ref_def valid_port_def typed_weight_def Let_def split: sum.split prod.split)
qed

lemma map_world_all: "(\<And>x w. x \<in> set xs \<Longrightarrow> P (fst (f x w))) \<Longrightarrow> y \<in> set (fst (map_world f xs w)) \<Longrightarrow> P y"
  by (induction xs arbitrary: w) (auto simp: Let_def case_prod_beta)

lemma named_ports_typed:
  assumes "\<And>l. typed_reply (srv l)" and "draft_rules (refs_of route)"
    and "rule \<in> set (hr_rules (fst (ResolveNamedPorts srv ing route extra w)))" and "ref \<in> set (rr_backendRefs rule)"
  shows "typed_ref ref"
proof -
  let ?refs = "map_world (resolve_ref srv (i_namespace ing) (ing # extra))"
  let ?step = "\<lambda>rule w. let (refs, w) = ?refs (rr_backendRefs rule) w in (rule\<lparr>rr_backendRefs := refs\<rparr>, w)"
  have inner: "\<forall>x \<in> set (fst (?refs (rr_backendRefs rl) v)). typed_ref x" if "rl \<in> set (hr_rules route)" for rl v
    using that assms(2) map_world_all [of "rr_backendRefs rl" typed_ref "resolve_ref srv (i_namespace ing) (ing # extra)" _ v]
      resolve_ref_typed [OF assms(1)]
    by (fastforce simp: draft_rules_def)
  have "rule \<in> set (fst (map_world ?step (hr_rules route) w))"
    using assms(3) by (simp add: ResolveNamedPorts_def Let_def case_prod_beta)
  then have "\<forall>x \<in> set (rr_backendRefs rule). typed_ref x"
    by (rule map_world_all [rotated]) (use inner in \<open>simp add: Let_def case_prod_beta\<close>)
  with assms(4) show ?thesis by blast
qed

section \<open>Property\<close>

lemma canary_siblings_typed:
  assumes "\<And>l. typed_reply (srv l)" and "c \<in> set (fst (findCanarySiblings srv r primary w))"
  shows "typed_ingress c"
proof -
  let ?l = "ListAll KIngress (i_namespace primary) # w_log w"
  have "\<exists>items. decode_list as_ingress (srv ?l) = Inr items \<and> c \<in> set items"
    using assms(2) by (auto simp: findCanarySiblings_def listSiblingIngresses_def case_prod_beta split: sum.splits)
  then obtain xs x where "srv ?l = RList xs" "x \<in> set xs" "as_ingress x = Some c"
    by (auto simp: decode_list_def List.map_filter_def split: reply.splits)
  then show ?thesis using assms(1) [of ?l] by (cases x) auto
qed

text \<open>
  C7. Every route that the Ingress controller builds for an Ingress is well typed, whichever reads
  fail and whatever Services, canaries and filters are found: each has at most 16 rules, its
  annotations hold each key once, every backend has a valid port or none, so that no placeholder
  for a named port is left, and every weight fits 32 bits without a sign.
\<close>

theorem built_routes_typed:
  assumes "\<And>l. typed_reply (e_srv env l)" and "typed_ingress ing"
  shows "\<forall>route \<in> set (fst (build_routes env r ing w)). typed_route route"
proof
  fix route
  assume route: "route \<in> set (fst (build_routes env r ing w))"
  obtain canaries w1 where sib: "findCanarySiblings (e_srv env) r ing w = (canaries, w1)" by fastforce
  let ?t = "setHTTPRouteOwnerReference
    (TranslateToHTTPRouteWithCanaries ((getTranslator r)\<lparr>GatewayName := gateway_for r ing\<rparr>) ing canaries) ing"
  let ?e = "applyHTTPRouteExtensionRefs env r ing ?t w1"
  let ?whole = "fst (ResolveNamedPorts (e_srv env) ing (fst ?e) canaries (snd ?e))"
  have part: "route \<in> set (SplitHTTPRouteIfNeeded ?whole)"
    using route sib by (simp add: build_routes_def Let_def case_prod_beta)
  have "\<forall>c \<in> set canaries. typed_ingress c" using canary_siblings_typed [of "e_srv env" _ r ing w, OF assms(1)] sib by auto
  note t = translation_draft [OF assms(2) this]
  have "draft_rules (refs_of (fst ?e))" using t(1) by (simp add: setHTTPRouteOwnerReference_def)
  then have whole: "typed_ref ref" if "rule \<in> set (hr_rules ?whole)" "ref \<in> set (rr_backendRefs rule)" for rule ref
    using named_ports_typed [where srv = "e_srv env", OF assms(1)] that by blast
  have "bare ?whole = bare ?t" by simp
  then have meta: "hr_meta ?whole = hr_meta ?t" by (rule bare_sel(1))
  have "(hr_meta route)\<lparr>m_name := hr_name ?whole\<rparr> = hr_meta ?whole"
    and len: "length (hr_rules route) \<le> 16" and rules: "set (hr_rules route) \<subseteq> set (hr_rules ?whole)"
    using SplitHTTPRoute_split [of ?whole] part by (auto simp flip: SplitHTTPRoute_split [THEN conjunct1, of ?whole])
  from arg_cong [OF this(1), of m_annotations] have "wf_map (hr_annotations route)"
    using meta t(2) by (simp add: setHTTPRouteOwnerReference_def)
  then show "typed_route route" using len rules whole by (auto simp: typed_route_def)
qed

text \<open>An Ingress with a named port, and a server that knows the Service and nothing else.\<close>

definition example_named_ingress :: ingress where
  "example_named_ingress = example_ingress\<lparr>i_rules := [\<lparr>ir_host = ''app.domain.cc'',
     ir_http = Some [\<lparr>ip_path = ''/'', ip_pathType = Some PathTypePrefix,
       ip_service = Some \<lparr>is_name = ''prod'', is_port = \<lparr>sp_name = ''web'', sp_number = 0\<rparr>\<rparr>\<rparr>]\<rparr>]\<rparr>"

definition example_service_server :: server where
  "example_service_server l = (case l of
     Get KService ns n # _ \<Rightarrow> RObj (OService \<lparr>svc_meta = empty_meta\<lparr>m_namespace := ns, m_name := n\<rparr>,
       svc_ports = [\<lparr>sp_name = ''web'', sp_number = 8080\<rparr>]\<rparr>)
   | _ \<Rightarrow> RErr NotFound)"

theorem built_routes_typed_witness:
  "\<exists>route. fst (build_routes ((example_env [])\<lparr>e_srv := example_service_server\<rparr>) example_ingress_controller example_named_ingress empty_world)
     = [route] \<and> map (map br_port) (refs_of route) = [[Some 8080]] \<and> typed_route route"
proof -
  let ?env = "(example_env [])\<lparr>e_srv := example_service_server\<rparr>"
  let ?routes = "fst (build_routes ?env example_ingress_controller example_named_ingress empty_world)"
  have "typed_reply (example_service_server l)" for l
    by (auto simp: example_service_server_def valid_port_def split: list.splits call.splits kind.splits)
  moreover have "typed_ingress example_named_ingress"
    by (simp add: typed_ingress_def example_named_ingress_def example_ingress_def empty_meta_def typed_path_def)
  ultimately have "\<forall>route \<in> set ?routes. typed_route route" by (intro built_routes_typed) simp_all
  moreover have "length ?routes = 1 \<and> map (\<lambda>route. map (map br_port) (refs_of route)) ?routes = [[[Some 8080]]]"
    by code_simp
  ultimately show ?thesis by (cases ?routes) auto
qed

end
