(* ===== verification/Webhook.thy ===== *)
theory Webhook
  imports Ingress_Controller
begin

text \<open>
  The admission webhook, \<open>internal/webhook/ingress_webhook.go\<close>: it sees an Ingress before the
  API server stores it, writes the Gateway and the HTTPRoutes itself, and by default refuses
  the Ingress. Decoding the request and computing a patch belong to controller-runtime; a
  request is the decoded Ingress or the decoding error, and a patch is the Ingress it leads to.
\<close>

section \<open>State\<close>

record ingress_mutator =
  mu_config :: translator_config
  mu_classFilters :: "string list"
  mu_classIgnoreFilters :: "string list"
  mu_classEmpty :: string
  mu_classSnippets :: "snippets_filter_mapping list"
  mu_nameSnippets :: "snippets_filter_mapping list"
  mu_annotationAdd :: "annotation_snippets_rule list"
  mu_annotationRemove :: "annotation_snippets_rule list"
  mu_recorder :: bool

text \<open>
  The code outside the repository and the iteration orders: the server, the \<open>ingress2gateway\<close>
  library, the URL parser, the owner references for filters and for grants.
\<close>

record webhook_env =
  h_srv :: server
  h_i2gw :: i2gw_lib
  h_ordServices :: "(string \<times> service) list \<Rightarrow> (string \<times> service) list"
  h_ordHosts :: "(string \<times> ingress_tls option) list \<Rightarrow> (string \<times> ingress_tls option) list"
  h_parse :: url_parser
  h_setRef :: "(http_route \<Rightarrow> unstructured \<Rightarrow> unstructured go_result) option"
  h_setGrantRef :: "(http_route \<Rightarrow> reference_grant \<Rightarrow> reference_grant go_result) option"

datatype response = Errored int string | Allowed string | Denied string | Patched ingress

definition AllowIngressAnnotation :: string where
  "AllowIngressAnnotation = ''ingress-doperator.fiction.si/allow-ingress''"

definition WebhookAnnotation :: string where
  "WebhookAnnotation = ''ingress-doperator.fiction.si/webhook''"

definition denial :: string where
  "denial = ''Ingress resources are not allowed - Gateway and HTTPRoute have been created instead. ''
     @ ''Use annotation '' @ [CHR 0x27] @ ''ingress-doperator.fiction.si/allow-ingress=true'' @ [CHR 0x27] @ '' to allow Ingress creation.''"

definition webhook_recordWarning :: "ingress_mutator \<Rightarrow> string \<Rightarrow> string \<Rightarrow> world \<Rightarrow> world" where
  "webhook_recordWarning m reason message w = (if mu_recorder m then emit (Event ''Warning'' reason message) w else w)"

section \<open>Snippets filters\<close>

definition copy_filter :: "server \<Rightarrow> ingress_mutator \<Rightarrow> ingress \<Rightarrow> string \<Rightarrow> world \<Rightarrow> world" where
  "copy_filter srv m ing name w = snd (EnsureSnippetsFilterCopyForHTTPRoute srv (GatewayNamespace (mu_config m))
     (i_namespace ing) (i_namespace ing) (i_name ing) name w)"

definition add_filters :: "string list \<Rightarrow> http_route \<Rightarrow> http_route" where
  "add_filters names route =
     fold (\<lambda>name route. AddExtensionRefFilterAfterExistingKind route NginxGatewayGroup SnippetsFilterKind name) names route"

definition apply_names ::
  "server \<Rightarrow> ingress_mutator \<Rightarrow> ingress \<Rightarrow> string list \<Rightarrow> http_route list \<Rightarrow> world \<Rightarrow> http_route list \<times> world" where
  "apply_names srv m ing names routes w =
     (if routes = [] then (routes, w) else (map (add_filters names) routes, fold (copy_filter srv m ing) names w))"

definition class_filters :: "ingress_mutator \<Rightarrow> ingress \<Rightarrow> string list" where
  "class_filters m ing =
     map sm_name (filter (mapping_matches (webhook_getIngressClass (mu_classEmpty m) ing)) (mu_classSnippets m))"

definition name_filters :: "ingress_mutator \<Rightarrow> ingress \<Rightarrow> string list" where
  "name_filters m ing = map sm_name (filter (mapping_matches (i_name ing)) (mu_nameSnippets m))"

definition override_filters :: "ingress_mutator \<Rightarrow> ingress \<Rightarrow> string list" where
  "override_filters m ing =
     (let removeList = MatchIngressAnnotationSnippetsRules (i_annotations ing) (mu_annotationRemove m)
      in filter (\<lambda>name. name \<notin> set removeList) (MatchIngressAnnotationSnippetsRules (i_annotations ing) (mu_annotationAdd m)))"

definition applyIngressClassSnippetsFilters ::
  "server \<Rightarrow> ingress_mutator \<Rightarrow> ingress \<Rightarrow> http_route list \<Rightarrow> world \<Rightarrow> http_route list \<times> world" where
  "applyIngressClassSnippetsFilters srv m ing routes w = apply_names srv m ing (class_filters m ing) routes w"

definition applyIngressNameSnippetsFilters ::
  "server \<Rightarrow> ingress_mutator \<Rightarrow> ingress \<Rightarrow> http_route list \<Rightarrow> world \<Rightarrow> http_route list \<times> world" where
  "applyIngressNameSnippetsFilters srv m ing routes w = apply_names srv m ing (name_filters m ing) routes w"

definition applyIngressAnnotationSnippetsOverrides ::
  "server \<Rightarrow> ingress_mutator \<Rightarrow> ingress \<Rightarrow> http_route list \<Rightarrow> world \<Rightarrow> http_route list \<times> world" where
  "applyIngressAnnotationSnippetsOverrides srv m ing routes w = apply_names srv m ing (override_filters m ing) routes w"

definition finalizeIngressClassSnippetsFilters :: "server \<Rightarrow> ingress_mutator \<Rightarrow> ingress \<Rightarrow> world \<Rightarrow> world" where
  "finalizeIngressClassSnippetsFilters srv m ing w = fold (copy_filter srv m ing) (class_filters m ing) w"

definition finalizeIngressNameSnippetsFilters :: "server \<Rightarrow> ingress_mutator \<Rightarrow> ingress \<Rightarrow> world \<Rightarrow> world" where
  "finalizeIngressNameSnippetsFilters srv m ing w = fold (copy_filter srv m ing) (name_filters m ing) w"

definition finalizeIngressAnnotationSnippetsOverrides :: "server \<Rightarrow> ingress_mutator \<Rightarrow> ingress \<Rightarrow> world \<Rightarrow> world" where
  "finalizeIngressAnnotationSnippetsOverrides srv m ing w = fold (copy_filter srv m ing) (override_filters m ing) w"

text \<open>The snippets of the annotations, without a ConfigMap and without suppressed directives.\<close>

definition own_snippets :: "webhook_env \<Rightarrow> ingress \<Rightarrow> snippet list option" where
  "own_snippets env ing = fst (BuildNginxIngressSnippets (h_parse env) (i_annotations ing)
     \<lparr>ai_identifier = AuthIdentifier (i_namespace ing) (i_name ing), ai_proxySetHeaders = []\<rparr> [])"

definition applyIngressAnnotationSnippetsFilter ::
  "webhook_env \<Rightarrow> ingress \<Rightarrow> http_route list \<Rightarrow> world \<Rightarrow> http_route list \<times> world" where
  "applyIngressAnnotationSnippetsFilter env ing routes w =
     (case (routes, own_snippets env ing) of
        (route # _, Some snippets) \<Rightarrow>
          let filterName = AutomaticSnippetsFilterName (i_name ing)
          in (case EnsureSnippetsFilterForIngress (h_srv env) (h_setRef env) route None (i_namespace ing) (i_name ing)
                     filterName (map snippet_json snippets) w of
                (Inl e, w) \<Rightarrow> (routes, w)
              | (Inr _, w) \<Rightarrow> (map (add_filters [filterName]) routes, w))
      | _ \<Rightarrow> (routes, w))"

definition finalizeIngressAnnotationSnippetsFilter :: "webhook_env \<Rightarrow> ingress \<Rightarrow> world \<Rightarrow> world" where
  "finalizeIngressAnnotationSnippetsFilter env ing w =
     (case own_snippets env ing of
        None \<Rightarrow> w
      | Some snippets \<Rightarrow>
          let (reply, w) = do_call (h_srv env) (Get KRoute (i_namespace ing) (i_name ing)) w
          in case decode as_route reply of
               Inl e \<Rightarrow> w
             | Inr owner \<Rightarrow>
                 snd (EnsureSnippetsFilterForIngress (h_srv env) (h_setRef env) owner (Some owner) (i_namespace ing) (i_name ing)
                   (AutomaticSnippetsFilterName (i_name ing)) (map snippet_json snippets) w))"

section \<open>The handler\<close>

definition apply_gateway :: "server \<Rightarrow> ingress_mutator \<Rightarrow> gateway \<Rightarrow> world \<Rightarrow> world" where
  "apply_gateway srv m gw w =
     (let metric = (\<lambda>op. Metric GatewayResourcesTotal op (m_namespace (gw_meta gw)) (m_name (gw_meta gw)));
          (reply, w) = do_call srv (Create (OGateway gw)) w
      in case write_error reply of
           None \<Rightarrow> emit (metric ''create'') w
         | Some _ \<Rightarrow>
             let (reply, w) = do_call srv (Update (OGateway gw)) w
             in case write_error reply of
                  None \<Rightarrow> emit (metric ''update'') w
                | Some _ \<Rightarrow> webhook_recordWarning m ''GatewayApplyFailed'' ''failed to create/update Gateway'' w)"

definition apply_webhook_routes :: "webhook_env \<Rightarrow> ingress_mutator \<Rightarrow> ingress \<Rightarrow> http_route list \<Rightarrow> world \<Rightarrow> world" where
  "apply_webhook_routes env m ing routes w =
     (let srv = h_srv env;
          (routes, w) = applyIngressClassSnippetsFilters srv m ing routes w;
          (routes, w) = applyIngressNameSnippetsFilters srv m ing routes w;
          (routes, w) = applyIngressAnnotationSnippetsOverrides srv m ing routes w;
          (routes, w) = applyIngressAnnotationSnippetsFilter env ing routes w;
          (res, w) = ApplyHTTPRoutesAtomic srv (Some HTTPRouteResourcesTotal) ing routes w;
          w = (case res of Inl _ \<Rightarrow> webhook_recordWarning m ''HTTPRouteApplyFailed'' ''failed to apply HTTPRoutes'' w | Inr _ \<Rightarrow> w);
          w = finalizeIngressClassSnippetsFilters srv m ing w;
          w = finalizeIngressNameSnippetsFilters srv m ing w;
          w = finalizeIngressAnnotationSnippetsOverrides srv m ing w
      in finalizeIngressAnnotationSnippetsFilter env ing w)"

definition apply_webhook_grant :: "webhook_env \<Rightarrow> ingress_mutator \<Rightarrow> ingress \<Rightarrow> world \<Rightarrow> world" where
  "apply_webhook_grant env m ing w =
     (if \<not> UseIngress2Gateway (mu_config m) \<and> i_tls ing \<noteq> [] \<and> i_namespace ing \<noteq> GatewayNamespace (mu_config m)
      then (case ApplyReferenceGrant (h_srv env) (h_setGrantRef env) (mu_config m) (Some ReferenceGrantResourcesTotal) (i_namespace ing) w of
              (Inl e, w) \<Rightarrow> webhook_recordWarning m ''ReferenceGrantApplyFailed'' ''failed to apply ReferenceGrant'' w
            | (Inr _, w) \<Rightarrow> w)
      else w)"

definition verdict :: "ingress \<Rightarrow> response" where
  "verdict ing =
     (if mget (i_annotations ing) AllowIngressAnnotation = ''true''
      then Patched (with_annotations (mset_key WebhookAnnotation ''true'' (i_annotations ing)) ing)
      else Denied denial)"

text \<open>The webhook has its own copy of the match; only what it logs for a malformed pattern differs.\<close>

definition webhook_matchIngressClassPatterns :: "string list \<Rightarrow> string \<Rightarrow> bool" where
  "webhook_matchIngressClassPatterns patterns ingressClass =
     (if patterns = [] then False
      else if list_ex (\<lambda>pattern. pattern = ''*'') patterns then True
      else if ingressClass = [] then False
      else match_patterns_loop ingressClass patterns)"

definition webhook_matchesIngressClassFilter :: "ingress_mutator \<Rightarrow> ingress \<Rightarrow> bool" where
  "webhook_matchesIngressClassFilter m ing =
     webhook_matchIngressClassPatterns (mu_classFilters m) (webhook_getIngressClass (mu_classEmpty m) ing)"

definition webhook_matchesIngressClassIgnoreFilter :: "ingress_mutator \<Rightarrow> ingress \<Rightarrow> bool" where
  "webhook_matchesIngressClassIgnoreFilter m ing =
     webhook_matchIngressClassPatterns (mu_classIgnoreFilters m) (webhook_getIngressClass (mu_classEmpty m) ing)"

definition Handle :: "webhook_env \<Rightarrow> ingress_mutator \<Rightarrow> (string + ingress) \<Rightarrow> world \<Rightarrow> response \<times> world" where
  "Handle env m req w =
     (case req of
        Inl err \<Rightarrow> (Errored 400 err, webhook_recordWarning m ''DecodeFailed'' ''failed to decode ingress'' w)
      | Inr ing \<Rightarrow>
          if mget (i_annotations ing) IgnoreIngressAnnotation = ''true'' then (Allowed ''ignored'', w)
             else if webhook_matchesIngressClassIgnoreFilter m ing then (Allowed ''ingress class ignored'', w)
             else if \<not> webhook_matchesIngressClassFilter m ing then (Allowed ''ingress class filtered'', w)
             else if IsCanary ing then (Allowed ''canary handled by operator'', w)
             else case Translate (h_i2gw env) (h_ordServices env) (h_ordHosts env) (mu_config m) ing of
                    Inl err \<Rightarrow>
                      (Errored 500 err, webhook_recordWarning m ''TranslateFailed'' ''failed to translate ingress'' w)
                  | Inr (gw, httpRoute) \<Rightarrow>
                      let (httpRoute, w) = ResolveNamedPorts (h_srv env) ing httpRoute [] w;
                          w = apply_gateway (h_srv env) m gw w;
                          w = apply_webhook_routes env m ing (SplitHTTPRouteIfNeeded httpRoute) w
                      in (verdict ing, apply_webhook_grant env m ing w))"

lemma webhook_matches [simp]:
  "webhook_matchesIngressClassFilter m ing =
     matchIngressClassPatterns (mu_classFilters m) (webhook_getIngressClass (mu_classEmpty m) ing)"
  "webhook_matchesIngressClassIgnoreFilter m ing =
     matchIngressClassPatterns (mu_classIgnoreFilters m) (webhook_getIngressClass (mu_classEmpty m) ing)"
  by (simp_all only: webhook_matchesIngressClassFilter_def webhook_matchesIngressClassIgnoreFilter_def
      webhook_matchIngressClassPatterns_def matchIngressClassPatterns_def)

end
