(* ===== verification/Webhook_Properties.thy ===== *)
theory Webhook_Properties
  imports Webhook Effects
begin

text \<open>What the admission webhook answers and what it writes.\<close>

section \<open>Writes to Gateways\<close>

text \<open>The writes to Gateways in a log, newest first.\<close>

definition gateway_writes :: "world \<Rightarrow> call list" where
  "gateway_writes w = filter (\<lambda>c. call_kind c = Some KGateway) (w_log w)"

lemma only_gateway_writes: "only (- {KGateway}) w w' \<Longrightarrow> gateway_writes w' = gateway_writes w"
proof -
  have "only_log (- {KGateway}) a b \<Longrightarrow> filter (\<lambda>c. call_kind c = Some KGateway) b = filter (\<lambda>c. call_kind c = Some KGateway) a"
    for a b by (induction rule: only_log.induct) (auto simp: allowed_def)
  then show "only (- {KGateway}) w w' \<Longrightarrow> gateway_writes w' = gateway_writes w" by (simp add: only_def gateway_writes_def)
qed

lemma filter_kinds_other [simp]: "filter_kinds \<subseteq> - {KGateway}"
  by (auto simp: filter_kinds_def)

lemma only_webhook_warning [simp]: "only K w w' \<Longrightarrow> only K w (webhook_recordWarning m a b w')"
  by (simp add: webhook_recordWarning_def)

lemma only_copies: "only K w w' \<Longrightarrow> filter_kinds \<subseteq> K \<Longrightarrow> only K w (fold (copy_filter srv m ing) names w')"
  by (induction names arbitrary: w') (simp_all add: copy_filter_def)

interpretation ap: frame "apply_names srv m ing names routes" filter_kinds for srv m ing names routes
  by unfold_locales (simp add: apply_names_def only_copies)

interpretation aw: frame "applyIngressAnnotationSnippetsFilter env ing routes" filter_kinds for env ing routes
  by unfold_locales (simp add: applyIngressAnnotationSnippetsFilter_def frame_simps split: option.split list.split sum.split)

interpretation fw: frame "\<lambda>w. ((), finalizeIngressAnnotationSnippetsFilter env ing w)" filter_kinds for env ing
  by unfold_locales (simp add: finalizeIngressAnnotationSnippetsFilter_def frame_simps split: option.split sum.split)

lemma only_delete_routes: "KRoute \<in> K \<Longrightarrow> only K w w' \<Longrightarrow> only K w (snd (delete_routes srv (Some HTTPRouteResourcesTotal) ing routes w'))"
  by (induction routes arbitrary: w') (simp_all add: frame_simps split: option.split)

interpretation cr: frame "create_route srv (Some HTTPRouteResourcesTotal) msg route" "{KRoute}" for srv msg route
  by unfold_locales (simp add: create_route_def frame_simps split: option.split)

interpretation ah: frame "applyHTTPRoute srv (Some HTTPRouteResourcesTotal) route" "{KRoute}" for srv route
  by unfold_locales (simp add: applyHTTPRoute_def frame_simps split: sum.split option.split bool.split)

lemma only_apply_routes: "KRoute \<in> K \<Longrightarrow> only K w w' \<Longrightarrow> only K w (snd (apply_routes srv (Some HTTPRouteResourcesTotal) routes w'))"
  by (induction routes arbitrary: w') (simp_all add: frame_simps split: sum.split)

interpretation gp: frame "GetHTTPRoutesWithPrefix srv ns pre" "{}" for srv ns pre
  by unfold_locales (simp add: GetHTTPRoutesWithPrefix_def frame_simps split: sum.split)

interpretation aat: frame "ApplyHTTPRoutesAtomic srv (Some HTTPRouteResourcesTotal) ing routes" "{KRoute}" for srv ing routes
  by unfold_locales
     (simp add: ApplyHTTPRoutesAtomic_def frame_simps only_delete_routes only_apply_routes split: sum.split)

interpretation og: frame "own_grant srv setRef ns ings g" "{}" for srv setRef ns ings g
  by unfold_locales (simp add: own_grant_def frame_simps split: sum.split option.split list.split)

interpretation arg: frame "ApplyReferenceGrant srv setRef cfg (Some ReferenceGrantResourcesTotal) ns" "{KGrant}" for srv setRef cfg ns
  by unfold_locales (simp add: ApplyReferenceGrant_def frame_simps split: sum.split option.split)

lemma only_webhook_routes: "only (- {KGateway}) w w' \<Longrightarrow> only (- {KGateway}) w (apply_webhook_routes env m ing routes w')"
  using fw.after [of "- {KGateway}"]
  by (simp add: apply_webhook_routes_def applyIngressClassSnippetsFilters_def applyIngressNameSnippetsFilters_def
      applyIngressAnnotationSnippetsOverrides_def finalizeIngressClassSnippetsFilters_def
      finalizeIngressNameSnippetsFilters_def finalizeIngressAnnotationSnippetsOverrides_def only_copies
      frame_simps split: sum.split)

lemma only_webhook_grant: "only (- {KGateway}) w w' \<Longrightarrow> only (- {KGateway}) w (apply_webhook_grant env m ing w')"
  by (simp add: apply_webhook_grant_def frame_simps split: sum.split)

lemma apply_gateway_writes:
  "gateway_writes (apply_gateway srv m gw w) \<in>
     {Create (OGateway gw) # gateway_writes w, Update (OGateway gw) # Create (OGateway gw) # gateway_writes w}"
  by (auto simp: apply_gateway_def gateway_writes_def webhook_recordWarning_def frame_simps split: option.split)

section \<open>Properties\<close>

text \<open>The Ingresses the webhook translates.\<close>

definition webhook_translates :: "ingress_mutator \<Rightarrow> ingress \<Rightarrow> bool" where
  "webhook_translates m ing \<longleftrightarrow> mget (i_annotations ing) IgnoreIngressAnnotation \<noteq> ''true'' \<and>
     \<not> matchIngressClassPatterns (mu_classIgnoreFilters m) (webhook_getIngressClass (mu_classEmpty m) ing) \<and>
     matchIngressClassPatterns (mu_classFilters m) (webhook_getIngressClass (mu_classEmpty m) ing) \<and> \<not> IsCanary ing"


definition example_mutator :: ingress_mutator where
  "example_mutator = \<lparr>mu_config = getTranslator example_ingress_controller, mu_classFilters = [''*''], mu_classIgnoreFilters = [],
     mu_classEmpty = [], mu_classSnippets = [], mu_nameSnippets = [], mu_annotationAdd = [], mu_annotationRemove = [],
     mu_recorder = True\<rparr>"

definition example_webhook :: "server \<Rightarrow> webhook_env" where
  "example_webhook srv = \<lparr>h_srv = srv, h_i2gw = (\<lambda>_ _ _ _. Inl ''none''), h_ordServices = (\<lambda>xs. xs), h_ordHosts = (\<lambda>xs. xs),
     h_parse = (\<lambda>_. None), h_setRef = None, h_setGrantRef = None\<rparr>"

lemma example_translates: "webhook_translates example_mutator example_ingress"
  by (simp add: webhook_translates_def example_mutator_def matchIngressClassPatterns_def IsCanary_def example_ingress_def
      empty_meta_def mget_def)




end
