(* ===== verification/Counters.thy ===== *)
theory Counters
  imports Ownership Webhook_Properties
begin

text \<open>
  The Prometheus counters of \<open>internal/metrics\<close>. A counter has one value for each operation or
  reason, namespace and name, and grows by the entries of the log. The theory compares the
  counters of resources with the writes the server accepted: the Ingress controller and the webhook
  count each write of a route or a Gateway once, while debounced updates and the grants of the
  HTTPRoute controller are not counted.
\<close>

section \<open>Counters and accepted writes\<close>

type_synonym series = "metric_vec \<times> string \<times> string \<times> string"

fun metric_of :: "call \<Rightarrow> series option" where
  "metric_of (Metric counter op ns n) = Some (counter, op, ns, n)"
| "metric_of _ = None"

text \<open>The value of a counter with its labels.\<close>

definition metric_value :: "series \<Rightarrow> world \<Rightarrow> nat" where
  "metric_value x w = length (filter (\<lambda>c. metric_of c = Some x) (w_log w))"

text \<open>The counter that the help texts promise for a write.\<close>

fun object_series :: "string \<Rightarrow> obj \<Rightarrow> series option" where
  "object_series op (OGateway x) = Some (GatewayResourcesTotal, op, m_namespace (gw_meta x), m_name (gw_meta x))"
| "object_series op (ORoute x) = Some (HTTPRouteResourcesTotal, op, hr_namespace x, hr_name x)"
| "object_series op (OGrant x) = Some (ReferenceGrantResourcesTotal, op, m_namespace (rg_meta x), m_name (rg_meta x))"
| "object_series op _ = None"

fun write_series :: "call \<Rightarrow> series option" where
  "write_series (Create x) = object_series ''create'' x"
| "write_series (Update x) = object_series ''update'' x"
| "write_series (Delete KRoute ns n _) = Some (HTTPRouteResourcesTotal, ''delete'', ns, n)"
| "write_series _ = None"

text \<open>The server accepted the newest call; deleting what is gone already counts as done.\<close>

definition accepted :: "server \<Rightarrow> call list \<Rightarrow> bool" where
  "accepted srv l \<longleftrightarrow> (case write_error (srv l) of
     None \<Rightarrow> True
   | Some e \<Rightarrow> e = NotFound \<and> (case l of Delete _ _ _ _ # _ \<Rightarrow> True | _ \<Rightarrow> False))"

fun writes_in :: "server \<Rightarrow> series \<Rightarrow> call list \<Rightarrow> nat" where
  "writes_in srv x [] = 0"
| "writes_in srv x (c # l) = (if write_series c = Some x \<and> accepted srv (c # l) then 1 else 0) + writes_in srv x l"

definition accepted_writes :: "server \<Rightarrow> series \<Rightarrow> world \<Rightarrow> nat" where
  "accepted_writes srv x w = writes_in srv x (w_log w)"

section \<open>Balanced runs\<close>

text \<open>Between two worlds the counters of \<open>V\<close> grew by as much as the accepted writes.\<close>

definition balanced :: "server \<Rightarrow> metric_vec set \<Rightarrow> world \<Rightarrow> world \<Rightarrow> bool" where
  "balanced srv V w w' \<longleftrightarrow> (\<forall>x. fst x \<in> V \<longrightarrow>
     metric_value x w' + accepted_writes srv x w = metric_value x w + accepted_writes srv x w')"

lemma balanced_refl [simp, intro]: "balanced srv V w w"
  by (simp add: balanced_def)

lemma balanced_trans:
  assumes "balanced srv V w w'" and "balanced srv V w' w''"
  shows "balanced srv V w w''"
  unfolding balanced_def
proof (intro allI impI)
  fix x :: series
  assume "fst x \<in> V"
  with assms have "metric_value x w' + accepted_writes srv x w = metric_value x w + accepted_writes srv x w'"
    "metric_value x w'' + accepted_writes srv x w' = metric_value x w' + accepted_writes srv x w''"
    unfolding balanced_def by blast+
  then show "metric_value x w'' + accepted_writes srv x w = metric_value x w + accepted_writes srv x w''" by linarith
qed

lemma balancedD:
  "balanced srv V w w' \<Longrightarrow> fst x \<in> V \<Longrightarrow>
     metric_value x w' + accepted_writes srv x w = metric_value x w + accepted_writes srv x w'"
  unfolding balanced_def by blast

lemma write_series_kind: "write_series c = Some x \<Longrightarrow> metric_kind (fst x) = call_kind c \<and> metric_of c = None"
  by (cases c rule: write_series.cases) (auto elim!: object_series.elims)

lemma metric_of_kind: "metric_of c = Some x \<Longrightarrow> metric_kind (fst x) = counted_kind c"
  by (cases c) auto

lemma balanced_only:
  assumes "only K w w'" and "\<forall>v \<in> V. \<exists>k. metric_kind v = Some k \<and> k \<notin> K"
  shows "balanced srv V w w'"
proof -
  have "metric_value x w' = metric_value x w \<and> accepted_writes srv x w' = accepted_writes srv x w" if "fst x \<in> V" for x
    using assms(1) unfolding only_def metric_value_def accepted_writes_def
  proof (induction rule: only_log.induct)
    case (step c l')
    obtain k where k: "metric_kind (fst x) = Some k" "k \<notin> K" using assms(2) \<open>fst x \<in> V\<close> by blast
    then have "write_series c \<noteq> Some x" "metric_of c \<noteq> Some x"
      using step(1) write_series_kind [of c x] metric_of_kind [of c x] by (auto simp: allowed_def)
    then show ?case using step by simp
  qed simp
  then show ?thesis by (simp add: balanced_def)
qed

lemma balanced_call [simp]:
  "balanced srv V w w' \<Longrightarrow> write_series c = None \<Longrightarrow> metric_of c = None \<Longrightarrow> balanced srv V w (snd (do_call srv c w'))"
  by (simp add: balanced_def metric_value_def accepted_writes_def do_call_def Let_def)

lemma balanced_emit [simp]:
  "balanced srv V w w' \<Longrightarrow> write_series c = None \<Longrightarrow> metric_of c = None \<Longrightarrow> balanced srv V w (emit c w')"
  by (simp add: balanced_def metric_value_def accepted_writes_def emit_def)

lemma balanced_rejected:
  assumes "balanced srv V w w'" and "metric_of c = None" and "\<not> accepted srv (c # w_log w')"
  shows "balanced srv V w (snd (do_call srv c w'))"
  using assms by (simp add: balanced_def metric_value_def accepted_writes_def do_call_def Let_def)

lemma balanced_counted:
  assumes "balanced srv V w w'" and "write_series c = Some (v, op, ns, n)" and "accepted srv (c # w_log w')"
  shows "balanced srv V w (emit (Metric v op ns n) (snd (do_call srv c w')))"
  using assms write_series_kind [OF assms(2)]
  by (simp add: balanced_def metric_value_def accepted_writes_def do_call_def emit_def Let_def)

text \<open>An operation that keeps the counters of \<open>V\<close> in step with the writes.\<close>

locale counting =
  fixes srv :: server and V :: "metric_vec set" and run :: "world \<Rightarrow> 'r \<times> world"
  assumes counts: "balanced srv V w (snd (run w))"
begin

lemma after [simp]: "balanced srv V w w' \<Longrightarrow> balanced srv V w (snd (run w'))"
  by (rule balanced_trans [OF _ counts])

end

section \<open>Operations that count\<close>

text \<open>The counters of routes and Gateways.\<close>

definition counters :: "metric_vec set" where
  "counters = {GatewayResourcesTotal, HTTPRouteResourcesTotal}"

lemma balanced_frame: "only K w w' \<Longrightarrow> KGateway \<notin> K \<Longrightarrow> KRoute \<notin> K \<Longrightarrow> balanced srv counters w w'"
  by (erule balanced_only) (auto simp: counters_def)

lemma accepted_simps [simp]:
  "accepted srv (Create x # l) \<longleftrightarrow> write_error (srv (Create x # l)) = None"
  "accepted srv (Update x # l) \<longleftrightarrow> write_error (srv (Update x # l)) = None"
  "accepted srv (Delete k ns n b # l) \<longleftrightarrow> write_error (srv (Delete k ns n b # l)) \<in> {None, Some NotFound}"
  by (auto simp: accepted_def split: option.split)

lemmas count_simps = frame_simps balanced_rejected balanced_counted record_metric_def

interpretation ct_cu: counting srv counters "CanUpdateResource srv' as ann k ns name" for srv srv' as ann k ns name
  by unfold_locales (rule balanced_frame [OF cu.writes_only], simp_all)

interpretation ct_gp: counting srv counters "GetHTTPRoutesWithPrefix srv' ns pre" for srv srv' ns pre
  by unfold_locales (rule balanced_frame [OF gp.writes_only], simp_all)

interpretation ct_cr: counting srv V "create_route srv (Some HTTPRouteResourcesTotal) msg route" for srv V msg route
  by unfold_locales (simp add: create_route_def count_simps split: option.split)

interpretation ct_ah: counting srv counters "applyHTTPRoute srv (Some HTTPRouteResourcesTotal) route" for srv route
  by unfold_locales (simp add: applyHTTPRoute_def count_simps split: sum.split option.split)

lemma balanced_delete_routes:
  "balanced srv V w w' \<Longrightarrow> balanced srv V w (snd (delete_routes srv (Some HTTPRouteResourcesTotal) ing routes w'))"
  by (induction routes arbitrary: w') (simp_all add: count_simps split: option.split)

lemma balanced_apply_routes:
  "balanced srv counters w w' \<Longrightarrow> balanced srv counters w (snd (apply_routes srv (Some HTTPRouteResourcesTotal) routes w'))"
  by (induction routes arbitrary: w') (simp_all add: frame_simps split: sum.split)

interpretation ct_at: counting srv counters "ApplyHTTPRoutesAtomic srv (Some HTTPRouteResourcesTotal) ing routes" for srv ing routes
  by unfold_locales
     (simp add: ApplyHTTPRoutesAtomic_def frame_simps balanced_delete_routes balanced_apply_routes split: sum.split)

interpretation ct_wg: counting srv V "write_gateway srv there gw" for srv V there gw
  by unfold_locales (simp add: write_gateway_def count_simps split: option.split)

interpretation ct_ag: counting srv V "\<lambda>w. ((), apply_gateway srv m gw w)" for srv V m gw
  by unfold_locales (simp add: apply_gateway_def webhook_recordWarning_def count_simps split: option.split)

lemma balanced_delete_managed: "balanced srv V w w' \<Longrightarrow> balanced srv V w (snd (delete_managed srv ing routes w'))"
  unfolding delete_managed_routes [THEN conjunct1] by (rule balanced_delete_routes)

section \<open>Whole runs\<close>

lemma balanced_update_listeners:
  assumes "update_listeners env r g ing routes w = Some (res, w')"
  shows "balanced (e_srv env) counters w w'"
proof -
  obtain found w1 where find: "find_gateway (e_srv env) (listener_reconciler r) g w = (found, w1)" by fastforce
  then have w1: "balanced (e_srv env) counters w w1"
    using balanced_frame [OF fg.writes_only [of w "e_srv env" "listener_reconciler r" g]] by simp
  have grants: "balanced (e_srv env) counters w w2"
    if "ensure_grants n (e_srv env) rr routes w1 = Some w2" for n rr w2
    by (rule balanced_trans [OF w1 balanced_frame [OF only_ensure_grants [OF that only_refl]]]) simp_all
  have written: "balanced (e_srv env) counters w w3"
    if "ensure_grants n (e_srv env) rr routes w1 = Some w2" "write_gateway (e_srv env) there gw w2 = (res3, w3)" for n rr w2 there gw res3 w3
    using ct_wg.after [OF grants [OF that(1)], of there gw] that(2) by simp
  show ?thesis
    using assms find w1 grants written
    by (auto simp: update_listeners_def ensureGatewayForListenerUpdate_def frame_simps
        split: sum.splits option.splits prod.splits if_splits)
qed

interpretation ct_run: ingress_run env "balanced (e_srv env) counters" for env
proof
  show "balanced (e_srv env) counters w w''"
    if "balanced (e_srv env) counters w w'" "balanced (e_srv env) counters w' w''" for w w' w''
    using that by (rule balanced_trans)
  show "balanced (e_srv env) counters w w'" if "only {KIngress, KIngressClass, KConfigMap} w w'" for w w'
    by (rule balanced_frame [OF that]) simp_all
  show "balanced (e_srv env) counters w (snd (build_routes env r ing w))" for w r ing
    by (rule balanced_frame [OF br.writes_only]) simp_all
  show "balanced (e_srv env) counters w (snd (ApplyHTTPRoutesAtomic (e_srv env) (Some HTTPRouteResourcesTotal) ing routes w))"
    for w ing routes by (rule ct_at.counts)
  show "balanced (e_srv env) counters w w'" if "update_listeners env r g ing routes w = Some (res, w')" for r g ing routes w res w'
    using that by (rule balanced_update_listeners)
  show "balanced (e_srv env) counters w (snd (deleteManagedHTTPRoutes (e_srv env) ing w))" for w ing
    by (simp add: deleteManagedHTTPRoutes_def frame_simps balanced_delete_managed split: sum.split)
qed

interpretation ct_ap: counting srv counters "apply_names srv' m ing names routes" for srv srv' m ing names routes
  by unfold_locales (rule balanced_frame [OF ap.writes_only], simp_all)

interpretation ct_aw: counting srv counters "applyIngressAnnotationSnippetsFilter env ing routes" for srv env ing routes
  by unfold_locales (rule balanced_frame [OF aw.writes_only], simp_all)

interpretation ct_fw: counting srv counters "\<lambda>w. ((), finalizeIngressAnnotationSnippetsFilter env ing w)" for srv env ing
  by unfold_locales (rule balanced_frame [OF fw.writes_only], simp_all)

interpretation ct_rg: counting srv counters "ApplyReferenceGrant srv' setRef cfg (Some ReferenceGrantResourcesTotal) ns" for srv srv' setRef cfg ns
  by unfold_locales (rule balanced_frame [OF arg.writes_only], simp_all)

interpretation ct_np: counting srv counters "ResolveNamedPorts srv' ing route extra" for srv srv' ing route extra
  by unfold_locales (rule balanced_frame [OF np.writes_only], simp_all)

lemma balanced_warning [simp]: "balanced srv V w w' \<Longrightarrow> balanced srv V w (webhook_recordWarning m a b w')"
  by (simp add: webhook_recordWarning_def)

lemma balanced_copies: "balanced srv counters w w' \<Longrightarrow> balanced srv counters w (fold (copy_filter srv' m ing) names w')"
  by (rule balanced_trans, assumption, rule balanced_frame [OF only_copies, of filter_kinds]) simp_all

lemma balanced_webhook_routes:
  "balanced (h_srv env) counters w w' \<Longrightarrow> balanced (h_srv env) counters w (apply_webhook_routes env m ing routes w')"
  using ct_fw.after [of "h_srv env"]
  by (simp add: apply_webhook_routes_def applyIngressClassSnippetsFilters_def applyIngressNameSnippetsFilters_def
      applyIngressAnnotationSnippetsOverrides_def finalizeIngressClassSnippetsFilters_def
      finalizeIngressNameSnippetsFilters_def finalizeIngressAnnotationSnippetsOverrides_def balanced_copies
      frame_simps split: sum.split)

lemma balanced_Handle: "balanced (h_srv env) counters w (snd (Handle env m req w))"
  using ct_ag.after [of "h_srv env" counters]
  by (simp add: Handle_def frame_simps balanced_webhook_routes apply_webhook_grant_def split: sum.split)

text \<open>
  C8. The counters of routes and Gateways tell the truth about the Ingress controller and the webhook:
  for every server, through a run of either, a counter with the labels of an operation and an object
  grows by exactly the number of such writes that the server accepted, so that a refused write is
  never counted and an accepted one is counted once.
\<close>

theorem writes_counted:
  assumes "x \<in> {GatewayResourcesTotal, HTTPRouteResourcesTotal} \<times> UNIV"
  shows "(\<forall>res s'. Ingress_Reconcile env r ns name s = Some (res, s') \<longrightarrow>
      metric_value x (ct_world s') + accepted_writes (e_srv env) x (ct_world s) =
      metric_value x (ct_world s) + accepted_writes (e_srv env) x (ct_world s')) \<and>
    metric_value x (snd (Handle henv m req w)) + accepted_writes (h_srv henv) x w =
      metric_value x w + accepted_writes (h_srv henv) x (snd (Handle henv m req w))"
proof -
  have x: "fst x \<in> counters" using assms by (auto simp: counters_def)
  have "balanced (e_srv env) counters (ct_world s) (ct_world s')" if "Ingress_Reconcile env r ns name s = Some (res, s')" for res s'
    using that by (rule ct_run.run)
  then show ?thesis using balancedD [OF _ x] balancedD [OF balanced_Handle x] by blast
qed

lemma example_counted:
  "case Ingress_Reconcile (example_env [OIngress example_ingress]) example_ingress_controller ''shop'' ''prod'' example_ctl of
     None \<Rightarrow> False
   | Some (res, s') \<Rightarrow> metric_value (HTTPRouteResourcesTotal, ''create'', ''shop'', ''prod'') (ct_world s') = 1"
  by code_simp

theorem writes_counted_witness:
  "\<exists>res s'. Ingress_Reconcile (example_env [OIngress example_ingress]) example_ingress_controller ''shop'' ''prod'' example_ctl = Some (res, s') \<and>
     accepted_writes (mem_server [OIngress example_ingress]) (HTTPRouteResourcesTotal, ''create'', ''shop'', ''prod'') (ct_world s') = 1"
proof -
  let ?env = "example_env [OIngress example_ingress]" and ?x = "(HTTPRouteResourcesTotal, ''create'', ''shop'', ''prod'')"
  obtain res s' where run: "Ingress_Reconcile ?env example_ingress_controller ''shop'' ''prod'' example_ctl = Some (res, s')"
    and one: "metric_value ?x (ct_world s') = 1"
    using example_counted by (auto split: option.splits)
  have "metric_value ?x (ct_world example_ctl) = 0" "accepted_writes (e_srv ?env) ?x (ct_world example_ctl) = 0"
    by (simp_all add: metric_value_def accepted_writes_def example_ctl_def empty_world_def)
  with run one show ?thesis
    using writes_counted [of ?x ?env example_ingress_controller "''shop''" "''prod''" example_ctl]
    by (simp add: example_env_def)
qed

section \<open>What is not counted\<close>

text \<open>
  The help texts promise the number of Gateways and grants written by the operator. The debounced
  update, which writes and deletes Gateways, and the grants of the controllers leave every counter as
  it is.
\<close>

lemma metric_value_call [simp]: "metric_of c = None \<Longrightarrow> metric_value x (snd (do_call srv c w)) = metric_value x w"
  by (simp add: metric_value_def do_call_def Let_def)

lemma uncounted_reads [simp]:
  "metric_value x (snd (CanUpdateResource srv as ann k ns name w)) = metric_value x w"
  "metric_value x (snd (listHTTPRoutesForGateway srv r g skip w)) = metric_value x w"
  "metric_value x (snd (resolveIngressForHTTPRoute srv route w)) = metric_value x w"
  by (simp_all add: CanUpdateResource_def listHTTPRoutesForGateway_def resolveIngressForHTTPRoute_def fetch_source_def frame_simps
      split: sum.split option.split list.split)

lemma uncounted_candidates: "metric_value x (snd (collect_candidates srv r routes acc w)) = metric_value x w"
  by (induction routes arbitrary: acc w) (simp_all add: frame_simps split: sum.split)

lemma uncounted_attempt [simp]: "metric_value x (snd (reconcile_attempt ordT ordL srv r g routes w)) = metric_value x w"
  by (simp add: reconcile_attempt_def buildDesiredListenerTLS_def uncounted_candidates frame_simps
      split: sum.split bool.split option.split)

lemma uncounted_attempts: "metric_value x (snd (reconcile_attempts n ordT ordL srv r g routes w)) = metric_value x w"
  by (induction n arbitrary: w) (simp_all add: case_prod_beta split: option.split)

lemma uncounted_disable [simp]: "metric_value x (snd (disableExternalDNS srv ing w)) = metric_value x w"
  by (simp add: disableExternalDNS_def frame_simps split: sum.split option.split)

lemma uncounted_sources: "metric_value x (disable_sources srv routes seen w) = metric_value x w"
  by (induction routes arbitrary: seen w) (simp_all add: frame_simps split: sum.split)

lemma uncounted_grant: "ensureReferenceGrant n srv r route w = Some (res, w') \<Longrightarrow> metric_value x w' = metric_value x w"
  by (induction n arbitrary: w) (auto simp: frame_simps split: sum.splits option.splits if_splits)

theorem gateway_updates_uncounted: "metric_value x (executeGatewayUpdate ordT ordL srv r g w) = metric_value x w"
  by (simp add: executeGatewayUpdate_def reconcileGatewayListeners_def delete_if_empty_def uncounted_attempts uncounted_sources
      frame_simps split: sum.split)

end
