(* ===== verification/Error_Log.thy ===== *)
theory Error_Log
  imports Prelude
begin

text \<open>
  The error log of the Ingress controller, \<open>logErrorRateLimited\<close>: an error is logged unless one with
  the same key was logged within the last 30 seconds. The state is the field \<open>errorLogLast\<close>, under
  its mutex; a call is one step, at the time the code reads from the clock.
\<close>

definition log_interval :: int where
  "log_interval = 30 * 1000000000"

text \<open>Whether the error is logged, and the new state. \<open>None\<close> is the nil error.\<close>

definition logErrorRateLimited :: "int \<Rightarrow> 'e option \<Rightarrow> string \<Rightarrow> int gomap \<Rightarrow> bool \<times> int gomap" where
  "logErrorRateLimited now err key errorLogLast =
     (case err of
        None \<Rightarrow> (False, errorLogLast)
      | Some _ \<Rightarrow>
          (case map_of errorLogLast key of
             Some prev \<Rightarrow> if now - prev < log_interval then (False, errorLogLast) else (True, mset_key key now errorLogLast)
           | None \<Rightarrow> (True, mset_key key now errorLogLast)))"

text \<open>The times at which a sequence of errors is logged under a key.\<close>

fun logged :: "string \<Rightarrow> (int \<times> string) list \<Rightarrow> int gomap \<Rightarrow> int list" where
  "logged k [] m = []"
| "logged k ((now, key) # es) m =
     (let (ok, m') = logErrorRateLimited now (Some ()) key m
      in if ok \<and> key = k then now # logged k es m' else logged k es m')"

lemma log_interval_pos: "0 < log_interval"
  by (simp add: log_interval_def)

lemmas log_simps = logErrorRateLimited_def Let_def case_prod_beta

lemma logged_after:
  "map_of m k = Some p \<Longrightarrow> t \<in> set (logged k es m) \<Longrightarrow> log_interval \<le> t - p"
proof (induction es arbitrary: m p)
  case (Cons e es)
  obtain now key where e: "e = (now, key)" by (cases e)
  show ?case
  proof (cases "key = k \<and> log_interval \<le> now - p")
    case True
    with Cons.prems e consider "t = now" | "t \<in> set (logged k es (mset_key k now m))"
      by (auto simp: log_simps split: if_splits)
    then show ?thesis
    proof cases
      case 2
      then show ?thesis using Cons.IH [of "mset_key k now m" now] True log_interval_pos by simp
    qed (use True in simp)
  next
    case False
    then have "t \<in> set (logged k es (snd (logErrorRateLimited now (Some ()) key m)))"
      and "map_of (snd (logErrorRateLimited now (Some ()) key m)) k = Some p"
      using Cons.prems e by (auto simp: log_simps split: if_splits option.splits)
    then show ?thesis by (rule Cons.IH [rotated])
  qed
qed simp

lemma logged_spaced: "sorted_wrt (\<lambda>s t. log_interval \<le> t - s) (logged k es m)"
proof (induction es arbitrary: m)
  case (Cons e es)
  then show ?case
    using logged_after [of "mset_key k (fst e) m" k "fst e"]
    by (cases e) (auto simp: log_simps split: option.split)
qed simp

lemma logged_covers:
  assumes "sorted (map fst es)" and "(t, k) \<in> set es" and "\<forall>p. map_of m k = Some p \<longrightarrow> (\<forall>e \<in> set es. p \<le> fst e)"
  shows "\<exists>s. (map_of m k = Some s \<or> s \<in> set (logged k es m)) \<and> s \<le> t \<and> t - s < log_interval"
  using assms
proof (induction es arbitrary: m)
  case (Cons e es)
  obtain now key where e: "e = (now, key)" by (cases e)
  let ?run = "logErrorRateLimited now (Some ()) key m"
  have mem: "s \<in> set (logged k (e # es) m)" if "s \<in> set (logged k es (snd ?run))" for s
    using that e by (auto simp: case_prod_beta Let_def)
  have new: "map_of (snd ?run) k = map_of m k \<or>
    (map_of (snd ?run) k = Some now \<and> now \<in> set (logged k (e # es) m) \<and> key = k)"
    using e by (auto simp: log_simps split: option.split)
  show ?case
  proof (cases "(t, k) \<in> set es")
    case True
    have "\<forall>p. map_of (snd ?run) k = Some p \<longrightarrow> (\<forall>e \<in> set es. p \<le> fst e)"
      using new Cons.prems(1,3) e by auto
    then obtain s where "map_of (snd ?run) k = Some s \<or> s \<in> set (logged k es (snd ?run))" "s \<le> t" "t - s < log_interval"
      using Cons.IH [of "snd ?run"] Cons.prems(1) True by auto
    then show ?thesis using mem new by auto
  next
    case False
    then have "t = now" "key = k" using Cons.prems(2) e by auto
    then show ?thesis
      using Cons.prems(3) e log_interval_pos by (cases "map_of m k") (auto simp: log_simps split: if_splits)
  qed
qed simp

text \<open>
  Under each key the controller logs at most one error in 30 seconds, whatever the clock does,
  and drops none for longer: with a clock that does not run backwards, every error comes less than
  30 seconds after one that was logged under its key, itself included. Keys do not disturb each other.
\<close>

theorem error_log_rate:
  assumes "sorted (map fst es)"
  shows "sorted_wrt (\<lambda>s t. log_interval \<le> t - s) (logged k es []) \<and>
    (\<forall>t. (t, k) \<in> set es \<longrightarrow> (\<exists>s \<in> set (logged k es []). s \<le> t \<and> t - s < log_interval))"
  using logged_spaced [of k es "[]"] logged_covers [OF assms, of _ k "[]"] by auto

theorem error_log_rate_witness:
  "\<exists>s \<in> set (logged ''apply-httproutes'' [(0, ''apply-httproutes''), (29 * 1000000000, ''apply-httproutes''),
      (31 * 1000000000, ''apply-httproutes'')] []). s \<le> 31 * 1000000000 \<and> 31 * 1000000000 - s < log_interval"
  using error_log_rate [of "[(0, ''apply-httproutes''), (29 * 1000000000, ''apply-httproutes''), (31 * 1000000000, ''apply-httproutes'')]"
      "''apply-httproutes''"] by simp

end
