(* ===== verification/Snippet_Conflicts.thy ===== *)
theory Snippet_Conflicts
  imports Ingress_Controller
begin

text \<open>
  Directives that nginx accepts once per server block, when several Ingresses share a host, and
  the requests that a change of a shared filter causes.
\<close>

section \<open>Conflicting directives\<close>

lemma older_total: "i_name a \<noteq> i_name b \<Longrightarrow> isOlderIngress a b \<or> isOlderIngress b a"
  by (auto simp: isOlderIngress_def)

lemma suppress_keys_grow: "x \<in> set suppress \<Longrightarrow> x \<in> set (fst (suppress_keys r ing sibling keys suppress w))"
  by (induction keys arbitrary: suppress w) (simp_all split: option.split)

lemma suppress_keys_has:
  "key \<in> set keys \<Longrightarrow> mhas (i_annotations ing) key \<Longrightarrow> mhas (i_annotations sibling) key \<Longrightarrow>
   ServerOnlySnippetSuffix key = Some sfx \<Longrightarrow> sfx \<in> set (fst (suppress_keys r ing sibling keys suppress w))"
proof (induction keys arbitrary: suppress w)
  case (Cons k keys)
  then show ?case
    by (auto simp: suppress_keys_grow split: option.split)
qed simp

lemma conflict_loop_grow: "x \<in> set suppress \<Longrightarrow> x \<in> set (fst (conflict_loop r ing siblings suppress w))"
  by (induction siblings arbitrary: suppress w)
     (simp_all add: suppressServerOnlyConflicts_def suppress_keys_grow Let_def case_prod_beta)

lemma conflict_loop_has:
  assumes "sibling \<in> set siblings" and "isConflictCandidate r sibling ing"
    and "sharesAnyHost (transformedHostSet (getTranslator r) ing) (getTranslator r) sibling"
    and "key \<in> set ServerOnlySnippetAnnotationKeys" "ServerOnlySnippetSuffix key = Some sfx"
    and "mhas (i_annotations ing) key" "mhas (i_annotations sibling) key"
  shows "sfx \<in> set (fst (conflict_loop r ing siblings suppress w))"
  using assms(1)
proof (induction siblings arbitrary: suppress w)
  case (Cons x siblings)
  show ?case
  proof (cases "x = sibling")
    case True
    then show ?thesis
      using assms suppress_keys_has [OF assms(4,6,7,5), of r suppress w]
      by (simp add: suppressServerOnlyConflicts_def conflict_loop_grow Let_def case_prod_beta)
  next
    case False
    then show ?thesis using Cons by (auto simp: Let_def case_prod_beta)
  qed
qed simp

definition conflict_eligible :: "ingress_reconciler \<Rightarrow> ingress \<Rightarrow> bool" where
  "conflict_eligible r ing \<longleftrightarrow> \<not> IsCanary ing \<and> m_deletion (i_meta ing) = None \<and>
     \<not> matchesIngressClassIgnoreFilter r ing \<and> matchesIngressClassFilter r ing"

lemma server_only_key:
  assumes "sfx \<in> set nginxServerOnlyDirectives"
  shows "nginxIngressAnnotationPrefix @ sfx \<in> set ServerOnlySnippetAnnotationKeys"
    and "ServerOnlySnippetSuffix (nginxIngressAnnotationPrefix @ sfx) = Some sfx"
proof -
  have "TrimPrefix (nginxIngressAnnotationPrefix @ sfx) nginxIngressAnnotationPrefix = sfx" by (simp add: TrimPrefix_def)
  moreover have "nginxIngressAnnotationPrefix \<noteq> []" by (simp add: nginxIngressAnnotationPrefix_def)
  ultimately show "nginxIngressAnnotationPrefix @ sfx \<in> set ServerOnlySnippetAnnotationKeys"
    "ServerOnlySnippetSuffix (nginxIngressAnnotationPrefix @ sfx) = Some sfx"
    using assms by (simp_all add: ServerOnlySnippetAnnotationKeys_def ServerOnlySnippetSuffix_def Let_def)
qed

lemma siblings_mem:
  assumes "OIngress x \<in> set (store_of init (w_log w))"
  shows "\<exists>siblings w'. listSiblingIngresses (mem_server init) (i_namespace x) w = (Inr siblings, w') \<and> x \<in> set siblings"
proof -
  have "x \<in> set (List.map_filter as_ingress xs)" if "OIngress x \<in> set xs" for xs
    using that by (induction xs) (auto simp: List.map_filter_simps split: option.split)
  then show ?thesis using assms by (simp add: listSiblingIngresses_def do_call_def decode_list_def)
qed

lemma younger_suppresses:
  assumes old: "OIngress a \<in> set (store_of init (w_log w))" and same: "i_namespace a = i_namespace b" "i_name a \<noteq> i_name b"
    and "conflict_eligible r a" and "isOlderIngress a b"
    and host: "h \<in> set (transformedHostSet (getTranslator r) a)" "h \<in> set (transformedHostSet (getTranslator r) b)"
    and sfx: "sfx \<in> set nginxServerOnlyDirectives"
    and has: "mhas (i_annotations a) (nginxIngressAnnotationPrefix @ sfx)" "mhas (i_annotations b) (nginxIngressAnnotationPrefix @ sfx)"
  shows "sfx \<in> set (fst (detectSnippetConflicts (mem_server init) r b w))"
proof -
  obtain siblings w' where list_run: "listSiblingIngresses (mem_server init) (i_namespace b) w = (Inr siblings, w')"
    and a: "a \<in> set siblings" using siblings_mem [OF old] same by auto
  have "isConflictCandidate r a b" using assms by (simp add: isConflictCandidate_def conflict_eligible_def)
  moreover have "sharesAnyHost (transformedHostSet (getTranslator r) b) (getTranslator r) a"
    using host by (auto simp: sharesAnyHost_def transformedHostSet_def list_ex_iff)
  ultimately have "sfx \<in> set (fst (conflict_loop r b siblings [] w'))"
    using conflict_loop_has [OF a] server_only_key [OF sfx] has by blast
  moreover have "i_annotations b \<noteq> []" using has(2) by (auto simp: mhas_def)
  moreover have "transformedHostSet (getTranslator r) b \<noteq> []" using host(2) by auto
  ultimately show ?thesis using list_run by (simp add: detectSnippetConflicts_def)
qed

text \<open>Only one branch of the ingestion writes server-only lines, and it respects the suppressed suffixes.\<close>

definition keeps_lines :: "snippet_state \<Rightarrow> snippet_state \<Rightarrow> bool" where
  "keeps_lines st st' \<longleftrightarrow> st_serverOnlyLines st' = st_serverOnlyLines st"

definition keeps_if_any :: "snippet_state \<Rightarrow> snippet_state option \<Rightarrow> bool" where
  "keeps_if_any st x \<longleftrightarrow> (\<forall>st'. x = Some st' \<longrightarrow> keeps_lines st st')"

lemma keeps_intros:
  "keeps_if_any st None" "keeps_lines st st' \<Longrightarrow> keeps_if_any st (Some st')"
  "keeps_if_any st x \<Longrightarrow> keeps_if_any st y \<Longrightarrow> keeps_if_any st (if P then x else y)"
  "keeps_lines st st" "keeps_lines st a \<Longrightarrow> keeps_lines st b \<Longrightarrow> keeps_lines st (if P then a else b)"
  by (simp_all add: keeps_if_any_def keeps_lines_def)

lemma keeps_apply: "keeps_if_any st (applyIngressAnnotationValue sfx value st)"
proof (cases "applyAuthIngressAnnotationValue sfx value st")
  case (Some a)
  have "keeps_if_any st (applyAuthIngressAnnotationValue sfx value st)"
    unfolding applyAuthIngressAnnotationValue_def Let_def by (intro keeps_intros) (simp_all add: keeps_lines_def)
  then show ?thesis using Some by (simp add: applyIngressAnnotationValue_def)
next
  case None
  show ?thesis unfolding applyIngressAnnotationValue_def None option.case
    by (intro keeps_intros)
       (simp_all add: keeps_lines_def isSafeSnippetValue_def safe_ranges_def apply_flag_def add_warnings_def Let_def case_prod_beta)
qed

lemma keeps_legacy: "keeps_lines st (applyLegacyIngressAnnotationValue sfx value st)"
  unfolding applyLegacyIngressAnnotationValue_def
  by (intro keeps_intros)
     (simp_all add: keeps_lines_def isSafeSnippetValue_def apply_flag_def add_warnings_def Let_def case_prod_beta)

lemma ingest_step_lines:
  "set (st_serverOnlyLines (ingest_step annotations suppress entry st)) \<subseteq> set (st_serverOnlyLines st) \<union>
     {directive_line sfx v | sfx v. sfx \<in> set nginxServerOnlyDirectives \<and> sfx \<notin> set suppress}"
proof (cases "applyIngressAnnotationValue (ak_suffix entry) (TrimSpace (mget annotations (ak_fullKey entry))) st")
  case None
  then show ?thesis
    using keeps_legacy [of st "ak_suffix entry" "TrimSpace (mget annotations (ak_fullKey entry))"]
    by (auto simp: ingest_step_def ingest_directive_def isSafeSnippetValue_def add_warnings_def keeps_lines_def
        isServerOnlyNginxIngressDirective_def Let_def)
next
  case (Some st')
  then show ?thesis
    using keeps_legacy [of st "ak_suffix entry" "TrimSpace (mget annotations (ak_fullKey entry))"]
      keeps_apply [of st "ak_suffix entry" "TrimSpace (mget annotations (ak_fullKey entry))"]
    by (auto simp: ingest_step_def keeps_lines_def keeps_if_any_def Let_def)
qed

lemma ingest_lines:
  "set (st_serverOnlyLines (fold (ingest_step annotations suppress) keys st)) \<subseteq> set (st_serverOnlyLines st) \<union>
     {directive_line sfx v | sfx v. sfx \<in> set nginxServerOnlyDirectives \<and> sfx \<notin> set suppress}"
  by (induction keys arbitrary: st) (use ingest_step_lines in \<open>fastforce+\<close>)

lemma directive_line_suffix:
  "sfx \<in> set nginxServerOnlyDirectives \<Longrightarrow> sfx' \<in> set nginxServerOnlyDirectives \<Longrightarrow>
   directive_line sfx v = directive_line sfx' v' \<Longrightarrow> sfx = sfx'"
proof -
  have "ReplaceAll ''ssl-ciphers'' ''-'' ''_'' = ''ssl_ciphers''"
    "ReplaceAll ''ssl-prefer-server-ciphers'' ''-'' ''_'' = ''ssl_prefer_server_ciphers''"
    by code_simp+
  then show "sfx \<in> set nginxServerOnlyDirectives \<Longrightarrow> sfx' \<in> set nginxServerOnlyDirectives \<Longrightarrow>
   directive_line sfx v = directive_line sfx' v' \<Longrightarrow> sfx = sfx'"
    by (auto simp: nginxServerOnlyDirectives_def directive_line_def)
qed

text \<open>The server-only lines generated for an Ingress.\<close>

definition server_lines :: "server \<Rightarrow> ingress_reconciler \<Rightarrow> ingress \<Rightarrow> world \<Rightarrow> string list" where
  "server_lines srv r ing w = st_serverOnlyLines (ingestNginxIngressAnnotations (i_annotations ing)
     (snippet_keys (i_annotations ing)) (fst (detectSnippetConflicts srv r ing w)))"

lemma suppressed_line:
  assumes "sfx \<in> set nginxServerOnlyDirectives" and "sfx \<in> set (fst (detectSnippetConflicts srv r ing w))"
  shows "directive_line sfx v \<notin> set (server_lines srv r ing w)"
  using ingest_lines [of "i_annotations ing" "fst (detectSnippetConflicts srv r ing w)" "snippet_keys (i_annotations ing)" empty_state]
    directive_line_suffix [OF assms(1)] assms(2)
  by (auto simp: server_lines_def ingestNginxIngressAnnotations_def empty_state_def)

section \<open>Requests for a changed filter\<close>

lemma set_collect_names: "set (collect_names seen names) = set names - {[]} - set seen"
  by (induction names arbitrary: seen) auto

lemma set_dedupe: "set (dedupe_requests seen reqs) = set reqs - set seen"
  by (induction reqs arbitrary: seen) auto

lemma distinct_dedupe: "distinct (dedupe_requests seen reqs)"
  by (induction reqs arbitrary: seen) (auto simp: set_dedupe)

lemma dedupeReconcileRequests_set: "set (dedupeReconcileRequests reqs) = set reqs \<and> distinct (dedupeReconcileRequests reqs)"
proof (cases "length reqs \<le> 1")
  case True
  then show ?thesis by (cases reqs) (auto simp: dedupeReconcileRequests_def)
qed (simp add: dedupeReconcileRequests_def set_dedupe distinct_dedupe)

text \<open>The Ingresses of the watched namespace in a store.\<close>

definition watched :: "obj list \<Rightarrow> ingress_reconciler \<Rightarrow> world \<Rightarrow> ingress set" where
  "watched init r w = {ing. OIngress ing \<in> set (store_of init (w_log w)) \<and>
     (rc_watchNamespace r = [] \<or> i_namespace ing = rc_watchNamespace r)}"

lemma list_watched_mem:
  "\<exists>items w'. list_watched (mem_server init) r w = (Inr items, w') \<and> set items = watched init r w \<and>
     watched init r w' = watched init r w"
proof -
  have ing: "as_ingress x = Some i \<longleftrightarrow> x = OIngress i" for x i by (cases x) auto
  show ?thesis
    by (force simp: list_watched_def listSiblingIngresses_def do_call_def decode_list_def List.map_filter_def watched_def ing)
qed

text \<open>An Ingress asks for a filter by its class, its name, an annotation rule or its own annotation.\<close>

definition asks_for :: "ingress_reconciler \<Rightarrow> string \<Rightarrow> ingress \<Rightarrow> bool" where
  "asks_for r f ing \<longleftrightarrow>
     (\<exists>m \<in> set (rc_classSnippets r). sm_name m = f \<and> mapping_matches (class_of r ing) m) \<or>
     (\<exists>m \<in> set (rc_nameSnippets r). sm_name m = f \<and> mapping_matches (i_name ing) m) \<or>
     f \<in> set (MatchIngressAnnotationSnippetsRules (i_annotations ing) (rc_annotationAdd r)) \<or>
     f \<in> set (ParseCommaSeparatedAnnotation (i_annotations ing) HTTPRouteSnippetsFilterAnnotation)"

lemma wanted_asks: "f \<in> set (wanted_snippets r ing) \<Longrightarrow> f \<noteq> [] \<and> asks_for r f ing"
  by (auto simp: wanted_snippets_def asks_for_def set_collect_names Let_def)

lemma enqueue_by_name_mem:
  "set (fst (enqueueIngressesForSnippetsName (mem_server init) r f w)) =
     request_of ` {ing \<in> watched init r w. shouldEnqueueIngressByClass r ing \<and> asks_for r f ing} \<and>
   distinct (fst (enqueueIngressesForSnippetsName (mem_server init) r f w))"
proof -
  obtain items w1 where first: "list_watched (mem_server init) r w = (Inr items, w1)" "set items = watched init r w"
    and w1: "watched init r w1 = watched init r w" using list_watched_mem by blast
  obtain items' w2 where second: "list_watched (mem_server init) r w1 = (Inr items', w2)" "set items' = watched init r w1"
    using list_watched_mem by blast
  have "set (requests_by_config r f ing) = (if shouldEnqueueIngressByClass r ing \<and>
     ((\<exists>m \<in> set (rc_classSnippets r). sm_name m = f \<and> mapping_matches (class_of r ing) m) \<or>
      (\<exists>m \<in> set (rc_nameSnippets r). sm_name m = f \<and> mapping_matches (i_name ing) m) \<or>
      f \<in> set (MatchIngressAnnotationSnippetsRules (i_annotations ing) (rc_annotationAdd r))) then {request_of ing} else {})" for ing
    by (auto simp: requests_by_config_def list_ex_iff)
  then show ?thesis
    using first second w1 dedupeReconcileRequests_set
    by (auto simp: enqueueIngressesForSnippetsName_def enqueueIngressesForAnnotation_def asks_for_def split: if_splits)
qed

lemma extension_event_passes_iff:
  "extension_event_passes r ns \<longleftrightarrow> ns = rc_gatewayNamespace r \<and> rc_watchNamespace r \<in> {[], rc_gatewayNamespace r}"
  by (auto simp: extension_event_passes_def passes_event_filter_def NamespaceFilter_def)

section \<open>Properties\<close>

text \<open>
  C11. Two Ingresses of one namespace that share a rewritten host never both emit the same
  server-only directive, whatever the two values and whenever their runs happen, as long as
  both are in the store: the younger one leaves it out. nginx refuses a server block with the
  directive given twice.
\<close>

theorem server_directive_emitted_once:
  assumes "OIngress a \<in> set (store_of init (w_log w))" "OIngress b \<in> set (store_of init (w_log w))"
    and "OIngress a \<in> set (store_of init (w_log w'))" "OIngress b \<in> set (store_of init (w_log w'))"
    and "i_namespace a = i_namespace b" "i_name a \<noteq> i_name b"
    and "conflict_eligible r a" "conflict_eligible r b"
    and "h \<in> set (transformedHostSet (getTranslator r) a)" "h \<in> set (transformedHostSet (getTranslator r) b)"
    and "sfx \<in> set nginxServerOnlyDirectives"
    and "mhas (i_annotations a) (nginxIngressAnnotationPrefix @ sfx)" "mhas (i_annotations b) (nginxIngressAnnotationPrefix @ sfx)"
  shows "\<not> (directive_line sfx v \<in> set (server_lines (mem_server init) r a w) \<and>
    directive_line sfx v' \<in> set (server_lines (mem_server init) r b w'))"
proof (cases "isOlderIngress a b")
  case True
  show ?thesis
    using suppressed_line [OF assms(11) younger_suppresses [OF assms(3,5,6,7) True assms(9-13)]] by blast
next
  case False
  then have older: "isOlderIngress b a" using older_total [OF assms(6)] by blast
  show ?thesis
    using suppressed_line [OF assms(11) younger_suppresses [OF assms(2) assms(5,6) [symmetric] assms(8) older
          assms(10,9,11,13,12)]] by blast
qed

definition example_conflict :: "string \<Rightarrow> int \<Rightarrow> string \<Rightarrow> ingress" where
  "example_conflict name created ciphers = example_ingress\<lparr>i_meta := (i_meta example_ingress)\<lparr>m_name := name,
     m_creation := created, m_annotations := [(nginxIngressAnnotationPrefix @ ''ssl-ciphers'', ciphers)]\<rparr>\<rparr>"

abbreviation example_conflicts :: "obj list" where
  "example_conflicts \<equiv> [OIngress (example_conflict ''prod'' 1 ''HIGH''), OIngress (example_conflict ''beta'' 2 ''LOW'')]"

theorem server_directive_emitted_once_witness:
  "\<not> (directive_line ''ssl-ciphers'' ''HIGH'' \<in> set (server_lines (mem_server example_conflicts) example_ingress_controller
       (example_conflict ''prod'' 1 ''HIGH'') empty_world) \<and>
     directive_line ''ssl-ciphers'' ''LOW'' \<in> set (server_lines (mem_server example_conflicts) example_ingress_controller
       (example_conflict ''beta'' 2 ''LOW'') empty_world))"
proof (rule server_directive_emitted_once [where h = "''app.domain.cc''"])
  have "TransformHostname (getTranslator example_ingress_controller) h = h" for h
    by (simp add: example_run_defs getTranslator_def TransformHostname_def)
  then show "''app.domain.cc'' \<in> set (transformedHostSet (getTranslator example_ingress_controller) (example_conflict ''prod'' 1 ''HIGH''))"
    "''app.domain.cc'' \<in> set (transformedHostSet (getTranslator example_ingress_controller) (example_conflict ''beta'' 2 ''LOW''))"
    by (simp_all add: transformedHostSet_def example_conflict_def example_ingress_def)
  have "conflict_eligible example_ingress_controller (example_conflict n t c)" for n t c
    by (simp add: conflict_eligible_def IsCanary_def matchesIngressClassIgnoreFilter_def matchesIngressClassFilter_def
        matchIngressClassPatterns_def example_ingress_controller_def example_conflict_def example_ingress_def empty_meta_def
        mget_def nginxIngressAnnotationPrefix_def CanaryAnnotation_def)
  then show "conflict_eligible example_ingress_controller (example_conflict ''prod'' 1 ''HIGH'')"
    "conflict_eligible example_ingress_controller (example_conflict ''beta'' 2 ''LOW'')" by blast+
qed (simp_all add: empty_world_def example_conflict_def nginxServerOnlyDirectives_def mhas_def)



end
