(* ===== verification/Startup.thy ===== *)
theory Startup
  imports Webhook
begin

text \<open>
  The two main programs, \<open>cmd/operator/main.go\<close> and \<open>cmd/webhook/main.go\<close>: what they make of
  their flags, the options of the servers they set up, the checks they make against the cluster
  before they start, and the reconcilers and the handler they build. The flag package is not
  modelled: a configuration starts as the values of the flags. The controller-runtime manager is a
  parameter that says which of its calls succeed; a program that returns here is one that calls
  \<open>mgr.Start\<close>. Log lines are left out. An exit with status 1 is an error.
\<close>

section \<open>Helpers\<close>

definition splitCSV :: "string \<Rightarrow> string list" where
  "splitCSV raw = (if raw = [] then [] else Split '','' raw)"

definition appendFilterIfMissing :: "string list \<Rightarrow> string \<Rightarrow> string list" where
  "appendFilterIfMissing filterList value =
     (if list_ex (\<lambda>item. TrimSpace item = value) filterList then filterList else filterList @ [value])"

definition add_pair :: "string \<Rightarrow> string gomap \<Rightarrow> string gomap" where
  "add_pair pair out = (case SplitN2 ''='' pair of [k, v] \<Rightarrow> mset_key (TrimSpace k) (TrimSpace v) out | _ \<Rightarrow> out)"

definition parseKeyValueCSV :: "string \<Rightarrow> string gomap" where
  "parseKeyValueCSV raw = (if raw = [] then [] else fold add_pair (Split '','' raw) [])"

definition validateHostnameRewrite :: "string \<Rightarrow> string \<Rightarrow> string + nat" where
  "validateHostnameRewrite from' to' =
     (if from' = [] \<and> to' = [] then Inr 0
      else if from' = [] \<or> to' = []
      then Inl ''both --hostname-rewrite-from and --hostname-rewrite-to must be specified together''
      else let fromParts = Split '','' from'; toParts = Split '','' to'
           in if length fromParts \<noteq> length toParts
              then Inl ''--hostname-rewrite-from and --hostname-rewrite-to must have same number of items''
              else Inr (length fromParts))"

definition parseIngressPostProcessingMode :: "string \<Rightarrow> string + string" where
  "parseIngressPostProcessingMode value =
     (if value = ''none'' then Inr ''none''
      else if value = ''disable'' then Inr IngressPostProcessingModeDisable
      else if value = ''remove'' then Inr IngressPostProcessingModeRemove
      else if value = ''disable-external-dns'' then Inr IngressPostProcessingModeDisableExternalDNS
      else Inl (''invalid ingress-post-processing value '' @ Quote value
             @ '' (allowed: none, disable, remove, disable-external-dns)''))"

section \<open>The configuration of the operator\<close>

text \<open>The flags, and what is parsed from them.\<close>

record operator_config =
  oc_MetricsAddr :: string
  oc_MetricsCertPath :: string
  oc_MetricsCertName :: string
  oc_MetricsCertKey :: string
  oc_WebhookCertPath :: string
  oc_WebhookCertName :: string
  oc_WebhookCertKey :: string
  oc_EnableLeaderElection :: bool
  oc_ProbeAddr :: string
  oc_SecureMetrics :: bool
  oc_EnableHTTP2 :: bool
  oc_Verbosity :: int
  oc_GatewayNamespace :: string
  oc_GatewayName :: string
  oc_GatewayClassName :: string
  oc_WatchNamespace :: string
  oc_OneGatewayPerIngress :: bool
  oc_GatewayAnnotationFilters :: string
  oc_HTTPRouteAnnotationFilters :: string
  oc_EnableDeletion :: bool
  oc_HostnameRewriteFrom :: string
  oc_HostnameRewriteTo :: string
  oc_IngressPostProcessing :: string
  oc_GatewayAnnotations :: string
  oc_GatewayInfraAnnotations :: string
  oc_AnnotationsByClass :: string
  oc_IngressClassFilter :: string
  oc_IngressClassIgnoreFilter :: string
  oc_IngressClassEmpty :: string
  oc_IngressClassSnippetsFilters :: string
  oc_IngressNameSnippetsFilters :: string
  oc_IngressAnnotationSnippetsAdd :: string
  oc_IngressAnnotationSnippetsRemove :: string
  oc_ReconcileCachePersist :: bool
  oc_ReconcileCacheMaxEntries :: int
  oc_ClearIngressStatusOnDisable :: bool
  oc_UseIngress2Gateway :: bool
  oc_Ingress2GatewayProvider :: string
  oc_Ingress2GatewayIngressClass :: string
  oc_ParsedClassSnippetsFilters :: "snippets_filter_mapping list"
  oc_ParsedNameSnippetsFilters :: "snippets_filter_mapping list"
  oc_ParsedAnnotationSnippetsAdd :: "annotation_snippets_rule list"
  oc_ParsedAnnotationSnippetsRemove :: "annotation_snippets_rule list"
  oc_IngressPostProcessingMode :: string
  oc_GatewayFilters :: "string list"
  oc_HTTPRouteFilters :: "string list"
  oc_GatewayAnnotationsMap :: "string gomap"
  oc_GatewayInfraAnnotationsMap :: "string gomap"
  oc_InfrastructureAnnotationsByClass :: "ingress_class_annotations_rule list"
  oc_IngressClassFilters :: "string list"
  oc_IngressClassIgnoreFilters :: "string list"

text \<open>The values the flags have when they are not given.\<close>

definition DefaultGatewayAnnotationFilters :: string where
  "DefaultGatewayAnnotationFilters = ''ingress.kubernetes.io,'' @
     ''nginx.ingress.kubernetes.io,kubectl.kubernetes.io,kubernetes.io/ingress.class,'' @
     ''traefik.ingress.kubernetes.io,ingress-doperator.fiction.si,'' @
     ''external-dns.alpha.kubernetes.io''"

definition DefaultHTTPRouteAnnotationFilters :: string where
  "DefaultHTTPRouteAnnotationFilters = ''ingress.kubernetes.io,'' @
     ''nginx.ingress.kubernetes.io,kubectl.kubernetes.io,kubernetes.io/ingress.class,'' @
     ''traefik.ingress.kubernetes.io,ingress-doperator.fiction.si''"

definition DefaultGatewayInfraAnnotations :: string where
  "DefaultGatewayInfraAnnotations = []"

text \<open>\<open>DefaultGatewayAnnotations\<close> of the main program; the name is also a field of the translator's configuration.\<close>

definition DefaultGatewayAnnotations_flag :: string where
  "DefaultGatewayAnnotations_flag = ''cert-manager.io/acme-challenge-type=dns01,'' @
     ''cert-manager.io/acme-dns01-provider=default,'' @ ''cert-manager.io/cluster-issuer=letsencrypt-cert-manager''"

definition default_operator_flags :: operator_config where
  "default_operator_flags = \<lparr>oc_MetricsAddr = ''0'', oc_MetricsCertPath = [], oc_MetricsCertName = ''tls.crt'',
     oc_MetricsCertKey = ''tls.key'', oc_WebhookCertPath = [], oc_WebhookCertName = ''tls.crt'', oc_WebhookCertKey = ''tls.key'',
     oc_EnableLeaderElection = False, oc_ProbeAddr = '':8081'', oc_SecureMetrics = True, oc_EnableHTTP2 = False, oc_Verbosity = 0,
     oc_GatewayNamespace = ''nginx-fabric'', oc_GatewayName = ''ingress-gateway'',
     oc_GatewayClassName = ''nginx'', oc_WatchNamespace = [], oc_OneGatewayPerIngress = False,
     oc_GatewayAnnotationFilters = DefaultGatewayAnnotationFilters,
     oc_HTTPRouteAnnotationFilters = DefaultHTTPRouteAnnotationFilters,
     oc_EnableDeletion = False, oc_HostnameRewriteFrom = [], oc_HostnameRewriteTo = [], oc_IngressPostProcessing = ''none'',
     oc_GatewayAnnotations = DefaultGatewayAnnotations_flag, oc_GatewayInfraAnnotations = DefaultGatewayInfraAnnotations, oc_AnnotationsByClass = [], oc_IngressClassFilter = ''*'', oc_IngressClassIgnoreFilter = [],
     oc_IngressClassEmpty = ''none'', oc_IngressClassSnippetsFilters = [], oc_IngressNameSnippetsFilters = [],
     oc_IngressAnnotationSnippetsAdd = [], oc_IngressAnnotationSnippetsRemove = [], oc_ReconcileCachePersist = True,
     oc_ReconcileCacheMaxEntries = 0, oc_ClearIngressStatusOnDisable = True, oc_UseIngress2Gateway = False,
     oc_Ingress2GatewayProvider = ''ingress-nginx'', oc_Ingress2GatewayIngressClass = ''nginx'',
     oc_ParsedClassSnippetsFilters = [], oc_ParsedNameSnippetsFilters = [], oc_ParsedAnnotationSnippetsAdd = [],
     oc_ParsedAnnotationSnippetsRemove = [], oc_IngressPostProcessingMode = [], oc_GatewayFilters = [],
     oc_HTTPRouteFilters = [], oc_GatewayAnnotationsMap = [], oc_GatewayInfraAnnotationsMap = [],
     oc_InfrastructureAnnotationsByClass = [], oc_IngressClassFilters = [], oc_IngressClassIgnoreFilters = []\<rparr>"

definition external_dns_filters :: "string \<Rightarrow> string list \<Rightarrow> string list" where
  "external_dns_filters mode filters =
     (if mode = IngressPostProcessingModeDisableExternalDNS
      then appendFilterIfMissing (appendFilterIfMissing filters ExternalDNSIngressHostnameSource) ExternalDNSHostnameAnnotation
      else filters)"

definition invalid_value :: "string \<Rightarrow> string \<Rightarrow> string" where
  "invalid_value flag' e = ''invalid '' @ flag' @ '' value: '' @ e"

text \<open>The part of \<open>parseOperatorConfig\<close> after \<open>flag.Parse\<close>.\<close>

definition parseOperatorConfig :: "operator_config \<Rightarrow> string + operator_config" where
  "parseOperatorConfig cfg =
     (case ParseIngressClassSnippetsFilters (oc_IngressClassSnippetsFilters cfg) of
        Inl e \<Rightarrow> Inl (invalid_value ''ingress-class-snippets-filter'' e)
      | Inr classSnippets \<Rightarrow>
     (case ParseIngressClassSnippetsFilters (oc_IngressNameSnippetsFilters cfg) of
        Inl e \<Rightarrow> Inl (invalid_value ''ingress-name-snippets-filter'' e)
      | Inr nameSnippets \<Rightarrow>
     (case ParseIngressAnnotationSnippetsRules (oc_IngressAnnotationSnippetsAdd cfg) of
        Inl e \<Rightarrow> Inl (invalid_value ''ingress-annotation-snippets-add'' e)
      | Inr add \<Rightarrow>
     (case ParseIngressAnnotationSnippetsRules (oc_IngressAnnotationSnippetsRemove cfg) of
        Inl e \<Rightarrow> Inl (invalid_value ''ingress-annotation-snippets-remove'' e)
      | Inr remove \<Rightarrow>
     (case parseIngressPostProcessingMode (oc_IngressPostProcessing cfg) of
        Inl e \<Rightarrow> Inl e
      | Inr mode \<Rightarrow>
     (case ParseIngressClassAnnotationsByClass (oc_AnnotationsByClass cfg) of
        Inl e \<Rightarrow> Inl (invalid_value ''annotations-by-class'' e)
      | Inr byClass \<Rightarrow>
          Inr (cfg\<lparr>oc_ParsedClassSnippetsFilters := classSnippets, oc_ParsedNameSnippetsFilters := nameSnippets,
            oc_ParsedAnnotationSnippetsAdd := add, oc_ParsedAnnotationSnippetsRemove := remove,
            oc_IngressPostProcessingMode := mode,
            oc_GatewayFilters := external_dns_filters mode (splitCSV (oc_GatewayAnnotationFilters cfg)),
            oc_HTTPRouteFilters := external_dns_filters mode (splitCSV (oc_HTTPRouteAnnotationFilters cfg)),
            oc_IngressClassFilters := ParseCommaSeparatedList (oc_IngressClassFilter cfg),
            oc_IngressClassIgnoreFilters := ParseCommaSeparatedList (oc_IngressClassIgnoreFilter cfg),
            oc_GatewayAnnotationsMap := parseKeyValueCSV (oc_GatewayAnnotations cfg),
            oc_GatewayInfraAnnotationsMap := parseKeyValueCSV (oc_GatewayInfraAnnotations cfg),
            oc_InfrastructureAnnotationsByClass := byClass\<rparr>)))))))"

section \<open>Logging and servers\<close>

text \<open>
  The logger's options. Its level is zap's signed byte; the other options, which the flags bound by
  \<open>BindFlags\<close> may have set, are kept.
\<close>

record zap_options =
  zo_Development :: bool
  zo_Level :: "8 word option"

definition with_verbosity :: "int \<Rightarrow> zap_options \<Rightarrow> zap_options" where
  "with_verbosity verbosity opts =
     (if verbosity > 0 then opts\<lparr>zo_Development := False, zo_Level := Some (word_of_int (- verbosity))\<rparr> else opts)"

text \<open>An option of a TLS server is a function on its configuration.\<close>

record tls_config =
  NextProtos :: "string list"

type_synonym tls_option = "tls_config \<Rightarrow> tls_config"

definition buildTLSOptions :: "bool \<Rightarrow> tls_option list" where
  "buildTLSOptions enableHTTP2 = (if enableHTTP2 then [] else [\<lambda>c. c\<lparr>NextProtos := [''http/1.1'']\<rparr>])"

record webhook_options =
  wo_Port :: int
  wo_TLSOpts :: "tls_option list"
  wo_CertDir :: string
  wo_CertName :: string
  wo_KeyName :: string

definition buildWebhookServer :: "tls_option list \<Rightarrow> string \<Rightarrow> string \<Rightarrow> string \<Rightarrow> webhook_options" where
  "buildWebhookServer tlsOpts webhookCertPath webhookCertName webhookCertKey =
     (let webhookServerOptions = \<lparr>wo_Port = 0, wo_TLSOpts = tlsOpts, wo_CertDir = [], wo_CertName = [], wo_KeyName = []\<rparr>
      in if webhookCertPath \<noteq> []
         then webhookServerOptions\<lparr>wo_CertDir := webhookCertPath, wo_CertName := webhookCertName, wo_KeyName := webhookCertKey\<rparr>
         else webhookServerOptions)"

datatype filter_provider = WithAuthenticationAndAuthorization

record metrics_options =
  mo_BindAddress :: string
  mo_SecureServing :: bool
  mo_TLSOpts :: "tls_option list"
  mo_FilterProvider :: "filter_provider option"
  mo_CertDir :: string
  mo_CertName :: string
  mo_KeyName :: string

definition buildMetricsServerOptions ::
  "string \<Rightarrow> bool \<Rightarrow> tls_option list \<Rightarrow> string \<Rightarrow> string \<Rightarrow> string \<Rightarrow> metrics_options" where
  "buildMetricsServerOptions metricsAddr secureMetrics tlsOpts metricsCertPath metricsCertName metricsCertKey =
     (let opts = \<lparr>mo_BindAddress = metricsAddr, mo_SecureServing = secureMetrics, mo_TLSOpts = tlsOpts,
            mo_FilterProvider = None, mo_CertDir = [], mo_CertName = [], mo_KeyName = []\<rparr>;
          opts = (if secureMetrics then opts\<lparr>mo_FilterProvider := Some WithAuthenticationAndAuthorization\<rparr> else opts)
      in if metricsCertPath \<noteq> []
         then opts\<lparr>mo_CertDir := metricsCertPath, mo_CertName := metricsCertName, mo_KeyName := metricsCertKey\<rparr>
         else opts)"

record manager_options =
  Metrics :: metrics_options
  WebhookServer :: webhook_options
  HealthProbeBindAddress :: string
  LeaderElection :: bool
  LeaderElectionID :: string

text \<open>
  The calls of the manager that can fail: creating it, completing the controller for a kind, adding
  the two probes.
\<close>

record manager =
  NewManager :: "manager_options \<Rightarrow> bool"
  Complete :: "string \<Rightarrow> bool"
  AddHealthzCheck :: bool
  AddReadyzCheck :: bool

definition operator_manager_options :: "operator_config \<Rightarrow> manager_options" where
  "operator_manager_options cfg =
     (let tlsOpts = buildTLSOptions (oc_EnableHTTP2 cfg)
      in \<lparr>Metrics = buildMetricsServerOptions (oc_MetricsAddr cfg) (oc_SecureMetrics cfg) tlsOpts
             (oc_MetricsCertPath cfg) (oc_MetricsCertName cfg) (oc_MetricsCertKey cfg),
           WebhookServer = buildWebhookServer tlsOpts (oc_WebhookCertPath cfg) (oc_WebhookCertName cfg) (oc_WebhookCertKey cfg),
           HealthProbeBindAddress = oc_ProbeAddr cfg, LeaderElection = oc_EnableLeaderElection cfg,
           LeaderElectionID = ''94203fac.fiction.si''\<rparr>)"

section \<open>Starting the operator\<close>

definition ensureGatewayNamespace :: "server \<Rightarrow> string \<Rightarrow> world \<Rightarrow> unit result \<times> world" where
  "ensureGatewayNamespace srv namespace w =
     (let (reply, w) = do_call srv (Get KNamespace [] namespace) w in (map_sum (\<lambda>e. e) (\<lambda>_. ()) (decode as_namespace reply), w))"

text \<open>The main program has its own copy of the function of the controller, on the uncached reader.\<close>

definition main_ensureDisabledIngressClass :: "server \<Rightarrow> world \<Rightarrow> unit go_result \<times> world" where
  "main_ensureDisabledIngressClass srv w =
     (let (r, w) = do_call srv (Get KIngressClass [] DisabledIngressClassName) w
      in case decode as_ingress_class r of
           Inr _ \<Rightarrow> (Inr (), w)
         | Inl e \<Rightarrow>
             if e \<noteq> NotFound then (Inl (ApiError e), w)
             else let (r, w) = do_call srv (Create (OIngressClass \<lparr>ic_name = DisabledIngressClassName,
                                  ic_controller = DisabledIngressClassController\<rparr>)) w
                  in case write_error r of
                       None \<Rightarrow> (Inr (), w)
                     | Some e \<Rightarrow> if e = AlreadyExists then (Inr (), w)
                                 else (Inl (Wrapped ''failed to create disabled IngressClass'' (ApiError e)), w))"

definition loadReconcileCache :: "server \<Rightarrow> int \<Rightarrow> string \<Rightarrow> world \<Rightarrow> reconcile_cache \<times> world" where
  "loadReconcileCache srv now gatewayNamespace w =
     (case LoadReconcileCacheSharded srv now gatewayNamespace ''ingress-doperator-reconcile-cache'' 16 w of
        (Inl e, w) \<Rightarrow> ([], w)
      | (Inr cache, w) \<Rightarrow> (cache, w))"

fun validate_filters :: "server \<Rightarrow> string \<Rightarrow> snippets_filter_mapping list \<Rightarrow> world \<Rightarrow> unit go_result \<times> world" where
  "validate_filters srv namespace [] w = (Inr (), w)"
| "validate_filters srv namespace (mapping # mappings) w =
     (case ValidateSnippetsFilterExists srv namespace (sm_name mapping) w of
        (Inl e, w) \<Rightarrow> (Inl e, w)
      | (Inr _, w) \<Rightarrow> validate_filters srv namespace mappings w)"

definition operator_ingress_reconciler :: "operator_config \<Rightarrow> ingress_reconciler" where
  "operator_ingress_reconciler cfg = \<lparr>rc_gatewayNamespace = oc_GatewayNamespace cfg, rc_gatewayName = oc_GatewayName cfg,
     rc_gatewayClassName = oc_GatewayClassName cfg, rc_watchNamespace = oc_WatchNamespace cfg,
     rc_oneGatewayPerIngress = oc_OneGatewayPerIngress cfg, rc_enableDeletion = oc_EnableDeletion cfg,
     rc_hostnameRewriteFrom = oc_HostnameRewriteFrom cfg, rc_hostnameRewriteTo = oc_HostnameRewriteTo cfg,
     rc_postProcessingMode = oc_IngressPostProcessingMode cfg, rc_gatewayAnnotationFilters = oc_GatewayFilters cfg,
     rc_httpRouteAnnotationFilters = oc_HTTPRouteFilters cfg, rc_defaultGatewayAnnotations = oc_GatewayAnnotationsMap cfg,
     rc_infrastructureAnnotations = oc_GatewayInfraAnnotationsMap cfg,
     rc_infrastructureByClass = oc_InfrastructureAnnotationsByClass cfg, rc_classFilters = oc_IngressClassFilters cfg,
     rc_classIgnoreFilters = oc_IngressClassIgnoreFilters cfg, rc_classEmpty = oc_IngressClassEmpty cfg,
     rc_useIngress2Gateway = oc_UseIngress2Gateway cfg, rc_provider = oc_Ingress2GatewayProvider cfg,
     rc_providerClass = oc_Ingress2GatewayIngressClass cfg, rc_classSnippets = oc_ParsedClassSnippetsFilters cfg,
     rc_nameSnippets = oc_ParsedNameSnippetsFilters cfg, rc_annotationAdd = oc_ParsedAnnotationSnippetsAdd cfg,
     rc_annotationRemove = oc_ParsedAnnotationSnippetsRemove cfg, rc_clearStatus = oc_ClearIngressStatusOnDisable cfg,
     rc_cache = \<lparr>ReconcileCacheNamespace = oc_GatewayNamespace cfg, ReconcileCacheBaseName = ''ingress-doperator-reconcile-cache'',
       ReconcileCacheShards = 16, ReconcileCachePersist = oc_ReconcileCachePersist cfg,
       ReconcileCacheMaxEntries = oc_ReconcileCacheMaxEntries cfg\<rparr>, rc_recorder = True\<rparr>"

definition operator_route_reconciler :: "operator_config \<Rightarrow> route_reconciler" where
  "operator_route_reconciler cfg = \<lparr>rr_gatewayNamespace = oc_GatewayNamespace cfg, rr_gatewayClassName = oc_GatewayClassName cfg,
     rr_hostnameRewriteFrom = oc_HostnameRewriteFrom cfg, rr_hostnameRewriteTo = oc_HostnameRewriteTo cfg,
     rr_postProcessingMode = oc_IngressPostProcessingMode cfg\<rparr>"

text \<open>The start: the reason of the exit, or the two reconcilers, the cache and the watches.\<close>

definition operator_main ::
  "server \<Rightarrow> manager \<Rightarrow> int \<Rightarrow> operator_config \<Rightarrow> world
    \<Rightarrow> (string + ingress_reconciler \<times> route_reconciler \<times> reconcile_cache \<times> (string \<times> string) list) \<times> world" where
  "operator_main srv mgr now flags w =
     (case parseOperatorConfig flags of
        Inl e \<Rightarrow> (Inl (''Invalid configuration: '' @ e), w)
      | Inr cfg \<Rightarrow>
     if \<not> NewManager mgr (operator_manager_options cfg) then (Inl ''unable to start manager'', w)
     else let (res, w) = (if oc_IngressPostProcessingMode cfg = IngressPostProcessingModeDisable
                          then main_ensureDisabledIngressClass srv w else (Inr (), w))
          in if isl res then (Inl ''failed to ensure disabled IngressClass'', w)
     else let (res, w) = ensureGatewayNamespace srv (oc_GatewayNamespace cfg) w
          in if isl res then (Inl ''Gateway namespace does not exist'', w)
     else let (cache, w) = (if oc_ReconcileCachePersist cfg
                            then loadReconcileCache srv now (oc_GatewayNamespace cfg) w else ([], w));
              (res, w) = validate_filters srv (oc_GatewayNamespace cfg) (oc_ParsedClassSnippetsFilters cfg) w
          in if isl res then (Inl ''SnippetsFilter not found in gateway namespace'', w)
     else let (watches, w) = SetupWithManager srv w
          in if \<not> Complete mgr ''Ingress'' then (Inl ''unable to create controller Ingress'', w)
     else if \<not> Complete mgr ''HTTPRoute'' then (Inl ''unable to create controller HTTPRoute'', w)
     else if isl (validateHostnameRewrite (oc_HostnameRewriteFrom cfg) (oc_HostnameRewriteTo cfg))
     then (Inl ''Invalid hostname rewrite configuration'', w)
     else if \<not> AddHealthzCheck mgr then (Inl ''unable to set up health check'', w)
     else if \<not> AddReadyzCheck mgr then (Inl ''unable to set up ready check'', w)
     else (Inr (operator_ingress_reconciler cfg, operator_route_reconciler cfg, cache, watches), w))"

section \<open>Starting the webhook\<close>

text \<open>The flags of the webhook.\<close>

record webhook_flags =
  wf_metricsAddr :: string
  wf_probeAddr :: string
  wf_webhookPort :: int
  wf_certDir :: string
  wf_gatewayNamespace :: string
  wf_gatewayName :: string
  wf_gatewayClassName :: string
  wf_hostnameRewriteFrom :: string
  wf_hostnameRewriteTo :: string
  wf_gatewayAnnotations :: string
  wf_gatewayAnnotationFilters :: string
  wf_httpRouteAnnotationFilters :: string
  wf_ingressClassSnippetsFilters :: string
  wf_ingressNameSnippetsFilters :: string
  wf_ingressAnnotationSnippetsAdd :: string
  wf_ingressAnnotationSnippetsRemove :: string
  wf_useIngress2Gateway :: bool
  wf_ingress2GatewayProvider :: string
  wf_ingress2GatewayIngressClass :: string
  wf_ingressClassFilter :: string
  wf_ingressClassIgnoreFilter :: string
  wf_ingressClassEmpty :: string
  wf_verbosity :: int

definition default_webhook_flags :: webhook_flags where
  "default_webhook_flags = \<lparr>wf_metricsAddr = '':8080'', wf_probeAddr = '':8081'', wf_webhookPort = 9443,
     wf_certDir = ''/tmp/k8s-webhook-server/serving-certs'',
     wf_gatewayNamespace = ''default'', wf_gatewayName = ''ingress-gateway'', wf_gatewayClassName = ''nginx'',
     wf_hostnameRewriteFrom = [], wf_hostnameRewriteTo = [], wf_gatewayAnnotations = [],
     wf_gatewayAnnotationFilters = ''ingress.kubernetes.io,cert-manager.io,nginx.ingress.kubernetes.io,kubectl.kubernetes.io,kubernetes.io/ingress.class,ingress-doperator.fiction.si'',
     wf_httpRouteAnnotationFilters = ''ingress.kubernetes.io,cert-manager.io,nginx.ingress.kubernetes.io,kubectl.kubernetes.io,kubernetes.io/ingress.class,ingress-doperator.fiction.si'',
     wf_ingressClassSnippetsFilters = [], wf_ingressNameSnippetsFilters = [], wf_ingressAnnotationSnippetsAdd = [],
     wf_ingressAnnotationSnippetsRemove = [], wf_useIngress2Gateway = False, wf_ingress2GatewayProvider = ''ingress-nginx'',
     wf_ingress2GatewayIngressClass = ''nginx'', wf_ingressClassFilter = ''*'', wf_ingressClassIgnoreFilter = [],
     wf_ingressClassEmpty = ''none'', wf_verbosity = 0\<rparr>"

definition webhook_translator :: "webhook_flags \<Rightarrow> translator_config" where
  "webhook_translator f = \<lparr>GatewayNamespace = wf_gatewayNamespace f, GatewayName = wf_gatewayName f,
     GatewayClassName = wf_gatewayClassName f, HostnameRewriteFrom = wf_hostnameRewriteFrom f,
     HostnameRewriteTo = wf_hostnameRewriteTo f, DefaultGatewayAnnotations = parseKeyValueCSV (wf_gatewayAnnotations f),
     GatewayInfrastructureAnnotations = [], InfrastructureAnnotationsByClass = [],
     GatewayAnnotationFilters = splitCSV (wf_gatewayAnnotationFilters f),
     HTTPRouteAnnotationFilters = splitCSV (wf_httpRouteAnnotationFilters f), UseIngress2Gateway = wf_useIngress2Gateway f,
     Ingress2GatewayProvider = wf_ingress2GatewayProvider f, Ingress2GatewayIngressClass = wf_ingress2GatewayIngressClass f\<rparr>"

definition webhook_manager_options :: "webhook_flags \<Rightarrow> manager_options" where
  "webhook_manager_options f =
     \<lparr>Metrics = \<lparr>mo_BindAddress = wf_metricsAddr f, mo_SecureServing = False, mo_TLSOpts = [], mo_FilterProvider = None,
        mo_CertDir = [], mo_CertName = [], mo_KeyName = []\<rparr>,
      WebhookServer = \<lparr>wo_Port = wf_webhookPort f, wo_TLSOpts = [], wo_CertDir = wf_certDir f, wo_CertName = [], wo_KeyName = []\<rparr>,
      HealthProbeBindAddress = wf_probeAddr f, LeaderElection = False, LeaderElectionID = []\<rparr>"

definition webhook_main :: "server \<Rightarrow> manager \<Rightarrow> webhook_flags \<Rightarrow> world \<Rightarrow> (string + ingress_mutator) \<times> world" where
  "webhook_main srv mgr f w =
     (case ParseIngressClassSnippetsFilters (wf_ingressClassSnippetsFilters f) of
        Inl e \<Rightarrow> (Inl ''Invalid ingress-class-snippets-filter value'', w)
      | Inr classSnippets \<Rightarrow>
     (case ParseIngressClassSnippetsFilters (wf_ingressNameSnippetsFilters f) of
        Inl e \<Rightarrow> (Inl ''Invalid ingress-name-snippets-filter value'', w)
      | Inr nameSnippets \<Rightarrow>
     (case ParseIngressAnnotationSnippetsRules (wf_ingressAnnotationSnippetsAdd f) of
        Inl e \<Rightarrow> (Inl ''Invalid ingress-annotation-snippets-add value'', w)
      | Inr add \<Rightarrow>
     (case ParseIngressAnnotationSnippetsRules (wf_ingressAnnotationSnippetsRemove f) of
        Inl e \<Rightarrow> (Inl ''Invalid ingress-annotation-snippets-remove value'', w)
      | Inr remove \<Rightarrow>
     if \<not> NewManager mgr (webhook_manager_options f) then (Inl ''unable to start webhook'', w)
     else
     (case validate_filters srv (wf_gatewayNamespace f) classSnippets w of
        (Inl e, w) \<Rightarrow> (Inl ''SnippetsFilter not found in gateway namespace'', w)
      | (Inr _, w) \<Rightarrow>
     if \<not> AddHealthzCheck mgr then (Inl ''unable to set up health check'', w)
     else if \<not> AddReadyzCheck mgr then (Inl ''unable to set up ready check'', w)
     else (Inr \<lparr>mu_config = webhook_translator f,
             mu_classFilters = ParseCommaSeparatedList (wf_ingressClassFilter f),
             mu_classIgnoreFilters = ParseCommaSeparatedList (wf_ingressClassIgnoreFilter f),
             mu_classEmpty = wf_ingressClassEmpty f, mu_classSnippets = classSnippets, mu_nameSnippets = nameSnippets,
             mu_annotationAdd = add, mu_annotationRemove = remove, mu_recorder = True\<rparr>, w))))))"

end
