(* ===== verification/Startup_Properties.thy ===== *)
theory Startup_Properties
  imports Startup Effects
begin

text \<open>
  What a successful start of the operator guarantees: the checks that were made against the
  cluster, that they wrote nothing but the class for disabled Ingresses, and which annotations
  the configured filters keep from external-dns.
\<close>

section \<open>The checks against the cluster\<close>

lemma validate_filters_frame: "only K w w' \<Longrightarrow> only K w (snd (validate_filters srv ns ms w'))"
  by (induction ms arbitrary: w')
     (simp_all add: ValidateSnippetsFilterExists_def frame_simps split: sum.split option.split)

interpretation vf: frame "validate_filters srv ns ms" "{}" for srv ns ms
  by unfold_locales (simp add: validate_filters_frame)

lemma load_shards_frame: "only K w w' \<Longrightarrow> only K w (snd (load_shards srv cutoff ns base is out w'))"
  by (induction "is" arbitrary: out w') (simp_all add: frame_simps split: sum.split)

interpretation lc: frame "loadReconcileCache srv now ns" "{}" for srv now ns
  by unfold_locales (simp add: loadReconcileCache_def LoadReconcileCacheSharded_def load_shards_frame frame_simps split: sum.split)

lemma register_watches_frame: "only K w w' \<Longrightarrow> only K w (snd (register_watches srv ks w'))"
  by (induction ks arbitrary: w') (simp_all add: GetCRDVersion_def frame_simps split: option.split)

interpretation sw: frame "SetupWithManager srv" "{}" for srv
  by unfold_locales (simp add: SetupWithManager_def register_watches_frame del: register_watches.simps)

interpretation gn: frame "ensureGatewayNamespace srv ns" "{}" for srv ns
  by unfold_locales (simp add: ensureGatewayNamespace_def frame_simps)

interpretation me: frame "main_ensureDisabledIngressClass srv" "{KIngressClass}" for srv
  by unfold_locales (simp add: main_ensureDisabledIngressClass_def frame_simps split: sum.split option.split)

text \<open>The version of the filters that is installed, and that the process has remembered no other.\<close>

definition snippets_version :: "obj list \<Rightarrow> world \<Rightarrow> string option" where
  "snippets_version init w =
     (case stored_in init w KCRD [] SnippetsFilterCRDName of Some (OCRD c) \<Rightarrow> pickCRDVersion c | _ \<Rightarrow> None)"

definition remembers :: "obj list \<Rightarrow> world \<Rightarrow> bool" where
  "remembers init w \<longleftrightarrow> (\<forall>v. map_of (w_crdVersions w) SnippetsFilterCRDName = Some v \<longrightarrow> snippets_version init w = Some v)"

definition filter_there :: "obj list \<Rightarrow> world \<Rightarrow> string \<Rightarrow> string \<Rightarrow> bool" where
  "filter_there init w ns name \<longleftrightarrow>
     (\<forall>v. snippets_version init w = Some v \<longrightarrow> stored_in init w (KUnstructured v SnippetsFilterKind) ns name \<noteq> None)"

lemma snippets_version_only: "only {} w w' \<Longrightarrow> snippets_version init w' = snippets_version init w"
  using only_other [of "{}" w w' KCRD init "[]" SnippetsFilterCRDName] by (simp add: snippets_version_def)

lemma filter_there_only: "only {} w w' \<Longrightarrow> filter_there init w' ns name = filter_there init w ns name"
  using snippets_version_only [of w w' init] only_other [of "{}" w w' _ init] by (simp add: filter_there_def)

lemma crd_stored: "stored s KCRD [] n = Some x \<Longrightarrow> \<exists>c. x = OCRD c"
  using stored_is [of s KCRD "[]" n x] by (cases x) (auto simp: obj_is_def)

lemma getCRDVersion_snippets:
  assumes "remembers init w"
  shows "fst (getCRDVersion (mem_server init) SnippetsFilterCRDName w) = Inr (snippets_version init w)"
    and "remembers init (snd (getCRDVersion (mem_server init) SnippetsFilterCRDName w))"
  using assms crd_stored [of "store_of init (w_log w)" SnippetsFilterCRDName]
  by (auto simp: getCRDVersion_def remembers_def snippets_version_def do_call_def Let_def decode_def
      split: option.splits)

lemma unstructured_stored: "stored s (KUnstructured v k) ns n = Some x \<Longrightarrow> \<exists>u. x = OUnstructured u"
  using stored_is [of s "KUnstructured v k" ns n x] obj_is_cases(7) by blast

lemma validate_one:
  assumes "remembers init w"
  shows "isl (fst (ValidateSnippetsFilterExists (mem_server init) ns name w)) \<longleftrightarrow> \<not> filter_there init w ns name"
    and "remembers init (snd (ValidateSnippetsFilterExists (mem_server init) ns name w))"
proof -
  let ?get = "getCRDVersion (mem_server init) SnippetsFilterCRDName w"
  obtain w' where get: "?get = (Inr (snippets_version init w), w')" and rem: "remembers init w'"
    using getCRDVersion_snippets [OF assms] by (metis prod.collapse)
  have "stored_in init w' = stored_in init w"
    using getCRDVersion_mem [of init "mem_server init" SnippetsFilterCRDName w] get by simp
  moreover have "remembers init (snd (do_call srv (Get k m n) w'))" for srv k m n
    using rem by (simp add: remembers_def do_call_def Let_def snippets_version_def)
  ultimately show "isl (fst (ValidateSnippetsFilterExists (mem_server init) ns name w)) \<longleftrightarrow> \<not> filter_there init w ns name"
    and "remembers init (snd (ValidateSnippetsFilterExists (mem_server init) ns name w))"
    using rem get
    by (auto simp: ValidateSnippetsFilterExists_def snippetsCRDNameForKind_def extensionCRDNameForKind_def filter_there_def
        frame_simps decode_def split: option.splits dest: unstructured_stored)
qed

lemma validate_filters_iff:
  assumes "remembers init w"
  shows "isl (fst (validate_filters (mem_server init) ns ms w)) \<longleftrightarrow>
    (\<exists>m \<in> set ms. \<not> filter_there init w ns (sm_name m))"
  using assms
proof (induction ms arbitrary: w)
  case (Cons m ms)
  let ?run = "ValidateSnippetsFilterExists (mem_server init) ns (sm_name m) w"
  have "only {} w (snd ?run)"
    by (simp add: ValidateSnippetsFilterExists_def frame_simps split: sum.split option.split)
  then have "filter_there init (snd ?run) ns n = filter_there init w ns n" for n by (rule filter_there_only)
  then show ?case
    using Cons.IH [of "snd ?run"] validate_one [OF Cons.prems, of ns "sm_name m"]
    by (cases "fst ?run") (auto simp: case_prod_beta)
qed simp

section \<open>When the operator starts\<close>

lemma crdVersions_do_call [simp]: "w_crdVersions (snd (do_call srv c w)) = w_crdVersions w"
  by (simp add: do_call_def Let_def)

lemma crdVersions_load: "w_crdVersions (snd (load_shards srv cutoff ns base is out w)) = w_crdVersions w"
  by (induction "is" arbitrary: out w) (simp_all add: frame_simps split: sum.split)

lemma crdVersions_start [simp]:
  "w_crdVersions (snd (main_ensureDisabledIngressClass srv w)) = w_crdVersions w"
  "w_crdVersions (snd (ensureGatewayNamespace srv ns w)) = w_crdVersions w"
  "w_crdVersions (snd (loadReconcileCache srv now ns w)) = w_crdVersions w"
  by (simp_all add: main_ensureDisabledIngressClass_def ensureGatewayNamespace_def loadReconcileCache_def
      LoadReconcileCacheSharded_def crdVersions_load frame_simps split: sum.split option.split)

lemma disabled_class_mem:
  "\<not> isl (fst (main_ensureDisabledIngressClass (mem_server init) w))"
  "stored_in init (snd (main_ensureDisabledIngressClass (mem_server init) w)) KIngressClass [] DisabledIngressClassName \<noteq> None"
proof -
  have "\<exists>c. x = OIngressClass c" if "stored s KIngressClass [] n = Some x" for s n x
    using stored_is [OF that] by (cases x) (auto simp: obj_is_def)
  then show "\<not> isl (fst (main_ensureDisabledIngressClass (mem_server init) w))"
    "stored_in init (snd (main_ensureDisabledIngressClass (mem_server init) w)) KIngressClass [] DisabledIngressClassName \<noteq> None"
    by (fastforce simp: main_ensureDisabledIngressClass_def frame_simps decode_def write_error_def list_ex_same_obj
        stored_Create obj_is_def split: option.splits)+
qed

lemma gateway_namespace_mem:
  "isl (fst (ensureGatewayNamespace (mem_server init) ns w)) \<longleftrightarrow> stored_in init w KNamespace [] ns = None"
proof -
  have "\<exists>c. x = ONamespace c" if "stored s KNamespace [] n = Some x" for s n x
    using stored_is [OF that] by (cases x) (auto simp: obj_is_def)
  then show ?thesis
    by (fastforce simp: ensureGatewayNamespace_def frame_simps decode_def split: option.splits)
qed

definition rewrite_lists_match :: "string \<Rightarrow> string \<Rightarrow> bool" where
  "rewrite_lists_match f t \<longleftrightarrow> (f = [] \<longleftrightarrow> t = []) \<and> length (Split '','' f) = length (Split '','' t)"

lemma validateHostnameRewrite_iff: "isl (validateHostnameRewrite f t) \<longleftrightarrow> \<not> rewrite_lists_match f t"
  by (auto simp: validateHostnameRewrite_def rewrite_lists_match_def Let_def)

definition manager_ready :: "manager \<Rightarrow> manager_options \<Rightarrow> bool" where
  "manager_ready mgr opts \<longleftrightarrow> NewManager mgr opts \<and> Complete mgr ''Ingress'' \<and> Complete mgr ''HTTPRoute'' \<and>
     AddHealthzCheck mgr \<and> AddReadyzCheck mgr"

text \<open>
  C12. The operator starts exactly when its flags parse, the calls to the manager succeed, the
  namespace of the Gateways exists, the two lists of hostname rewrites have the same number of
  entries and, if SnippetsFilters are installed, every filter mapped to an Ingress class is in that
  namespace. Before that it writes
  nothing but the class for disabled Ingresses, which exists after every start in that mode. Filters
  mapped to names of Ingresses play no part in the decision. The two reconcilers of a started
  operator work on the same namespace of Gateways.
\<close>

theorem operator_starts_iff:
  assumes "w_crdVersions w = []"
  shows "(\<not> isl (fst (operator_main (mem_server init) mgr now flags w)) \<longleftrightarrow>
      (\<exists>cfg. parseOperatorConfig flags = Inr cfg \<and> manager_ready mgr (operator_manager_options cfg) \<and> stored_in init w KNamespace [] (oc_GatewayNamespace cfg) \<noteq> None \<and>
        rewrite_lists_match (oc_HostnameRewriteFrom cfg) (oc_HostnameRewriteTo cfg) \<and>
        (\<forall>m \<in> set (oc_ParsedClassSnippetsFilters cfg). filter_there init w (oc_GatewayNamespace cfg) (sm_name m)))) \<and>
    only {KIngressClass} w (snd (operator_main (mem_server init) mgr now flags w)) \<and>
    (\<forall>r rr cache watches w'. operator_main (mem_server init) mgr now flags w = (Inr (r, rr, cache, watches), w') \<longrightarrow>
      rr_gatewayNamespace rr = rc_gatewayNamespace r \<and>
      (rc_postProcessingMode r = IngressPostProcessingModeDisable \<longrightarrow>
         stored_in init w' KIngressClass [] DisabledIngressClassName \<noteq> None))"
proof (cases "parseOperatorConfig flags")
  case (Inl e)
  then show ?thesis by (simp add: operator_main_def)
next
  case (Inr cfg)
  let ?srv = "mem_server init" and ?ns = "oc_GatewayNamespace cfg"
  define w1 where "w1 = snd (if oc_IngressPostProcessingMode cfg = IngressPostProcessingModeDisable
    then main_ensureDisabledIngressClass ?srv w else (Inr (), w))"
  define w2 where "w2 = snd (ensureGatewayNamespace ?srv ?ns w1)"
  define run where "run = (if oc_ReconcileCachePersist cfg then loadReconcileCache ?srv now ?ns w2 else ([], w2))"
  define w3 where "w3 = snd run"
  define w4 where "w4 = snd (validate_filters ?srv ?ns (oc_ParsedClassSnippetsFilters cfg) w3)"
  have o1: "only {KIngressClass} w w1" unfolding w1_def by simp
  have o12: "only {} w1 w2" unfolding w2_def by simp
  have o13: "only {} w1 w3" unfolding w3_def run_def using o12 by simp
  have o14: "only {} w1 w4" unfolding w4_def using o13 by simp
  have o15: "only {} w1 (snd (SetupWithManager ?srv w4))" using o14 by simp
  have writes: "only {KIngressClass} w v" if "only {} w1 v" for v
    using o1 only_mono [OF that, of "{KIngressClass}"] by (blast intro: only_trans)
  have crds: "w_crdVersions w3 = []" using assms by (simp add: w3_def run_def w2_def w1_def)
  then have rem: "remembers init w3" by (simp add: remembers_def)
  have same: "snippets_version init w3 = snippets_version init w"
    using only_other [OF writes [OF o13], of KCRD init] by (simp add: snippets_version_def)
  have there: "filter_there init w3 ?ns n = filter_there init w ?ns n" for n
    using only_other [OF writes [OF o13], of "KUnstructured v SnippetsFilterKind" init for v] same by (simp add: filter_there_def)
  have nsp: "stored_in init w1 KNamespace [] ?ns = stored_in init w KNamespace [] ?ns"
    using only_other [OF o1, of KNamespace init] by simp
  have cls: "stored_in init v KIngressClass [] DisabledIngressClassName \<noteq> None"
    if "oc_IngressPostProcessingMode cfg = IngressPostProcessingModeDisable" "only {} w1 v" for v
    using only_other [OF that(2), of KIngressClass init] disabled_class_mem(2) [of init w] that(1) by (simp add: w1_def)
  have main: "operator_main ?srv mgr now flags w =
    (if \<not> NewManager mgr (operator_manager_options cfg) then (Inl ''unable to start manager'', w)
     else if isl (fst (ensureGatewayNamespace ?srv ?ns w1)) then (Inl ''Gateway namespace does not exist'', w2)
     else if isl (fst (validate_filters ?srv ?ns (oc_ParsedClassSnippetsFilters cfg) w3))
     then (Inl ''SnippetsFilter not found in gateway namespace'', w4)
     else if \<not> Complete mgr ''Ingress'' then (Inl ''unable to create controller Ingress'', snd (SetupWithManager ?srv w4))
     else if \<not> Complete mgr ''HTTPRoute'' then (Inl ''unable to create controller HTTPRoute'', snd (SetupWithManager ?srv w4))
     else if isl (validateHostnameRewrite (oc_HostnameRewriteFrom cfg) (oc_HostnameRewriteTo cfg))
     then (Inl ''Invalid hostname rewrite configuration'', snd (SetupWithManager ?srv w4))
     else if \<not> AddHealthzCheck mgr then (Inl ''unable to set up health check'', snd (SetupWithManager ?srv w4))
     else if \<not> AddReadyzCheck mgr then (Inl ''unable to set up ready check'', snd (SetupWithManager ?srv w4))
     else (Inr (operator_ingress_reconciler cfg, operator_route_reconciler cfg, fst run, fst (SetupWithManager ?srv w4)),
       snd (SetupWithManager ?srv w4)))"
    using Inr disabled_class_mem(1) [of init w]
    by (simp add: operator_main_def frame_simps w1_def w2_def w3_def w4_def run_def)
  show ?thesis
    unfolding main gateway_namespace_mem nsp validate_filters_iff [OF rem] there validateHostnameRewrite_iff
    using Inr writes [OF o12] writes [OF o14] writes [OF o15] cls [OF _ o15]
    by (auto simp: operator_ingress_reconciler_def operator_route_reconciler_def manager_ready_def)
qed

definition example_manager :: manager where
  "example_manager = \<lparr>NewManager = (\<lambda>opts. HealthProbeBindAddress opts \<noteq> []), Complete = (\<lambda>_. True),
     AddHealthzCheck = True, AddReadyzCheck = True\<rparr>"

theorem operator_starts_iff_witness:
  "\<exists>r rr cache watches w'. operator_main (mem_server [ONamespace ''nginx-fabric'']) example_manager 0 default_operator_flags empty_world =
     (Inr (r, rr, cache, watches), w') \<and> rr_gatewayNamespace rr = rc_gatewayNamespace r"
proof -
  let ?init = "[ONamespace ''nginx-fabric'']"
  have "case parseOperatorConfig default_operator_flags of Inl _ \<Rightarrow> False
    | Inr cfg \<Rightarrow> stored_in ?init empty_world KNamespace [] (oc_GatewayNamespace cfg) \<noteq> None \<and>
        (oc_HostnameRewriteFrom cfg, oc_HostnameRewriteTo cfg, oc_ParsedClassSnippetsFilters cfg) = ([], [], []) \<and>
        HealthProbeBindAddress (operator_manager_options cfg) \<noteq> []"
    by code_simp
  then have "\<exists>cfg. parseOperatorConfig default_operator_flags = Inr cfg \<and>
      manager_ready example_manager (operator_manager_options cfg) \<and> stored_in ?init empty_world KNamespace [] (oc_GatewayNamespace cfg) \<noteq> None \<and>
      rewrite_lists_match (oc_HostnameRewriteFrom cfg) (oc_HostnameRewriteTo cfg) \<and>
      (\<forall>m \<in> set (oc_ParsedClassSnippetsFilters cfg). filter_there ?init empty_world (oc_GatewayNamespace cfg) (sm_name m))"
    by (auto simp: rewrite_lists_match_def manager_ready_def example_manager_def split: sum.splits)
  moreover have "w_crdVersions empty_world = []" by (simp add: empty_world_def)
  note main = operator_starts_iff [OF this, of ?init example_manager 0 default_operator_flags]
  ultimately have "\<not> isl (fst (operator_main (mem_server ?init) example_manager 0 default_operator_flags empty_world))" by blast
  then obtain r rr cache watches w' where
    "operator_main (mem_server ?init) example_manager 0 default_operator_flags empty_world = (Inr (r, rr, cache, watches), w')"
    by (metis isl_def prod.collapse sum.exhaust_sel sum.collapse(2))
  with main show ?thesis by blast
qed

text \<open>
  The webhook makes fewer checks: neither the namespace of the Gateways nor the hostname rewrites
  are looked at, so it starts with lists of rewrites that the operator refuses.
\<close>

lemma webhook_main_writes_nothing: "only {} w (snd (webhook_main srv mgr f w))"
  by (simp add: webhook_main_def case_prod_beta split: sum.split prod.split)

lemma webhook_starts_iff:
  assumes "w_crdVersions w = []"
  shows "\<not> isl (fst (webhook_main (mem_server init) mgr f w)) \<longleftrightarrow>
    (\<exists>mappings. ParseIngressClassSnippetsFilters (wf_ingressClassSnippetsFilters f) = Inr mappings \<and>
      (\<forall>m \<in> set mappings. filter_there init w (wf_gatewayNamespace f) (sm_name m))) \<and>
    \<not> isl (ParseIngressClassSnippetsFilters (wf_ingressNameSnippetsFilters f)) \<and>
    \<not> isl (ParseIngressAnnotationSnippetsRules (wf_ingressAnnotationSnippetsAdd f)) \<and>
    \<not> isl (ParseIngressAnnotationSnippetsRules (wf_ingressAnnotationSnippetsRemove f)) \<and>
    NewManager mgr (webhook_manager_options f) \<and> AddHealthzCheck mgr \<and> AddReadyzCheck mgr"
proof -
  have "remembers init w" using assms by (simp add: remembers_def)
  note iff = validate_filters_iff [OF this, of "wf_gatewayNamespace f"]
  show ?thesis
  proof (cases "ParseIngressClassSnippetsFilters (wf_ingressClassSnippetsFilters f)")
    case (Inr mappings)
    then show ?thesis
      using iff [of mappings]
      by (cases "validate_filters (mem_server init) (wf_gatewayNamespace f) mappings w")
         (auto simp: webhook_main_def split: sum.splits)
  qed (simp add: webhook_main_def)
qed

section \<open>Servers and logging\<close>

text \<open>
  The operator's servers speak HTTP/2 only when asked to, whatever the other flags are, and metrics
  that are served over TLS are served to authorised clients only. The level of the logger is a
  signed byte: beyond \<open>-v=128\<close> the flag wraps round, and \<open>-v=129\<close> is a level above every message.
\<close>

lemma operator_servers_http2:
  assumes "opts = mo_TLSOpts (Metrics (operator_manager_options cfg)) \<or>
    opts = wo_TLSOpts (WebhookServer (operator_manager_options cfg))"
  shows "fold (\<lambda>opt. opt) opts c = (if oc_EnableHTTP2 cfg then c else c\<lparr>NextProtos := [''http/1.1'']\<rparr>)"
  using assms
  by (auto simp: operator_manager_options_def buildMetricsServerOptions_def buildWebhookServer_def buildTLSOptions_def Let_def)

lemma operator_metrics_protected:
  "mo_SecureServing (Metrics (operator_manager_options cfg)) \<longleftrightarrow>
     mo_FilterProvider (Metrics (operator_manager_options cfg)) = Some WithAuthenticationAndAuthorization"
  by (simp add: operator_manager_options_def buildMetricsServerOptions_def Let_def)

lemma with_verbosity_level:
  assumes "0 < v"
  shows "map_option sint (zo_Level (with_verbosity v opts)) = Some (- v) \<longleftrightarrow> v \<le> 128"
proof -
  have "signed_take_bit 7 (- v) = - v" if "v \<le> 128"
    using that assms by (intro signed_take_bit_int_eq_self) simp_all
  moreover have "- 128 \<le> signed_take_bit 7 (- v)"
    using signed_take_bit_int_greater_eq_minus_exp [of 7 "- v"] by simp
  moreover have "sint (word_of_int (- v) :: 8 word) = signed_take_bit 7 (- v)" by (simp add: signed_of_int del: of_int_minus)
  ultimately show ?thesis using assms by (auto simp: with_verbosity_def simp del: of_int_minus)
qed

section \<open>Annotations kept from external-dns\<close>

lemma external_dns_filters_cover:
  assumes "k = ExternalDNSIngressHostnameSource \<or> k = ExternalDNSHostnameAnnotation"
  shows "list_ex (HasPrefix k) (external_dns_filters IngressPostProcessingModeDisableExternalDNS filters) \<longleftrightarrow>
    list_ex (HasPrefix k) filters \<or> \<not> list_ex (\<lambda>item. TrimSpace item = k) filters"
proof -
  have "\<not> HasPrefix ExternalDNSIngressHostnameSource ExternalDNSHostnameAnnotation"
    "\<not> HasPrefix ExternalDNSHostnameAnnotation ExternalDNSIngressHostnameSource"
    "TrimSpace ExternalDNSIngressHostnameSource \<noteq> ExternalDNSHostnameAnnotation"
    by code_simp+
  then show ?thesis using assms by (auto simp: external_dns_filters_def appendFilterIfMissing_def)
qed


definition example_dns_flags :: "string \<Rightarrow> operator_config" where
  "example_dns_flags filters = default_operator_flags\<lparr>oc_IngressPostProcessing := ''disable-external-dns'',
     oc_HTTPRouteAnnotationFilters := filters\<rparr>"

definition example_dns_ingress :: ingress where
  "example_dns_ingress = example_ingress\<lparr>i_meta := (i_meta example_ingress)\<lparr>
     m_annotations := [(ExternalDNSHostnameAnnotation, ''app.domain.cc'')]\<rparr>\<rparr>"


end
