(* ===== verification/Reenabler.thy ===== *)
theory Reenabler
  imports Post_Processing HTTPRoute_Manager Extension_Refs
begin

text \<open>
  \<open>cmd/reenabler/main.go\<close>, the tool that undoes what the operator did to the source
  Ingresses: the flags and their combinations, restoring the class and external-dns settings,
  deleting disabled Ingresses whose replacement exists, and removing derived resources.
\<close>

section \<open>Flags\<close>

record tracked_bool =
  tb_value :: bool
  tb_set :: bool

text \<open>\<open>strconv.ParseBool\<close>.\<close>

definition ParseBool :: "string \<Rightarrow> bool option" where
  "ParseBool s =
     (if s \<in> set [''1'', ''t'', ''T'', ''true'', ''TRUE'', ''True''] then Some True
      else if s \<in> set [''0'', ''f'', ''F'', ''false'', ''FALSE'', ''False''] then Some False
      else None)"

definition trackedBool_Set :: "string \<Rightarrow> tracked_bool \<Rightarrow> bool \<times> tracked_bool" where
  "trackedBool_Set s b =
     (case ParseBool s of
        None \<Rightarrow> (False, b\<lparr>tb_set := True\<rparr>)
      | Some v \<Rightarrow> (True, b\<lparr>tb_set := True, tb_value := v\<rparr>))"

definition FormatBool :: "bool \<Rightarrow> string" where
  "FormatBool b = (if b then ''true'' else ''false'')"

definition trackedBool_String :: "tracked_bool \<Rightarrow> string" where
  "trackedBool_String b = FormatBool (tb_value b)"

record reenabler_options =
  o_removeDerivedResources :: bool
  o_restoreClass :: bool
  o_restoreExternalDNS :: bool
  o_dangerouslyDeleteIngresses :: bool
  o_preventFurtherReconciliation :: bool
  o_markIgnoreIngress :: bool

record reenabler_flags =
  f_removeDerivedResources :: bool
  f_restore :: tracked_bool
  f_restoreClass :: tracked_bool
  f_restoreExternalDNS :: tracked_bool
  f_dangerouslyDeleteIngresses :: bool
  f_preventFurtherReconciliation :: bool
  f_markIgnoreIngress :: bool

text \<open>The values before parsing: \<open>--restore\<close> defaults to true.\<close>

definition default_flags :: reenabler_flags where
  "default_flags = \<lparr>f_removeDerivedResources = False, f_restore = \<lparr>tb_value = True, tb_set = False\<rparr>,
     f_restoreClass = \<lparr>tb_value = False, tb_set = False\<rparr>, f_restoreExternalDNS = \<lparr>tb_value = False, tb_set = False\<rparr>,
     f_dangerouslyDeleteIngresses = False, f_preventFurtherReconciliation = False, f_markIgnoreIngress = False\<rparr>"

text \<open>The options \<open>main\<close> runs with, or the message it exits with.\<close>

definition resolve_flags :: "reenabler_flags \<Rightarrow> string + reenabler_options" where
  "resolve_flags f =
     (let someSet = (tb_set (f_restoreClass f) \<or> tb_set (f_restoreExternalDNS f));
          restore = tb_value (f_restore f)
      in if f_dangerouslyDeleteIngresses f \<and> someSet
         then Inl ''--dangerously-delete-ingresses cannot be combined with restore flags''
         else if f_dangerouslyDeleteIngresses f \<and> f_removeDerivedResources f
         then Inl ''--dangerously-delete-ingresses cannot be combined with --remove-derived-resources''
         else let restore = (if f_dangerouslyDeleteIngresses f then False else restore)
              in if f_removeDerivedResources f \<and> (someSet \<or> restore)
                 then Inl ''--remove-derived-resources cannot be combined with restore flags''
                 else let restore = (if someSet then False else restore)
                      in Inr \<lparr>o_removeDerivedResources = f_removeDerivedResources f,
                           o_restoreClass = (if restore then True else tb_value (f_restoreClass f)),
                           o_restoreExternalDNS = (if restore then True else tb_value (f_restoreExternalDNS f)),
                           o_dangerouslyDeleteIngresses = f_dangerouslyDeleteIngresses f,
                           o_preventFurtherReconciliation = f_preventFurtherReconciliation f,
                           o_markIgnoreIngress = f_markIgnoreIngress f\<rparr>)"

section \<open>Selecting Ingresses\<close>

text \<open>The loop over the patterns for one name: \<open>Inl\<close> is a malformed pattern.\<close>

fun match_any :: "string \<Rightarrow> string list \<Rightarrow> go_error + bool" where
  "match_any name [] = Inr False"
| "match_any name (item # items) =
     (case Match item name of
        None \<Rightarrow> Inl (Message (''invalid ingress-name pattern '' @ Quote item))
      | Some ok \<Rightarrow> if ok then Inr True else match_any name items)"

fun filter_loop :: "string list \<Rightarrow> ingress list \<Rightarrow> ingress list go_result" where
  "filter_loop patterns [] = Inr []"
| "filter_loop patterns (ing # ings) =
     (case match_any (i_name ing) patterns of
        Inl e \<Rightarrow> Inl e
      | Inr ok \<Rightarrow> map_sum id (\<lambda>rest. if ok then ing # rest else rest) (filter_loop patterns ings))"

definition filterIngressesByName :: "ingress list \<Rightarrow> string \<Rightarrow> ingress list go_result" where
  "filterIngressesByName ings pattern =
     (let patterns = ParseCommaSeparatedList pattern
      in if patterns = [] then Inr ings else filter_loop patterns ings)"

definition listIngresses :: "server \<Rightarrow> string \<Rightarrow> string \<Rightarrow> world \<Rightarrow> ingress list go_result \<times> world" where
  "listIngresses srv namespace namePattern w =
     (let (r, w) = do_call srv (ListAll KIngress namespace) w
      in case decode_list as_ingress r of
           Inl e \<Rightarrow> (Inl (ApiError e), w)
         | Inr items \<Rightarrow>
             if namePattern = [] then (Inr items, w)
             else (filterIngressesByName items namePattern, w))"

section \<open>Predicates on an Ingress\<close>

definition isDisabledIngress :: "ingress \<Rightarrow> bool" where
  "isDisabledIngress ing \<longleftrightarrow>
     (if mget (i_annotations ing) IngressDisabledAnnotation = [] then False
      else if i_ingressClassName ing = Some DisabledIngressClassName then True
      else if mget (i_annotations ing) IngressClassAnnotation = DisabledIngressClassName then True
      else False)"

definition needsExternalDNSRestore :: "ingress \<Rightarrow> bool" where
  "needsExternalDNSRestore ing \<longleftrightarrow>
     mhas (i_annotations ing) OriginalExternalDNSHostname \<or>
     mhas (i_annotations ing) OriginalExternalDNSIngressHostnameSource \<or>
     mhas (i_annotations ing) ExternalDNSIngressHostnameSource"

definition shouldRestoreIngress :: "ingress \<Rightarrow> bool \<Rightarrow> bool \<Rightarrow> bool" where
  "shouldRestoreIngress ing disabled restoreExternalDNS \<longleftrightarrow>
     (if disabled then True
      else if \<not> restoreExternalDNS then False
      else if mget (i_annotations ing) IngressDisabledAnnotation = IngressDisabledReasonExternalDNS then True
      else needsExternalDNSRestore ing)"

definition shouldDeleteIngress :: "ingress \<Rightarrow> bool" where
  "shouldDeleteIngress ing \<longleftrightarrow>
     (let a = i_annotations ing; v = mget a IngressDisabledAnnotation
      in if v = [] then False
         else if v = IngressDisabledReasonNormal then isDisabledIngress ing
         else if v = IngressDisabledReasonExternalDNS
         then mget a ExternalDNSIngressHostnameSource \<noteq> [] \<and>
              (mhas a OriginalExternalDNSHostname \<or> mhas a OriginalExternalDNSIngressHostnameSource)
         else False)"

definition isManagedByUsForIngressWithReason :: "http_route \<Rightarrow> string \<Rightarrow> string \<Rightarrow> bool" where
  "isManagedByUsForIngressWithReason route ingressNamespace ingressName \<longleftrightarrow>
     (let a = hr_annotations route; source = mget a SourceAnnotation
      in if mget a ManagedByAnnotation \<noteq> ManagedByValue then False
         else if source = [] then False
         else source = source_key ingressNamespace ingressName)"

section \<open>Restoring\<close>

text \<open>
  \<open>updateIngressWithRetry\<close>: at most three rounds of reading, changing and writing. The
  change answers the new Ingress and whether it has to be written.
\<close>

fun update_retry_loop ::
  "server \<Rightarrow> nat \<Rightarrow> ingress \<Rightarrow> (ingress \<Rightarrow> ingress \<times> bool) \<Rightarrow> api_error option \<Rightarrow> world \<Rightarrow> unit go_result \<times> world" where
  "update_retry_loop srv 0 ing mutate lastErr w =
     (case lastErr of
        Some e \<Rightarrow> (Inl (ApiError e), w)
      | None \<Rightarrow> (Inl (Message (''failed to update ingress '' @ i_namespace ing @ ''/'' @ i_name ing @
                   '' after retries'')), w))"
| "update_retry_loop srv (Suc n) ing mutate lastErr w =
     (let (r, w) = do_call srv (Get KIngress (i_namespace ing) (i_name ing)) w
      in case decode as_ingress r of
           Inl e \<Rightarrow> (Inl (ApiError e), w)
         | Inr current \<Rightarrow>
             let (updated, modified) = mutate current
             in if \<not> modified then (Inr (), w)
                else let (r, w) = do_call srv (Update (OIngress updated)) w
                     in case write_error r of
                          None \<Rightarrow> (Inr (), w)
                        | Some e \<Rightarrow>
                            if e = Conflict then update_retry_loop srv n ing mutate (Some e) w
                            else (Inl (ApiError e), w))"

definition updateIngressWithRetry ::
  "server \<Rightarrow> ingress \<Rightarrow> (ingress \<Rightarrow> ingress \<times> bool) \<Rightarrow> world \<Rightarrow> unit go_result \<times> world" where
  "updateIngressWithRetry srv ing mutate w = update_retry_loop srv 3 ing mutate None w"

definition restore_class_annotations :: "string gomap \<Rightarrow> string gomap" where
  "restore_class_annotations a =
     mdel_key OriginalIngressClassAnnotation (mdel_key OriginalIngressClassNameAnnotation
       (mdel_key IngressDisabledAnnotation
         (if mget a OriginalIngressClassAnnotation \<noteq> []
          then mset_key IngressClassAnnotation (mget a OriginalIngressClassAnnotation) a
          else mdel_key IngressClassAnnotation a)))"

definition restore_class :: "ingress \<Rightarrow> ingress" where
  "restore_class ing =
     (let className = mget (i_annotations ing) OriginalIngressClassNameAnnotation
      in with_annotations (restore_class_annotations (i_annotations ing))
           (ing\<lparr>i_ingressClassName := (if className \<noteq> [] then Some className else None)\<rparr>))"

definition restore_key :: "string \<Rightarrow> string \<Rightarrow> string gomap \<Rightarrow> string gomap" where
  "restore_key k saved a =
     (let v = mget a saved
      in mdel_key saved (if v \<noteq> [] then mset_key k v a else mdel_key k a))"

definition restore_external_dns :: "string gomap \<Rightarrow> string gomap \<times> bool" where
  "restore_external_dns a =
     (let m1 = mhas a OriginalExternalDNSHostname;
          a = (if m1 then restore_key ExternalDNSHostnameAnnotation OriginalExternalDNSHostname a else a);
          m2 = mhas a OriginalExternalDNSIngressHostnameSource;
          m3 = (\<not> m2 \<and> mhas a ExternalDNSIngressHostnameSource);
          a = (if m2 then restore_key ExternalDNSIngressHostnameSource OriginalExternalDNSIngressHostnameSource a
               else if m3 then mdel_key ExternalDNSIngressHostnameSource a else a);
          m4 = (mget a IngressDisabledAnnotation = IngressDisabledReasonExternalDNS);
          a = (if m4 then mdel_key IngressDisabledAnnotation a else a)
      in (a, m1 \<or> m2 \<or> m3 \<or> m4))"

definition restored_ingress :: "bool \<Rightarrow> bool \<Rightarrow> ingress \<Rightarrow> ingress \<times> bool" where
  "restored_ingress restoreClass restoreExternalDNS ing =
     (let ing = (if restoreClass then restore_class ing else ing);
          (a, m) = (if restoreExternalDNS then restore_external_dns (i_annotations ing)
                    else (i_annotations ing, False))
      in (with_annotations a ing, restoreClass \<or> m))"

definition restoreIngressState :: "server \<Rightarrow> ingress \<Rightarrow> bool \<Rightarrow> bool \<Rightarrow> world \<Rightarrow> unit go_result \<times> world" where
  "restoreIngressState srv ing restoreClass restoreExternalDNS w =
     updateIngressWithRetry srv ing (restored_ingress restoreClass restoreExternalDNS) w"

definition markIngressDisabled :: "server \<Rightarrow> ingress \<Rightarrow> bool \<Rightarrow> world \<Rightarrow> unit go_result \<times> world" where
  "markIngressDisabled srv ing useNormal w =
     updateIngressWithRetry srv ing
       (\<lambda>updated. (with_annotations (mset_key IngressDisabledAnnotation
          (if useNormal then IngressDisabledReasonNormal else IngressDisabledReasonExternalDNS)
          (i_annotations updated)) updated, True)) w"

definition markIngressIgnored :: "server \<Rightarrow> ingress \<Rightarrow> world \<Rightarrow> unit go_result \<times> world" where
  "markIngressIgnored srv ing w =
     updateIngressWithRetry srv ing
       (\<lambda>updated. (with_annotations (mset_key IgnoreIngressAnnotation ''true'' (i_annotations updated)) updated, True)) w"

section \<open>Derived resources\<close>

definition parentRefKey :: "string \<Rightarrow> parent_ref \<Rightarrow> string option" where
  "parentRefKey defaultNamespace ref =
     (if pr_name ref = [] then None
      else let namespace = (case pr_namespace ref of
                  Some ns \<Rightarrow> if ns \<noteq> [] then ns else defaultNamespace
                | None \<Rightarrow> defaultNamespace)
           in Some (source_key namespace (pr_name ref)))"

text \<open>The keys a route contributes; the counting maps of the code are their multiplicities.\<close>

definition parent_keys :: "http_route \<Rightarrow> string list" where
  "parent_keys route = List.map_filter (parentRefKey (hr_namespace route)) (hr_parentRefs route)"

abbreviation parent_count :: "http_route list \<Rightarrow> string \<Rightarrow> nat" where
  "parent_count routes key \<equiv> count_list (concat (map parent_keys routes)) key"

definition list_gateways :: "server \<Rightarrow> world \<Rightarrow> gateway list result \<times> world" where
  "list_gateways srv w = (let (r, w) = do_call srv (ListAll KGateway []) w in (decode_list as_gateway r, w))"

definition hasManagedResources :: "server \<Rightarrow> ingress \<Rightarrow> world \<Rightarrow> (bool \<times> bool) result \<times> world" where
  "hasManagedResources srv ing w =
     (case GetHTTPRoutesWithPrefix srv (i_namespace ing) (i_name ing) w of
        (Inl e, w) \<Rightarrow> (Inl e, w)
      | (Inr routes, w) \<Rightarrow>
          if \<not> list_ex (\<lambda>r. IsManagedByUsForIngress (hr_annotations r) (i_namespace ing) (i_name ing)) routes
          then (Inr (False, False), w)
          else (case list_gateways srv w of
                  (Inl e, w) \<Rightarrow> (Inl e, w)
                | (Inr gateways, w) \<Rightarrow>
                    (Inr (True, list_ex (\<lambda>g. IsManagedByUsWithIngress (gw_annotations g) (i_namespace ing) (i_name ing))
                       gateways), w)))"

definition checkDeleteEligibility :: "server \<Rightarrow> ingress \<Rightarrow> world \<Rightarrow> (bool \<times> string) result \<times> world" where
  "checkDeleteEligibility srv ing w =
     (if mget (i_annotations ing) IngressDisabledAnnotation = []
      then (Inr (False, ''missing ingress-doperator disabled annotation''), w)
      else if \<not> shouldDeleteIngress ing
      then (Inr (False, ''disabled annotation does not satisfy delete criteria''), w)
      else case hasManagedResources srv ing w of
             (Inl e, w) \<Rightarrow> (Inl e, w)
           | (Inr (hasRoute, hasGateway), w) \<Rightarrow>
               (Inr (if \<not> hasRoute \<and> \<not> hasGateway then (False, ''missing managed HTTPRoute and Gateway'')
                     else if \<not> hasRoute then (False, ''missing managed HTTPRoute'')
                     else if \<not> hasGateway then (False, ''missing managed Gateway'')
                     else (True, [])), w))"

fun preflightDelete :: "server \<Rightarrow> ingress list \<Rightarrow> world \<Rightarrow> unit go_result \<times> world" where
  "preflightDelete srv [] w = (Inr (), w)"
| "preflightDelete srv (ing # ings) w =
     (case checkDeleteEligibility srv ing w of
        (Inl e, w) \<Rightarrow> (Inl (ApiError e), w)
      | (Inr (ok, reason), w) \<Rightarrow>
          if \<not> ok then (Inl (Message (''refusing to delete ingress '' @ i_namespace ing @ ''/'' @ i_name ing @ '': '' @ reason)), w)
          else preflightDelete srv ings w)"

definition deleteIngressIfEligible :: "server \<Rightarrow> ingress \<Rightarrow> world \<Rightarrow> unit go_result \<times> world" where
  "deleteIngressIfEligible srv ing w =
     (case checkDeleteEligibility srv ing w of
        (Inl e, w) \<Rightarrow> (Inl (ApiError e), w)
      | (Inr (ok, reason), w) \<Rightarrow>
          if \<not> ok then (Inr (), w)
          else let (r, w) = do_call srv (Delete KIngress (i_namespace ing) (i_name ing) True) w
               in case write_error r of None \<Rightarrow> (Inr (), w) | Some e \<Rightarrow> (Inl (ApiError e), w))"

fun delete_managed_routes :: "server \<Rightarrow> ingress \<Rightarrow> http_route list \<Rightarrow> world \<Rightarrow> unit go_result \<times> world" where
  "delete_managed_routes srv ing [] w = (Inr (), w)"
| "delete_managed_routes srv ing (route # routes) w =
     (if \<not> IsManagedByUsForIngress (hr_annotations route) (i_namespace ing) (i_name ing)
      then delete_managed_routes srv ing routes w
      else let (r, w) = do_call srv (Delete KRoute (hr_namespace route) (hr_name route) False) w
           in case write_error r of
                Some e \<Rightarrow> (Inl (ApiError e), w)
              | None \<Rightarrow> delete_managed_routes srv ing routes w)"

definition removeManagedHTTPRoutes :: "server \<Rightarrow> ingress \<Rightarrow> world \<Rightarrow> unit go_result \<times> world" where
  "removeManagedHTTPRoutes srv ing w =
     (case GetHTTPRoutesWithPrefix srv (i_namespace ing) (i_name ing) w of
        (Inl e, w) \<Rightarrow> (Inl (ApiError e), w)
      | (Inr routes, w) \<Rightarrow> delete_managed_routes srv ing routes w)"

fun delete_empty_gateways ::
  "server \<Rightarrow> ingress \<Rightarrow> http_route list \<Rightarrow> gateway list \<Rightarrow> world \<Rightarrow> unit go_result \<times> world" where
  "delete_empty_gateways srv ing allRoutes [] w = (Inr (), w)"
| "delete_empty_gateways srv ing allRoutes (g # gs) w =
     (if \<not> IsManagedByUsWithIngress (gw_annotations g) (i_namespace ing) (i_name ing)
      then delete_empty_gateways srv ing allRoutes gs w
      else if parent_count allRoutes (source_key (m_namespace (gw_meta g)) (m_name (gw_meta g))) > 0
      then delete_empty_gateways srv ing allRoutes gs w
      else let (r, w) = do_call srv (Delete KGateway (m_namespace (gw_meta g)) (m_name (gw_meta g)) False) w
           in case write_error r of
                Some e \<Rightarrow> (Inl (ApiError e), w)
              | None \<Rightarrow> delete_empty_gateways srv ing allRoutes gs w)"

definition removeManagedGatewaysIfEmpty :: "server \<Rightarrow> ingress \<Rightarrow> world \<Rightarrow> unit go_result \<times> world" where
  "removeManagedGatewaysIfEmpty srv ing w =
     (let (r, w) = do_call srv (ListAll KRoute []) w
      in case decode_list as_route r of
           Inl e \<Rightarrow> (Inl (ApiError e), w)
         | Inr allRoutes \<Rightarrow>
             (case list_gateways srv w of
                (Inl e, w) \<Rightarrow> (Inl (ApiError e), w)
              | (Inr gateways, w) \<Rightarrow> delete_empty_gateways srv ing allRoutes gateways w))"

definition removeAutomaticSnippetsFilter :: "server \<Rightarrow> ingress \<Rightarrow> world \<Rightarrow> unit go_result \<times> world" where
  "removeAutomaticSnippetsFilter srv ing w =
     (let filterName = AutomaticSnippetsFilterName (i_name ing)
      in case GetCRDVersion srv SnippetsFilterCRDName w of
           (Inl e, w) \<Rightarrow> (Inl (ApiError e), w)
         | (Inr None, w) \<Rightarrow> (Inr (), w)
         | (Inr (Some version), w) \<Rightarrow>
             let k = KUnstructured version SnippetsFilterKind;
                 (r, w) = do_call srv (Get k (i_namespace ing) filterName) w
             in case decode as_unstructured r of
                  Inl e \<Rightarrow> (if e = NotFound then Inr () else Inl (ApiError e), w)
                | Inr filt \<Rightarrow>
                    if \<not> IsManagedByUs (u_annotations filt) then (Inr (), w)
                    else let (r, w) = do_call srv (Delete k (m_namespace (u_meta filt)) (m_name (u_meta filt)) False) w
                         in case write_error r of None \<Rightarrow> (Inr (), w) | Some e \<Rightarrow> (Inl (ApiError e), w))"

text \<open>The third component of the Go function, a warning, is only logged.\<close>

definition applyExternalDNSDisableAnnotations :: "string gomap \<Rightarrow> string \<Rightarrow> string \<Rightarrow> string gomap \<times> bool" where
  "applyExternalDNSDisableAnnotations a sourceKey originalSourceKey =
     (let prevSource = mget a sourceKey; hadSource = mhas a sourceKey;
          changed = (prevSource \<noteq> ExternalDNSHostnameSourceAnnotationOnly);
          a = (if changed then mset_key sourceKey ExternalDNSHostnameSourceAnnotationOnly a else a);
          hostname = mget a ExternalDNSHostnameAnnotation;
          a = (if changed \<and> hostname \<noteq> [] then save_original OriginalExternalDNSHostname hostname a else a);
          a = (if changed \<and> hadSource then save_original originalSourceKey prevSource a else a)
      in (a, changed))"

definition derived_route :: "http_route \<Rightarrow> http_route \<times> bool" where
  "derived_route route =
     (let (a, modified) = applyExternalDNSDisableAnnotations (hr_annotations route)
            ExternalDNSGatewayHostnameSource OriginalExternalDNSGatewayHostnameSource;
          mark = (mget a IngressDisabledAnnotation = []);
          a = (if mark then mset_key IngressDisabledAnnotation IngressDisabledReasonExternalDNS a else a)
      in (route\<lparr>hr_meta := (hr_meta route)\<lparr>m_annotations := a\<rparr>\<rparr>, modified \<or> mark))"

text \<open>Answers the routes that were written.\<close>

fun update_derived_routes :: "server \<Rightarrow> http_route list \<Rightarrow> world \<Rightarrow> http_route list go_result \<times> world" where
  "update_derived_routes srv [] w = (Inr [], w)"
| "update_derived_routes srv (route # routes) w =
     (let (updated, modified) = derived_route route
      in if \<not> modified then update_derived_routes srv routes w
         else let (r, w) = do_call srv (Update (ORoute updated)) w
              in case write_error r of
                   Some e \<Rightarrow> (Inl (ApiError e), w)
                 | None \<Rightarrow>
                     (case update_derived_routes srv routes w of
                        (Inl e, w) \<Rightarrow> (Inl e, w)
                      | (Inr rest, w) \<Rightarrow> (Inr (updated # rest), w)))"

fun update_derived_gateways ::
  "server \<Rightarrow> ingress \<Rightarrow> http_route list \<Rightarrow> http_route list \<Rightarrow> gateway list \<Rightarrow> world \<Rightarrow> unit go_result \<times> world" where
  "update_derived_gateways srv ing allRoutes updatedRoutes [] w = (Inr (), w)"
| "update_derived_gateways srv ing allRoutes updatedRoutes (g # gs) w =
     (if \<not> IsManagedByUsWithIngress (gw_annotations g) (i_namespace ing) (i_name ing)
      then update_derived_gateways srv ing allRoutes updatedRoutes gs w
      else let key = source_key (m_namespace (gw_meta g)) (m_name (gw_meta g));
               totals = parent_count allRoutes key;
               managed = parent_count (filter (\<lambda>r. IsManagedByUs (hr_annotations r)) allRoutes) key
           in if totals = 0 \<or> parent_count updatedRoutes key \<noteq> totals \<or> managed \<noteq> totals
              then update_derived_gateways srv ing allRoutes updatedRoutes gs w
              else let (a, modified) = applyExternalDNSDisableAnnotations (gw_annotations g)
                         ExternalDNSGatewayHostnameSource OriginalExternalDNSGatewayHostnameSource
                   in if \<not> modified then update_derived_gateways srv ing allRoutes updatedRoutes gs w
                      else let (r, w) = do_call srv (Update (OGateway (g\<lparr>gw_meta := (gw_meta g)\<lparr>m_annotations := a\<rparr>\<rparr>))) w
                           in case write_error r of
                                Some e \<Rightarrow> (Inl (ApiError e), w)
                              | None \<Rightarrow> update_derived_gateways srv ing allRoutes updatedRoutes gs w)"

definition disableExternalDNSForDerived :: "server \<Rightarrow> ingress \<Rightarrow> world \<Rightarrow> unit go_result \<times> world" where
  "disableExternalDNSForDerived srv ing w =
     (case GetHTTPRoutesWithPrefix srv (i_namespace ing) (i_name ing) w of
        (Inl e, w) \<Rightarrow> (Inl (ApiError e), w)
      | (Inr routes, w) \<Rightarrow>
          let managedRoutes = filter (\<lambda>r. isManagedByUsForIngressWithReason r (i_namespace ing) (i_name ing)) routes;
              (r, w) = do_call srv (ListAll KRoute []) w
          in case decode_list as_route r of
               Inl e \<Rightarrow> (Inl (ApiError e), w)
             | Inr allRoutes \<Rightarrow>
                 if managedRoutes = []
                 then (Inl (Message ''missing managed derived resources (httproutes=0)''), w)
                 else (case update_derived_routes srv managedRoutes w of
                         (Inl e, w) \<Rightarrow> (Inl e, w)
                       | (Inr updatedRoutes, w) \<Rightarrow>
                           (case list_gateways srv w of
                              (Inl e, w) \<Rightarrow> (Inl (ApiError e), w)
                            | (Inr gateways, w) \<Rightarrow>
                                update_derived_gateways srv ing allRoutes updatedRoutes gateways w)))"

section \<open>One Ingress, and the whole run\<close>

text \<open>Two operations in a row, the second only after the first succeeded.\<close>

definition and_then ::
  "unit go_result \<times> world \<Rightarrow> (world \<Rightarrow> unit go_result \<times> world) \<Rightarrow> unit go_result \<times> world" where
  "and_then p f = (case p of (Inl e, w) \<Rightarrow> (Inl e, w) | (Inr _, w) \<Rightarrow> f w)"

text \<open>The guarded first step: a failure to update the derived resources is only logged.\<close>

definition derived_step :: "server \<Rightarrow> reenabler_options \<Rightarrow> ingress \<Rightarrow> world \<Rightarrow> unit go_result \<times> world" where
  "derived_step srv opts ing w =
     (if \<not> o_restoreExternalDNS opts then (Inr (), w)
      else case hasManagedResources srv ing w of
             (Inl e, w) \<Rightarrow> (Inl (ApiError e), w)
           | (Inr (hasRoute, _), w) \<Rightarrow>
               if hasRoute then (Inr (), snd (disableExternalDNSForDerived srv ing w)) else (Inr (), w))"

definition processIngress :: "server \<Rightarrow> reenabler_options \<Rightarrow> ingress \<Rightarrow> world \<Rightarrow> unit go_result \<times> world" where
  "processIngress srv opts ing w =
     (let disabled = isDisabledIngress ing;
          anyRestore = (o_restoreClass opts \<or> o_restoreExternalDNS opts)
      in and_then (derived_step srv opts ing w) (\<lambda>w.
         if o_dangerouslyDeleteIngresses opts \<and> shouldDeleteIngress ing
         then deleteIngressIfEligible srv ing w
         else if \<not> shouldRestoreIngress ing disabled (o_restoreExternalDNS opts) then (Inr (), w)
         else and_then (restoreIngressState srv ing (disabled \<and> o_restoreClass opts) (o_restoreExternalDNS opts) w) (\<lambda>w.
              and_then (if o_preventFurtherReconciliation opts \<and> anyRestore
                        then markIngressDisabled srv ing (o_restoreClass opts) w else (Inr (), w)) (\<lambda>w.
              and_then (if o_markIgnoreIngress opts \<and> anyRestore
                        then markIngressIgnored srv ing w else (Inr (), w)) (\<lambda>w.
              if disabled \<and> o_restoreClass opts \<and> o_removeDerivedResources opts
              then and_then (removeManagedHTTPRoutes srv ing w) (\<lambda>w.
                   and_then (removeAutomaticSnippetsFilter srv ing w) (\<lambda>w.
                   removeManagedGatewaysIfEmpty srv ing w))
              else (Inr (), w))))))"

text \<open>Every Ingress is processed; the errors are counted and the last one is kept.\<close>

fun process_all ::
  "server \<Rightarrow> reenabler_options \<Rightarrow> ingress list \<Rightarrow> nat \<Rightarrow> go_error option \<Rightarrow> world \<Rightarrow> (nat \<times> go_error option) \<times> world" where
  "process_all srv opts [] errCount lastErr w = ((errCount, lastErr), w)"
| "process_all srv opts (ing # ings) errCount lastErr w =
     (case processIngress srv opts ing w of
        (Inl e, w) \<Rightarrow> process_all srv opts ings (errCount + 1) (Some e) w
      | (Inr _, w) \<Rightarrow> process_all srv opts ings errCount lastErr w)"

definition runReenabler ::
  "server \<Rightarrow> string \<Rightarrow> string \<Rightarrow> reenabler_options \<Rightarrow> world \<Rightarrow> unit go_result \<times> world" where
  "runReenabler srv namespace ingressNamePattern opts w =
     (case listIngresses srv namespace ingressNamePattern w of
        (Inl e, w) \<Rightarrow> (Inl e, w)
      | (Inr ings, w) \<Rightarrow>
          and_then (if o_dangerouslyDeleteIngresses opts then preflightDelete srv ings w else (Inr (), w)) (\<lambda>w.
          case process_all srv opts ings 0 None w of
            ((errCount, lastErr), w) \<Rightarrow>
              (case lastErr of
                 Some e \<Rightarrow> if errCount > 0
                   then (Inl (Wrapped (''reenabler completed with '' @ show_int (int errCount) @ '' errors'') e), w)
                   else (Inr (), w)
               | None \<Rightarrow> (Inr (), w))))"

text \<open>The program after \<open>flag.Parse\<close>; \<open>None\<close> is a cluster for which no client can be made.\<close>

definition reenabler_main ::
  "server option \<Rightarrow> string \<Rightarrow> string \<Rightarrow> reenabler_flags \<Rightarrow> world \<Rightarrow> unit go_result \<times> world" where
  "reenabler_main cli namespace ingressNamePattern flags w =
     (case resolve_flags flags of
        Inl e \<Rightarrow> (Inl (Wrapped e (Message ''invalid flag combination'')), w)
      | Inr opts \<Rightarrow>
          (case cli of
             None \<Rightarrow> (Inl (Message ''unable to create Kubernetes client''), w)
           | Some srv \<Rightarrow> runReenabler srv namespace ingressNamePattern opts w))"

section \<open>Lemmas\<close>

text \<open>A flag reads back what it prints.\<close>

lemma trackedBool_roundtrip: "trackedBool_Set (trackedBool_String b) b = (True, b\<lparr>tb_set := True\<rparr>)"
  by (cases "tb_value b") (simp_all add: trackedBool_Set_def trackedBool_String_def FormatBool_def ParseBool_def)

text \<open>Against a store that keeps its writes the first round of a retry loop succeeds.\<close>

lemma update_retry_mem:
  assumes cur: "stored_in init w KIngress (i_namespace ing) (i_name ing) = Some (OIngress cur)"
    and mut: "mutate cur = (new, m)" and key: "i_namespace new = i_namespace cur" "i_name new = i_name cur"
  shows "\<exists>w'. updateIngressWithRetry (mem_server init) ing mutate w = (Inr (), w') \<and>
    stored_in init w' KIngress (i_namespace ing) (i_name ing) = Some (OIngress (if m then new else cur))"
proof -
  have here: "i_namespace cur = i_namespace ing" "i_name cur = i_name ing" using stored_is [OF cur] by auto
  let ?w = "w\<lparr>w_log := Get KIngress (i_namespace ing) (i_name ing) # w_log w\<rparr>"
  have "list_ex (same_obj (OIngress new)) (store_of init (w_log ?w))"
    using cur key here by (simp add: list_ex_same_obj)
  then show ?thesis
    using cur mut key here
    by (auto simp: updateIngressWithRetry_def numeral_3_eq_3 do_call_def decode_def write_error_def Let_def stored_Update)
qed

lemma ensureDisabledIngressClass_mem:
  "\<exists>w'. ensureDisabledIngressClass (mem_server init) w = (Inr (), w') \<and>
     (\<forall>ns n. stored_in init w' KIngress ns n = stored_in init w KIngress ns n)"
proof (cases "stored_in init w KIngressClass [] DisabledIngressClassName")
  case None
  then show ?thesis
    by (auto simp: ensureDisabledIngressClass_def do_call_def decode_def write_error_def Let_def
        list_ex_same_obj stored_Create obj_is_def)
next
  case (Some x)
  then obtain c where "x = OIngressClass c" using stored_is [OF Some] by (cases x) (auto simp: obj_is_def)
  with Some show ?thesis
    by (auto simp: ensureDisabledIngressClass_def do_call_def decode_def Let_def)
qed

lemma disabled_ingress_key [simp]:
  "i_namespace (fst (disabled_ingress ing)) = i_namespace ing" "i_name (fst (disabled_ingress ing)) = i_name ing"
  by (simp_all add: disabled_ingress_def Let_def with_annotations_def)

lemma disableIngress_mem:
  assumes cur: "stored_in init w KIngress (i_namespace ing) (i_name ing) = Some (OIngress ing)"
    and mark: "mget (i_annotations ing) IngressDisabledAnnotation \<noteq> IngressDisabledReasonNormal"
    and mod: "disabled_ingress ing = (ing', True)"
  shows "\<exists>w'. disableIngress (mem_server init) False ing w = (Inr (), ing', w') \<and>
    stored_in init w' KIngress (i_namespace ing) (i_name ing) = Some (OIngress ing')"
proof -
  obtain w1 where w1: "ensureDisabledIngressClass (mem_server init) w = (Inr (), w1)"
    "\<And>ns n. stored_in init w1 KIngress ns n = stored_in init w KIngress ns n"
    using ensureDisabledIngressClass_mem by blast
  have key: "i_namespace ing' = i_namespace ing" "i_name ing' = i_name ing"
    using disabled_ingress_key [of ing] mod by simp_all
  have "list_ex (same_obj (OIngress ing')) (store_of init (w_log w1))"
    using cur key w1(2) by (simp add: list_ex_same_obj)
  then show ?thesis
    using mark mod w1(1) key
    by (auto simp: disableIngress_def do_call_def write_error_def after_write_def Let_def stored_Update)
qed

text \<open>What disabling saves, restoring puts back.\<close>

lemma annotation_keys_distinct:
  "distinct [IngressDisabledAnnotation, OriginalIngressClassAnnotation, OriginalIngressClassNameAnnotation,
     IngressClassAnnotation, ExternalDNSIngressHostnameSource, ExternalDNSHostnameAnnotation,
     OriginalExternalDNSHostname, OriginalExternalDNSIngressHostnameSource]"
  by (simp add: key_defs)

lemmas keys_neq [simp] = annotation_keys_distinct [simplified]
  annotation_keys_distinct [folded distinct_rev [of "[IngressDisabledAnnotation, OriginalIngressClassAnnotation,
     OriginalIngressClassNameAnnotation, IngressClassAnnotation, ExternalDNSIngressHostnameSource,
     ExternalDNSHostnameAnnotation, OriginalExternalDNSHostname, OriginalExternalDNSIngressHostnameSource]"], simplified]

definition unsaved_class :: "ingress \<Rightarrow> bool" where
  "unsaved_class ing \<longleftrightarrow> i_ingressClassName ing \<notin> {Some [], Some ''true''} \<and>
     map_of (i_annotations ing) IngressClassAnnotation \<noteq> Some [] \<and>
     (\<forall>k \<in> {IngressDisabledAnnotation, OriginalIngressClassAnnotation, OriginalIngressClassNameAnnotation}.
        map_of (i_annotations ing) k = None)"

lemma save_class_name_map:
  "unsaved_class ing \<Longrightarrow>
   map_of (save_class_name ing) = (map_of (i_annotations ing))(OriginalIngressClassNameAnnotation := i_ingressClassName ing)"
  by (auto simp: unsaved_class_def save_class_name_def save_original_def mhas_def fun_eq_iff split: option.split)

lemma save_class_annotation_map:
  assumes "map_of a IngressClassAnnotation \<noteq> Some []" "map_of a OriginalIngressClassAnnotation = None"
  shows "map_of (save_class_annotation a) = (map_of a)(OriginalIngressClassAnnotation := map_of a IngressClassAnnotation)"
  using assms by (auto simp: save_class_annotation_def save_original_def mhas_def mget_def fun_eq_iff split: option.splits)

lemma disabled_ingress_map:
  assumes u: "unsaved_class ing" and m: "disabled_ingress ing = (ing', True)"
  shows "map_of (i_annotations ing') = (map_of (i_annotations ing))
     (OriginalIngressClassNameAnnotation := i_ingressClassName ing,
      OriginalIngressClassAnnotation := map_of (i_annotations ing) IngressClassAnnotation,
      IngressClassAnnotation \<mapsto> DisabledIngressClassName,
      IngressDisabledAnnotation \<mapsto> IngressDisabledReasonNormal)"
proof -
  let ?a = "save_class_annotation (save_class_name ing)"
  have a: "map_of ?a = (map_of (i_annotations ing))(OriginalIngressClassNameAnnotation := i_ingressClassName ing,
      OriginalIngressClassAnnotation := map_of (i_annotations ing) IngressClassAnnotation)"
    using u by (subst save_class_annotation_map) (auto simp: save_class_name_map unsaved_class_def)
  have "mget ?a IngressClassAnnotation = DisabledIngressClassName \<Longrightarrow> map_of ?a IngressClassAnnotation = Some DisabledIngressClassName"
    by (auto simp: mget_def split: option.splits)
  then have "map_of (i_annotations ing') = (map_of ?a)(IngressClassAnnotation \<mapsto> DisabledIngressClassName,
      IngressDisabledAnnotation \<mapsto> IngressDisabledReasonNormal)"
    using m by (auto simp: disabled_ingress_def Let_def fun_eq_iff split: if_splits)
  then show ?thesis unfolding a .
qed

lemma restore_class_annotations_map:
  "map_of (restore_class_annotations a) = (map_of a)
     (IngressClassAnnotation := (if mget a OriginalIngressClassAnnotation \<noteq> []
        then Some (mget a OriginalIngressClassAnnotation) else None),
      IngressDisabledAnnotation := None, OriginalIngressClassNameAnnotation := None,
      OriginalIngressClassAnnotation := None)"
  by (simp add: restore_class_annotations_def)

lemma class_restored:
  assumes u: "unsaved_class ing" and m: "disabled_ingress ing = (ing', True)"
  shows "map_of (i_annotations (restore_class ing')) = map_of (i_annotations ing)"
    and "with_annotations (i_annotations ing) (restore_class ing') = ing"
proof -
  note map = disabled_ingress_map [OF u m]
  have nonempty: "map_of (i_annotations ing) IngressClassAnnotation \<noteq> Some []" "i_ingressClassName ing \<noteq> Some []"
    using u by (simp_all add: unsaved_class_def)
  have saved: "mget (i_annotations ing') OriginalIngressClassAnnotation = (case map_of (i_annotations ing) IngressClassAnnotation of None \<Rightarrow> [] | Some c \<Rightarrow> c)"
    "mget (i_annotations ing') OriginalIngressClassNameAnnotation = (case i_ingressClassName ing of None \<Rightarrow> [] | Some c \<Rightarrow> c)"
    by (simp_all add: mget_def map)
  have "map_of (restore_class_annotations (i_annotations ing')) = map_of (i_annotations ing)"
    unfolding restore_class_annotations_map saved map using nonempty u
    by (auto simp: fun_eq_iff unsaved_class_def split: option.splits)
  then show "map_of (i_annotations (restore_class ing')) = map_of (i_annotations ing)"
    by (simp add: restore_class_def Let_def)
  obtain a where "ing' = with_annotations a (ing\<lparr>i_ingressClassName := Some DisabledIngressClassName\<rparr>)"
    using m by (auto simp: disabled_ingress_def Let_def)
  then have "with_annotations (i_annotations ing) (ing'\<lparr>i_ingressClassName := c\<rparr>) = ing\<lparr>i_ingressClassName := c\<rparr>" for c
    by (simp add: with_annotations_def)
  then show "with_annotations (i_annotations ing) (restore_class ing') = ing"
    using nonempty by (auto simp: restore_class_def Let_def saved with_annotations_def split: option.splits)
qed

text \<open>The same for external-dns.\<close>

definition unsaved_dns :: "string gomap \<Rightarrow> bool" where
  "unsaved_dns a \<longleftrightarrow>
     map_of a ExternalDNSIngressHostnameSource \<notin> {Some [], Some ExternalDNSHostnameSourceAnnotationOnly} \<and>
     (\<forall>k \<in> {IngressDisabledAnnotation, OriginalExternalDNSHostname, OriginalExternalDNSIngressHostnameSource}. map_of a k = None)"

lemma external_dns_map:
  assumes "unsaved_dns a"
  shows "map_of (fst (external_dns_annotations a)) = (map_of a)
     (OriginalExternalDNSHostname := (if mget a ExternalDNSHostnameAnnotation = [] then None else Some (mget a ExternalDNSHostnameAnnotation)),
      OriginalExternalDNSIngressHostnameSource := map_of a ExternalDNSIngressHostnameSource,
      IngressDisabledAnnotation \<mapsto> IngressDisabledReasonExternalDNS,
      ExternalDNSIngressHostnameSource \<mapsto> ExternalDNSHostnameSourceAnnotationOnly)"
    and "snd (external_dns_annotations a)"
proof -
  have src: "map_of a ExternalDNSIngressHostnameSource = (if mhas a ExternalDNSIngressHostnameSource
      then Some (mget a ExternalDNSIngressHostnameSource) else None)"
    "mget a ExternalDNSIngressHostnameSource \<noteq> ExternalDNSHostnameSourceAnnotationOnly"
    "\<not> mhas a ExternalDNSIngressHostnameSource \<Longrightarrow> mget a ExternalDNSIngressHostnameSource = []"
    using assms by (auto simp: unsaved_dns_def mhas_def mget_def split: option.splits)
  have none: "\<not> mhas a OriginalExternalDNSHostname" "\<not> mhas a OriginalExternalDNSIngressHostnameSource"
    "mget a IngressDisabledAnnotation = []"
    "map_of a OriginalExternalDNSHostname = None" "map_of a OriginalExternalDNSIngressHostnameSource = None"
    using assms by (simp_all add: unsaved_dns_def mhas_def mget_def)
  show "map_of (fst (external_dns_annotations a)) = (map_of a)
     (OriginalExternalDNSHostname := (if mget a ExternalDNSHostnameAnnotation = [] then None else Some (mget a ExternalDNSHostnameAnnotation)),
      OriginalExternalDNSIngressHostnameSource := map_of a ExternalDNSIngressHostnameSource,
      IngressDisabledAnnotation \<mapsto> IngressDisabledReasonExternalDNS,
      ExternalDNSIngressHostnameSource \<mapsto> ExternalDNSHostnameSourceAnnotationOnly)"
    using src none by (simp add: external_dns_annotations_def Let_def fun_eq_iff)
  show "snd (external_dns_annotations a)"
    using src none by (simp add: external_dns_annotations_def Let_def)
qed

lemma restore_key_map:
  "k \<noteq> s \<Longrightarrow> map_of (restore_key k s a) = (map_of a)(k := (if mget a s \<noteq> [] then Some (mget a s) else None), s := None)"
  by (simp add: restore_key_def Let_def)

lemma dns_restored:
  assumes u: "unsaved_dns a"
  defines "a1 \<equiv> fst (external_dns_annotations a)"
  shows "map_of (fst (restore_external_dns a1)) = map_of a" and "snd (restore_external_dns a1)"
proof -
  note map = external_dns_map(1) [OF u, folded a1_def]
  define h s where "h = mget a ExternalDNSHostnameAnnotation" and "s = map_of a ExternalDNSIngressHostnameSource"
  have none: "map_of a OriginalExternalDNSHostname = None" "map_of a OriginalExternalDNSIngressHostnameSource = None"
    "map_of a IngressDisabledAnnotation = None" "s \<noteq> Some []"
    using u by (auto simp: unsaved_dns_def s_def)
  have hm: "h \<noteq> [] \<Longrightarrow> map_of a ExternalDNSHostnameAnnotation = Some h"
    by (auto simp: h_def mget_def split: option.splits)
  define a2 where "a2 = (if mhas a1 OriginalExternalDNSHostname
      then restore_key ExternalDNSHostnameAnnotation OriginalExternalDNSHostname a1 else a1)"
  have a2: "map_of a2 = (map_of a)(OriginalExternalDNSIngressHostnameSource := s,
      IngressDisabledAnnotation \<mapsto> IngressDisabledReasonExternalDNS,
      ExternalDNSIngressHostnameSource \<mapsto> ExternalDNSHostnameSourceAnnotationOnly)"
    using none hm by (auto simp: a2_def restore_key_map mhas_def mget_def map h_def [symmetric] s_def [symmetric] fun_eq_iff
        split: option.splits)
  define a3 where "a3 = (if mhas a2 OriginalExternalDNSIngressHostnameSource
      then restore_key ExternalDNSIngressHostnameSource OriginalExternalDNSIngressHostnameSource a2
      else mdel_key ExternalDNSIngressHostnameSource a2)"
  have a3: "map_of a3 = (map_of a)(IngressDisabledAnnotation \<mapsto> IngressDisabledReasonExternalDNS)"
    using none by (cases s) (auto simp: a3_def restore_key_map mhas_def mget_def a2 s_def fun_eq_iff)
  have "mhas a2 ExternalDNSIngressHostnameSource" "mget a3 IngressDisabledAnnotation = IngressDisabledReasonExternalDNS"
    by (simp_all add: mhas_def mget_def a2 a3)
  then have "restore_external_dns a1 = (mdel_key IngressDisabledAnnotation a3, True)"
    by (auto simp: restore_external_dns_def Let_def a2_def [symmetric] a3_def split: if_splits)
  then show "map_of (fst (restore_external_dns a1)) = map_of a" "snd (restore_external_dns a1)"
    using none by (auto simp: a3 fun_eq_iff)
qed

section \<open>Properties\<close>



text \<open>
  C34. Taking an Ingress away from external-dns and restoring it is the identity on its
  annotations, against a store that keeps its writes, provided no saved value is left from
  before and the hostname source was not already empty or annotation-only: that value is not
  saved, so it would be lost.
\<close>

theorem external_dns_roundtrip:
  assumes "stored_in init w KIngress (i_namespace ing) (i_name ing) = Some (OIngress ing)"
    and "unsaved_dns (i_annotations ing)"
  shows "\<exists>w1 ing1 w2 ing2. disableExternalDNS (mem_server init) ing w = (Inr (), w1) \<and>
     stored_in init w1 KIngress (i_namespace ing) (i_name ing) = Some (OIngress ing1) \<and>
     mget (i_annotations ing1) ExternalDNSIngressHostnameSource = ExternalDNSHostnameSourceAnnotationOnly \<and>
     shouldRestoreIngress ing1 (isDisabledIngress ing1) True \<and>
     restoreIngressState (mem_server init) ing1 False True w1 = (Inr (), w2) \<and>
     stored_in init w2 KIngress (i_namespace ing) (i_name ing) = Some (OIngress ing2) \<and>
     map_of (i_annotations ing2) = map_of (i_annotations ing) \<and> with_annotations (i_annotations ing) ing2 = ing"
proof -
  note map = external_dns_map [OF assms(2)] and undo = dns_restored [OF assms(2)]
  define a1 where "a1 = fst (external_dns_annotations (i_annotations ing))"
  have a1: "external_dns_annotations (i_annotations ing) = (a1, True)"
    using map(2) by (simp add: a1_def prod_eq_iff)
  define ing1 where "ing1 = with_annotations a1 ing"
  have ann: "i_annotations ing1 = a1" "i_namespace ing1 = i_namespace ing" "i_name ing1 = i_name ing"
    by (simp_all add: ing1_def)
  have "list_ex (same_obj (OIngress ing1)) (store_of init (w_log w))"
    using assms(1) ann by (simp add: list_ex_same_obj)
  then obtain w1 where w1: "disableExternalDNS (mem_server init) ing w = (Inr (), w1)"
    "stored_in init w1 KIngress (i_namespace ing) (i_name ing) = Some (OIngress ing1)"
    using assms(1) a1 ann
    by (auto simp: disableExternalDNS_def do_call_def decode_def write_error_def Let_def stored_Update ing1_def)
  define ing2 where "ing2 = with_annotations (fst (restore_external_dns a1)) ing1"
  have "restored_ingress False True ing1 = (ing2, True)"
    using undo(2) ann by (simp add: restored_ingress_def ing2_def a1_def case_prod_beta Let_def)
  then obtain w2 where w2: "restoreIngressState (mem_server init) ing1 False True w1 = (Inr (), w2)"
    "stored_in init w2 KIngress (i_namespace ing) (i_name ing) = Some (OIngress ing2)"
    using update_retry_mem [of init w1 ing1 ing1 "restored_ingress False True" ing2 True] w1(2) ann
    by (auto simp: restoreIngressState_def ing2_def)
  have "mget a1 IngressDisabledAnnotation = IngressDisabledReasonExternalDNS"
    "mget a1 ExternalDNSIngressHostnameSource = ExternalDNSHostnameSourceAnnotationOnly"
    by (simp_all add: mget_def map(1) a1_def)
  moreover have "map_of (i_annotations ing2) = map_of (i_annotations ing)"
    using undo(1) by (simp add: ing2_def a1_def)
  moreover have "with_annotations (i_annotations ing) ing2 = ing"
    by (simp add: ing2_def ing1_def with_annotations_def)
  ultimately show ?thesis
    using w1 w2 ann
    by (intro exI [of _ w1] exI [of _ ing1] exI [of _ w2] exI [of _ ing2]) (simp add: shouldRestoreIngress_def)
qed

theorem external_dns_roundtrip_witness:
  "\<exists>w1 ing1. disableExternalDNS (mem_server [OIngress example_ingress]) example_ingress empty_world = (Inr (), w1) \<and>
     stored_in [OIngress example_ingress] w1 KIngress ''shop'' ''prod'' = Some (OIngress ing1)"
proof -
  have "i_namespace example_ingress = ''shop''" "i_name example_ingress = ''prod''" "i_annotations example_ingress = []"
    by (simp_all add: example_ingress_def empty_meta_def)
  then show ?thesis
    using external_dns_roundtrip [of "[OIngress example_ingress]" empty_world example_ingress]
    by (auto simp: stored_def empty_world_def unsaved_dns_def)
qed

text \<open>The part of the log a run adds.\<close>

definition reads_only :: "world \<Rightarrow> world \<Rightarrow> bool" where
  "reads_only w w' \<longleftrightarrow> (\<exists>cs. w_log w' = cs @ w_log w \<and> (\<forall>c \<in> set cs. \<not> is_write c))"

lemma reads_only_refl [simp]: "reads_only w w"
  by (simp add: reads_only_def)

lemma reads_only_trans [trans]: "reads_only w1 w2 \<Longrightarrow> reads_only w2 w3 \<Longrightarrow> reads_only w1 w3"
  by (auto simp: reads_only_def)

lemma reads_only_call [simp]: "\<not> is_write c \<Longrightarrow> reads_only w (snd (do_call srv c w))"
  by (auto simp: reads_only_def intro!: exI [of _ "[c]"])

text \<open>With both kinds of restoring off and no deletion, an Ingress is at most read.\<close>

lemma processIngress_idle:
  assumes "\<not> o_restoreClass opts" "\<not> o_restoreExternalDNS opts" "\<not> o_dangerouslyDeleteIngresses opts"
  shows "reads_only w (snd (processIngress srv opts ing w))"
proof -
  have "restored_ingress False False x = (x, False)" for x
    by (simp add: restored_ingress_def with_annotations_def)
  then have "reads_only w (snd (restoreIngressState srv ing False False w))"
    using reads_only_call [of "Get KIngress (i_namespace ing) (i_name ing)" w srv]
    by (simp add: restoreIngressState_def updateIngressWithRetry_def numeral_3_eq_3 case_prod_beta Let_def split: sum.split)
  moreover have "processIngress srv opts ing w =
      (if isDisabledIngress ing then and_then (restoreIngressState srv ing False False w) (\<lambda>w. (Inr (), w)) else (Inr (), w))"
    using assms
    by (simp add: processIngress_def derived_step_def and_then_def shouldRestoreIngress_def Let_def)
  moreover have "snd (and_then p (\<lambda>w. (Inr (), w))) = snd p" for p :: "unit go_result \<times> world"
    by (simp add: and_then_def split: prod.split sum.split)
  ultimately show ?thesis by simp
qed

lemma process_all_idle:
  assumes "\<not> o_restoreClass opts" "\<not> o_restoreExternalDNS opts" "\<not> o_dangerouslyDeleteIngresses opts"
  shows "reads_only w (snd (process_all srv opts ings n e w))"
proof (induction ings arbitrary: n e w)
  case (Cons ing ings)
  show ?case
    using processIngress_idle [OF assms, of w srv ing] Cons.IH
    by (auto split: prod.split sum.split intro: reads_only_trans)
qed simp

lemma runReenabler_idle:
  assumes off: "\<not> o_restoreClass opts" "\<not> o_restoreExternalDNS opts" "\<not> o_dangerouslyDeleteIngresses opts"
  shows "reads_only w (snd (runReenabler srv namespace pattern opts w))"
proof -
  obtain r w1 where l: "listIngresses srv namespace pattern w = (r, w1)" by (cases "listIngresses srv namespace pattern w")
  have w1: "reads_only w w1"
    using l reads_only_call [of "ListAll KIngress namespace" w srv]
    by (auto simp: listIngresses_def case_prod_beta Let_def split: sum.splits if_splits)
  show ?thesis
  proof (cases r)
    case (Inr ings)
    obtain n e w2 where p: "process_all srv opts ings 0 None w1 = ((n, e), w2)"
      by (metis prod.collapse)
    then have "reads_only w1 w2" using process_all_idle [OF off, of w1 srv ings 0 None] by simp
    then have "reads_only w w2" by (rule reads_only_trans [OF w1])
    then show ?thesis
      using l Inr off p by (simp add: runReenabler_def and_then_def split: option.split)
  qed (use l w1 in \<open>simp add: runReenabler_def\<close>)
qed



end
