(* ===== verification/Spec2Isabelle.thy ===== *)
theory Spec2Isabelle
  imports System Route_Types Counters Error_Log Snippet_Conflicts Startup_Properties Reenabler
begin

text \<open>
  A model of ingress-doperator, the operator that translates Kubernetes Ingresses into Gateways
  and HTTPRoutes of the Gateway API, and theorems about it.

  \<^bold>\<open>The program.\<close> The operator (\<open>cmd/operator\<close>) runs two controllers over one cluster. The Ingress
  controller (\<open>internal/controller/ingress_controller.go\<close>) turns each Ingress it is responsible for
  into HTTPRoutes, adds the filters its annotations and the flags ask for, makes sure the Gateway
  of its class has listeners for its hostnames, and then leaves, disables or removes the Ingress.
  The HTTPRoute controller (\<open>httproute_controller.go\<close>) watches the routes and, debounced per Gateway,
  brings the listeners of the Gateway to what the live routes ask for; it also keeps the
  ReferenceGrants through which a Gateway may read the certificates of other namespaces. The
  webhook (\<open>cmd/webhook\<close>, \<open>internal/webhook\<close>) does a translation of its own when an Ingress is
  admitted. The reenabler (\<open>cmd/reenabler\<close>) is a command that undoes what the operator did to
  Ingresses. All of them use the translator (\<open>internal/translator\<close>) and helpers
  (\<open>internal/utils\<close>), and they meet only in the objects of the API server.

  \<^bold>\<open>The world.\<close> A run of the code sees the API server through calls. \<^typ>\<open>world\<close> is the log of the calls
  made so far and the versions of resource definitions the process has remembered; a server is any
  function from the log to a reply. Statements about errors and about which calls are made hold for
  every server. Where a statement is about what is stored, the server is \<^const>\<open>mem_server\<close>,
  which answers from the initial objects with the logged writes replayed. Go maps are association lists
  (\<open>gomap\<close>) where the code reads them; where it iterates over one, the order is a parameter and
  the theorems hold for every order. Errors of the client are values of \<open>go_error\<close>; strings are lists
  of characters read as bytes, which is the same for the ASCII names and keys the API admits.

  \<^bold>\<open>The theories\<close>, in the order of their imports:
    \<^item> \<open>Prelude\<close>: Go's string functions, maps and integers, with the locale \<open>seen_loop\<close> for loops
      that drop repeated entries; \<open>Kube\<close>: the resources;
      \<open>Api\<close>: calls, replies, errors, the stored objects.
    \<^item> \<open>Utils_Basic\<close> (\<open>utils/strings.go\<close>, \<open>slice.go\<close>, \<open>resource.go\<close>): lists of names and ownership.
      The locale \<open>source_codec\<close> states how a list of sources is kept in an annotation.
    \<^item> \<open>Regex\<close> and \<open>Glob\<close>: the regular expressions the code uses, and \<open>filepath.Match\<close> with the class
      filters.
    \<^item> \<open>Hostnames\<close>, \<open>Canary\<close>, \<open>Translator\<close>, \<open>Gateway_Utils\<close> (\<open>internal/translator\<close>): rewriting and
      validation of hostnames, certificates, canaries, routes, Gateways and their merging. The rules
      of a canary refine the documented precedence; a route attaches to listeners of the Gateway
      translated with it.
    \<^item> \<open>Reconcile_Cache\<close> (\<open>utils/reconcile_cache.go\<close> and the cache of the Ingress controller).
    \<^item> \<open>HTTPRoute_Manager\<close> (\<open>utils/httproute.go\<close>): splitting, applying and removing routes, named ports.
    \<^item> \<open>Extension_Refs\<close> and \<open>Snippets\<close> (\<open>utils/snippets.go\<close>): extension resources and references to
      them; the nginx configuration generated from annotations and its safety against injection. The
      locale \<open>managed_writer\<close> is the contract of the guarded writes.
    \<^item> \<open>Post_Processing\<close>: what the Ingress controller does to an Ingress after translating it.
    \<^item> \<open>Listeners\<close>, \<open>Reference_Grants\<close>, \<open>Debouncer\<close>, \<open>HTTPRoute_Controller\<close>
      (\<open>httproute_controller.go\<close>, \<open>utils/referencegrant.go\<close>): listeners follow the routes (locale
      \<open>host_step\<close> for the loops over hostnames), a grant refines the set of its users, the debouncer
      as a step relation over timers and requests, and the reconcile loop.
    \<^item> \<open>Ingress_Controller\<close>: the reconcile loop with its guards, siblings, filters, deletion and the
      requests that events cause; \<open>Effects\<close>: which kinds of objects each operation writes or counts, as
      the locale \<open>frame\<close> interpreted for each operation; \<open>Runs\<close>: the locale \<open>ingress_run\<close>, through which a
      relation that holds along the parts of a run holds along all of it; \<open>Ingress_Properties\<close> and
      \<open>Snippet_Conflicts\<close>: an Ingress is served, its deletion cleans up, a server directive is emitted
      once, a change of a filter reaches its users; \<open>Route_Types\<close>: every route that is built is well
      typed; \<open>Error_Log\<close>: the rate limit of logged errors.
    \<^item> \<open>Webhook\<close>, \<open>Webhook_Properties\<close> (\<open>ingress_webhook.go\<close>), \<open>Startup\<close>, \<open>Startup_Properties\<close> (the two
      main programs) and \<open>Reenabler\<close> (\<open>cmd/reenabler\<close>).
    \<^item> \<open>Ownership\<close>: an operation spares the objects of others, as the locale \<open>sparing\<close> interpreted for each
      operation, up to whole runs of both controllers; \<open>System\<close>: the running operator as a step relation
      over both controllers, the timers and other writers, with its invariant and the settling of
      requested Gateways. The Gateways owed an update are a ghost of the state, no field of the code.
    \<^item> \<open>Counters\<close> (\<open>internal/metrics\<close>): the metrics against the writes the server accepted, as the locale
      \<open>counting\<close>.
    \<^item> this theory: both controllers after each other.

  \<^bold>\<open>Loops.\<close> Every loop of the code is a structural recursion except two with a number of attempts in
  the source (three in \<open>reconcileGatewayListeners\<close>, two in \<open>clearIngressStatus\<close>), which the
  recursion counts, and \<open>ensureReferenceGrant\<close>, which calls itself without a bound. The model gives it
  fuel and the value \<^const>\<open>None\<close> when that runs out; two calls are enough whenever a refused
  grant can be read, and \<open>Reference_Grants\<close> shows that without this no number is. So the statements
  about runs of a controller over a store use the fuel 2 and prove that the run ends.

  \<^bold>\<open>Parameters.\<close> The conversion of the ingress2gateway library, \<open>url.Parse\<close>,
  \<open>SetControllerReference\<close> of controller-runtime, the decoder of admission requests, the success of the
  calls to the controller-runtime manager and the current time are arguments of the definitions that
  use them.

  \<^bold>\<open>Not modelled\<close>: log lines other than the rate limit of errors; the registration of the metrics
  with Prometheus (a recorded metric is an entry of the log); the flag package, so that a
  configuration begins as the values of its flags; the queues and caches of the controller-runtime
  manager (a read sees the latest write, and a requested run happens) and its leader election; the
  two wiring functions \<open>SetupWithManager\<close> of the HTTPRoute controller and \<open>New\<close> of the translator;
  tests. \<^const>\<open>mem_server\<close> removes a deleted object at once: it does not wait for finalizers as the
  API server does.
\<close>

section \<open>The two controllers together\<close>

lemma attached_routes_of:
  assumes "stored_in init w KRoute ns n = Some (ORoute route)" and "m_deletion (hr_meta route) = None"
    and "attached r ing route" and "hr_hostnames route \<noteq> []" and "rr_gatewayNamespace rr = rc_gatewayNamespace r"
  shows "route \<in> set (routes_of init w rr (gateway_for r ing))"
proof -
  have "route \<in> set (List.map_filter as_route xs)" if "ORoute route \<in> set xs" for xs
    using that by (induction xs) (auto simp: List.map_filter_simps split: option.split)
  moreover have "getGatewayNameFromHTTPRoute rr route = gateway_for r ing"
    using assms(3-5) by (cases "hr_hostnames route") (auto simp: getGatewayNameFromHTTPRoute_def attached_def)
  ultimately show ?thesis using stored_is [OF assms(1)] assms(2) by (simp add: routes_of_def)
qed


abbreviation example_init :: "obj list" where
  "example_init \<equiv> [OIngress example_ingress]"

lemma example_sources_known:
  "(case Ingress_Reconcile (example_env example_init) example_ingress_controller ''shop'' ''prod'' example_ctl of
      None \<Rightarrow> False
    | Some (res, s') \<Rightarrow> sources_known (source_of example_init (ct_world s'))
        (routes_of example_init (ct_world s') example_controller ''nginx'') ''app.domain.cc'')"
  by code_simp


end
